(* ===== verification/Prelude.thy ===== *)
theory Prelude
  imports Complex_Main "HOL-Library.AList" "HOL-Library.Char_ord" "HOL-Library.List_Lexorder"
begin

text \<open>
  What the component theories share: JSON values, results with errors, Python's dictionaries
  as association lists in insertion order, and the string operations of Python that the
  sources use.  A \<^typ>\<open>string\<close> stands for a Python string whose code points are below 256
  (HTTP header values are decoded as Latin-1, so for them this is exact).
\<close>

named_theorems py_defs \<open>definitions of the Python string operations\<close>
named_theorems res_simps \<open>inversion of results that are no error\<close>

section \<open>JSON values, results\<close>

datatype json =
    JNull
  | JBool bool
  | JInt int
  | JFloat rat
  | JStr string
  | JList "json list"
  | JObj "(string \<times> json) list"

type_synonym datetime = int
  \<comment> \<open>a naive UTC datetime: microseconds since the epoch\<close>

type_synonym time = rat
  \<comment> \<open>a reading of \<open>time.monotonic\<close>, in seconds\<close>

definition day_us :: int where
  "day_us = 86400000000"

definition opt_json :: "('a \<Rightarrow> json) \<Rightarrow> 'a option \<Rightarrow> json" where
  "opt_json f x = (case x of None \<Rightarrow> JNull | Some a \<Rightarrow> f a)"

lemma opt_json_simps [simp]:
  "opt_json f None = JNull" "opt_json f (Some a) = f a"
  by (simp_all add: opt_json_def)

fun fold_res :: "('a \<Rightarrow> 's \<Rightarrow> 'e + 's) \<Rightarrow> 'a list \<Rightarrow> 's \<Rightarrow> 'e + 's" where
  "fold_res f [] s = Inr s"
| "fold_res f (x # xs) s = (case f x s of Inl e \<Rightarrow> Inl e | Inr s' \<Rightarrow> fold_res f xs s')"

fun map_res :: "('a \<Rightarrow> 'e + 'b) \<Rightarrow> 'a list \<Rightarrow> 'e + 'b list" where
  "map_res f [] = Inr []"
| "map_res f (x # xs) =
     (case f x of
        Inl e \<Rightarrow> Inl e
      | Inr y \<Rightarrow> (case map_res f xs of Inl e \<Rightarrow> Inl e | Inr ys \<Rightarrow> Inr (y # ys)))"

lemma case_res_eq_Inr [res_simps]:
  "(case r of Inl e \<Rightarrow> Inl e | Inr a \<Rightarrow> f a) = Inr b \<longleftrightarrow> (\<exists>a. r = Inr a \<and> f a = Inr b)"
  by (cases r) auto

lemma if_Inl_eq_Inr [res_simps]:
  "(if c then Inl e else r) = Inr b \<longleftrightarrow> \<not> c \<and> r = Inr b"
  by simp

text \<open>An invariant kept by every successful step of a loop holds at its end.\<close>

lemma fold_res_invariant:
  assumes "fold_res f xs s = Inr s'" and "P s"
    and "\<And>x s s'. x \<in> set xs \<Longrightarrow> P s \<Longrightarrow> f x s = Inr s' \<Longrightarrow> P s'"
  shows "P s'"
  using assms
proof (induction xs arbitrary: s)
  case Nil
  then show ?case by simp
next
  case (Cons x xs)
  then obtain t where "f x s = Inr t" and "fold_res f xs t = Inr s'"
    by (auto simp: res_simps)
  with Cons show ?case by (metis list.set_intros(1,2))
qed

lemma fold_res_append:
  "fold_res f (xs @ ys) s =
     (case fold_res f xs s of Inl e \<Rightarrow> Inl e | Inr s' \<Rightarrow> fold_res f ys s')"
  by (induction xs arbitrary: s) (auto split: sum.splits)

lemma fold_res_Inl: "fold_res f xs s = Inl e \<Longrightarrow> \<exists>x\<in>set xs. \<exists>t. f x t = Inl e"
  by (induction xs arbitrary: s) (force split: sum.splits)+

lemma fold_res_collect:
  assumes "\<And>x out r. x \<in> set xs \<Longrightarrow> \<exists>y r'. f x (out, r) = Inr (out @ [y], r') \<and> P x y"
  shows "\<exists>ys r'. fold_res f xs (out, r) = Inr (out @ ys, r') \<and> list_all2 P xs ys"
  using assms
proof (induction xs arbitrary: out r)
  case (Cons x xs)
  obtain y r1 where y: "f x (out, r) = Inr (out @ [y], r1)" "P x y" using Cons.prems[of x out r] by auto
  obtain ys r2 where "fold_res f xs (out @ [y], r1) = Inr ((out @ [y]) @ ys, r2)" "list_all2 P xs ys"
    using Cons.IH[of "out @ [y]" r1] Cons.prems by auto
  with y show ?case by (intro exI[of _ "y # ys"] exI[of _ r2]) simp
qed simp

lemma map_res_length: "map_res f xs = Inr ys \<Longrightarrow> length ys = length xs"
  by (induction xs arbitrary: ys) (auto simp: res_simps)

lemma map_res_elem: "map_res f xs = Inr ys \<Longrightarrow> y \<in> set ys \<Longrightarrow> \<exists>x\<in>set xs. f x = Inr y"
  by (induction xs arbitrary: ys) (auto simp: res_simps)

section \<open>Dictionaries in insertion order\<close>

text \<open>
  \<^const>\<open>map_of\<close> is \<open>d.get\<close>; \<^const>\<open>AList.update\<close> is \<open>d[k] = v\<close>: it replaces the value of a
  present key in its place and appends a new key at the end, as CPython does.
\<close>

abbreviation dict_set :: "'k \<Rightarrow> 'v \<Rightarrow> ('k \<times> 'v) list \<Rightarrow> ('k \<times> 'v) list" where
  "dict_set \<equiv> AList.update"

abbreviation keys_of :: "('k \<times> 'v) list \<Rightarrow> 'k list" where
  "keys_of d \<equiv> map fst d"

definition json_get :: "(string \<times> json) list \<Rightarrow> string \<Rightarrow> json" where
  \<comment> \<open>\<open>d.get(key)\<close> on a decoded object: None for a missing key\<close>
  "json_get d k = (case map_of d k of None \<Rightarrow> JNull | Some v \<Rightarrow> v)"

fun json_truthy :: "json \<Rightarrow> bool" where
  \<comment> \<open>Python's truth value\<close>
  "json_truthy JNull = False"
| "json_truthy (JBool b) = b"
| "json_truthy (JInt i) = (i \<noteq> 0)"
| "json_truthy (JFloat r) = (r \<noteq> 0)"
| "json_truthy (JStr s) = (s \<noteq> [])"
| "json_truthy (JList xs) = (xs \<noteq> [])"
| "json_truthy (JObj d) = (d \<noteq> [])"

lemma keys_of_dict_set:
  "keys_of (dict_set k v d) = (if k \<in> set (keys_of d) then keys_of d else keys_of d @ [k])"
  by (induction d) auto

lemma map_of_dict_set [simp]: "map_of (dict_set k v d) = (map_of d)(k \<mapsto> v)"
  by (rule ext) (simp add: update_conv)

lemma distinct_dict_set: "distinct (keys_of d) \<Longrightarrow> distinct (keys_of (dict_set k v d))"
  by (simp add: keys_of_dict_set)

section \<open>Python's string operations\<close>

definition py_space :: "char \<Rightarrow> bool" where
  \<comment> \<open>\<open>str.isspace\<close> below code point 256\<close>
  [py_defs]: "py_space c \<longleftrightarrow>
     (of_char c :: nat) \<in> {9, 10, 11, 12, 13, 28, 29, 30, 31, 32, 133, 160}"

definition py_lstrip :: "string \<Rightarrow> string" where
  [py_defs]: "py_lstrip s = dropWhile py_space s"

definition py_rstrip :: "string \<Rightarrow> string" where
  [py_defs]: "py_rstrip s = rev (dropWhile py_space (rev s))"

definition py_strip :: "string \<Rightarrow> string" where
  [py_defs]: "py_strip s = py_rstrip (py_lstrip s)"

definition starts_with :: "'a list \<Rightarrow> 'a list \<Rightarrow> bool" where
  [py_defs]: "starts_with p s \<longleftrightarrow> take (length p) s = p"

definition lower_char :: "char \<Rightarrow> char" where
  "lower_char c =
     (let n = of_char c :: nat
      in if (65 \<le> n \<and> n \<le> 90) \<or> (192 \<le> n \<and> n \<le> 222 \<and> n \<noteq> 215) then char_of (n + 32) else c)"

definition py_lower :: "string \<Rightarrow> string" where
  "py_lower s = map lower_char s"

definition split_ws1 :: "string \<Rightarrow> string list" where
  \<comment> \<open>\<open>s.split(None, 1)\<close>\<close>
  [py_defs]: "split_ws1 s =
     (let t = py_lstrip s;
          w = takeWhile (\<lambda>c. \<not> py_space c) t;
          r = py_lstrip (dropWhile (\<lambda>c. \<not> py_space c) t)
      in if t = [] then [] else if r = [] then [w] else [w, r])"

fun split_max :: "nat \<Rightarrow> 'a \<Rightarrow> 'a list \<Rightarrow> 'a list list" where
  \<comment> \<open>\<open>s.split(c, n)\<close> for a separator of one character\<close>
  "split_max 0 c s = [s]"
| "split_max (Suc n) c s =
     (case dropWhile (\<lambda>x. x \<noteq> c) s of
        [] \<Rightarrow> [s]
      | _ # rest \<Rightarrow> takeWhile (\<lambda>x. x \<noteq> c) s # split_max n c rest)"

fun split_on :: "'a \<Rightarrow> 'a list \<Rightarrow> 'a list list" where
  \<comment> \<open>\<open>s.split(c)\<close> for a separator of one character\<close>
  "split_on c [] = [[]]"
| "split_on c (x # xs) =
     (if x = c then [] # split_on c xs
      else (case split_on c xs of [] \<Rightarrow> [[x]] | w # ws \<Rightarrow> (x # w) # ws))"

fun join :: "'a list \<Rightarrow> 'a list list \<Rightarrow> 'a list" where
  "join sep [] = []"
| "join sep [x] = x"
| "join sep (x # y # ys) = x @ sep @ join sep (y # ys)"

definition quoted :: "string \<Rightarrow> string" where
  \<comment> \<open>the text between single quotes\<close>
  "quoted s = CHR 0x27 # s @ [CHR 0x27]"

definition after_last :: "'a \<Rightarrow> 'a list \<Rightarrow> 'a list" where
  \<comment> \<open>\<open>s.rsplit(c, 1)[-1]\<close>\<close>
  "after_last c s = rev (takeWhile (\<lambda>x. x \<noteq> c) (rev s))"

fun show_nat :: "nat \<Rightarrow> string" where
  "show_nat n =
     (if n < 10 then [char_of (48 + n)] else show_nat (n div 10) @ [char_of (48 + n mod 10)])"

declare show_nat.simps [simp del]

definition show_int :: "int \<Rightarrow> string" where
  "show_int i = (if i < 0 then CHR ''-'' # show_nat (nat (- i)) else show_nat (nat i))"

fun show_frac :: "nat \<Rightarrow> rat \<Rightarrow> string" where
  "show_frac 0 r = []"
| "show_frac (Suc n) r =
     (let d = nat \<lfloor>10 * r\<rfloor>; r' = 10 * r - of_nat d
      in char_of (48 + d) # (if r' = 0 then [] else show_frac n r'))"

definition show_decimal :: "rat \<Rightarrow> string" where
  \<comment> \<open>\<open>str(x)\<close> of a decimal number of at most 17 places, as configuration files hold them\<close>
  "show_decimal r =
     (let a = \<bar>r\<bar>; i = \<lfloor>a\<rfloor>
      in (if r < 0 then ''-'' else []) @ show_int i @ ''.'' @ show_frac 17 (a - of_int i))"

definition is_digit :: "char \<Rightarrow> bool" where
  "is_digit c \<longleftrightarrow> (let n = of_char c :: nat in 48 \<le> n \<and> n \<le> 57)"

fun parse_digits :: "nat \<Rightarrow> bool \<Rightarrow> string \<Rightarrow> nat option" where
  \<comment> \<open>digits with single underscores between them; the flag says that the last one was a digit\<close>
  "parse_digits acc d [] = (if d then Some acc else None)"
| "parse_digits acc d (c # cs) =
     (if is_digit c then parse_digits (10 * acc + (of_char c - 48)) True cs
      else if c = CHR ''_'' \<and> d then parse_digits acc False cs
      else None)"

definition py_int :: "string \<Rightarrow> int option" where
  \<comment> \<open>\<open>int(s)\<close>: None where Python raises ValueError\<close>
  "py_int s =
     (case py_strip s of
        [] \<Rightarrow> None
      | c # cs \<Rightarrow>
          if c = CHR ''-'' then map_option (\<lambda>n. - int n) (parse_digits 0 False cs)
          else if c = CHR ''+'' then map_option int (parse_digits 0 False cs)
          else map_option int (parse_digits 0 False (c # cs)))"

section \<open>Rounding\<close>

definition py_round :: "rat \<Rightarrow> int" where
  \<comment> \<open>\<open>round(x)\<close>: to the nearest integer, ties to the even one\<close>
  "py_round x =
     (let f = \<lfloor>x\<rfloor>; d = x - of_int f
      in if d < 1 / 2 then f else if d > 1 / 2 then f + 1 else if even f then f else f + 1)"

lemma py_round_int [simp]: "py_round (of_int i) = i"
  by (simp add: py_round_def)

lemma py_round_floor: "py_round x \<in> {\<lfloor>x\<rfloor>, \<lfloor>x\<rfloor> + 1}"
  by (simp add: py_round_def Let_def)

lemma py_round_mono: "x \<le> y \<Longrightarrow> py_round x \<le> py_round y"
proof -
  assume xy: "x \<le> y"
  then have "\<lfloor>x\<rfloor> \<le> \<lfloor>y\<rfloor>" by (rule floor_mono)
  then consider "\<lfloor>x\<rfloor> + 1 \<le> \<lfloor>y\<rfloor>" | "\<lfloor>x\<rfloor> = \<lfloor>y\<rfloor>" by linarith
  then show ?thesis
  proof cases
    case 1
    then show ?thesis using py_round_floor [of x] py_round_floor [of y] by auto
  next
    case 2
    with xy show ?thesis by (auto simp: py_round_def Let_def)
  qed
qed

section \<open>Lemmas on the string operations\<close>

lemma split_on_nonempty [simp]: "split_on c s \<noteq> []"
  by (cases s) (auto split: list.splits)

lemma join_split_on: "join [c] (split_on c s) = s"
proof (induction s)
  case Nil
  then show ?case by simp
next
  case (Cons x s)
  show ?case
  proof (cases "split_on c s")
    case Nil
    then show ?thesis by simp
  next
    case (Cons w ws)
    with \<open>join [c] (split_on c s) = s\<close> show ?thesis
      by (cases ws) auto
  qed
qed

lemma split_on_no_sep: "w \<in> set (split_on c s) \<Longrightarrow> c \<notin> set w"
proof (induction s arbitrary: w)
  case Nil
  then show ?case by simp
next
  case (Cons x s)
  then show ?case
    by (cases "split_on c s") (auto split: if_splits)
qed

lemma dropWhile_idem: "dropWhile P (dropWhile P xs) = dropWhile P xs"
  by (induction xs) auto

lemma rstrip_Nil_iff: "py_rstrip s = [] \<longleftrightarrow> (\<forall>c\<in>set s. py_space c)"
  by (simp add: py_rstrip_def dropWhile_eq_Nil_conv)

lemma strip_Nil_iff: "py_strip s = [] \<longleftrightarrow> (\<forall>c\<in>set s. py_space c)"
proof -
  have "(\<forall>c\<in>set (dropWhile py_space s). py_space c) \<longleftrightarrow> (\<forall>c\<in>set s. py_space c)"
    by (induction s) auto
  then show ?thesis by (simp add: py_strip_def py_lstrip_def rstrip_Nil_iff)
qed

lemma set_strip_subset: "set (py_strip s) \<subseteq> set s"
  by (auto simp: py_strip_def py_rstrip_def py_lstrip_def dest!: set_dropWhileD)

lemma strip_no_space: "(\<And>c. c \<in> set s \<Longrightarrow> \<not> py_space c) \<Longrightarrow> py_strip s = s"
proof -
  assume *: "\<And>c. c \<in> set s \<Longrightarrow> \<not> py_space c"
  then have "dropWhile py_space s = s" "dropWhile py_space (rev s) = rev s"
    by (cases "s = []"; simp add: dropWhile_eq_self_iff hd_rev)+
  then show ?thesis by (simp add: py_strip_def py_lstrip_def py_rstrip_def)
qed

lemma after_last_no_sep: "c \<notin> set (after_last c s)"
  by (auto simp: after_last_def dest: set_takeWhileD)

end
