(* ===== verification/Errors.thy ===== *)
theory Errors
  imports Prelude
begin

text \<open>
  The error taxonomy of \<open>app/core/errors.py\<close>: one constructor of \<open>err_class\<close> per exception
  class, the class attributes as functions on it, the constructor of \<open>SynError\<close> with its
  defaults and \<open>to_dict\<close>.  An exception that propagates through the gateway is an \<open>exn\<close>: one of
  Syn's errors, the two control exceptions of asyncio, or another Python exception by name.
\<close>

section \<open>The exception classes\<close>

datatype err_class =
    SynErrorC
  | ConfigurationErrorC
  | ValidationErrorC
  | NotFoundErrorC
  | AuthenticationErrorC
  | InvalidApiKeyErrorC
  | RevokedApiKeyErrorC
  | ExpiredApiKeyErrorC
  | ModelForbiddenErrorC
  | AdminAuthErrorC
  | PermissionErrorC
  | BackendUnavailableErrorC
  | BackendTimeoutErrorC
  | BackendInvalidResponseErrorC
  | BackendProtocolErrorC
  | QueueFullErrorC
  | QueueTimeoutErrorC
  | RateLimitExceededErrorC
  | RequestQuotaExceededErrorC
  | TokenQuotaExceededErrorC
  | RequestBodyTooLargeErrorC
  | ModelNotFoundErrorC
  | ModelDisabledErrorC
  | BackendNotConfiguredErrorC
  | RoutingConfigErrorC
  | RegistryErrorC \<comment> \<open>declared in \<open>app/backends/registry.py\<close>\<close>

fun class_parent :: "err_class \<Rightarrow> err_class option" where
  "class_parent SynErrorC = None"
| "class_parent InvalidApiKeyErrorC = Some AuthenticationErrorC"
| "class_parent RevokedApiKeyErrorC = Some AuthenticationErrorC"
| "class_parent ExpiredApiKeyErrorC = Some AuthenticationErrorC"
| "class_parent BackendTimeoutErrorC = Some BackendUnavailableErrorC"
| "class_parent BackendInvalidResponseErrorC = Some BackendUnavailableErrorC"
| "class_parent BackendProtocolErrorC = Some BackendUnavailableErrorC"
| "class_parent RoutingConfigErrorC = Some ConfigurationErrorC"
| "class_parent RegistryErrorC = Some ConfigurationErrorC"
| "class_parent _ = Some SynErrorC"

fun class_depth :: "err_class \<Rightarrow> nat" where
  "class_depth c =
     (if c = SynErrorC then 0 else if class_parent c = Some SynErrorC then 1 else 2)"

function mro :: "err_class \<Rightarrow> err_class list" where
  \<comment> \<open>the method resolution order, most derived class first\<close>
  "mro c = c # (case class_parent c of None \<Rightarrow> [] | Some p \<Rightarrow> mro p)"
  by pat_completeness auto
termination
proof (relation "measure class_depth")
  fix c p
  assume "class_parent c = Some p"
  then show "(p, c) \<in> measure class_depth" by (cases c) auto
qed simp

declare mro.simps [simp del]

definition is_instance :: "err_class \<Rightarrow> err_class \<Rightarrow> bool" where
  \<comment> \<open>does \<open>except d\<close> catch an exception of class \<open>c\<close>\<close>
  "is_instance c d \<longleftrightarrow> d \<in> set (mro c)"

fun class_code :: "err_class \<Rightarrow> string" where
  "class_code SynErrorC = ''syn_error''"
| "class_code ConfigurationErrorC = ''configuration_error''"
| "class_code ValidationErrorC = ''validation_error''"
| "class_code NotFoundErrorC = ''not_found''"
| "class_code AuthenticationErrorC = ''authentication_required''"
| "class_code InvalidApiKeyErrorC = ''invalid_api_key''"
| "class_code RevokedApiKeyErrorC = ''invalid_api_key''"
| "class_code ExpiredApiKeyErrorC = ''expired_api_key''"
| "class_code ModelForbiddenErrorC = ''model_forbidden''"
| "class_code AdminAuthErrorC = ''admin_auth_required''"
| "class_code PermissionErrorC = ''permission_denied''"
| "class_code BackendUnavailableErrorC = ''backend_unavailable''"
| "class_code BackendTimeoutErrorC = ''backend_timeout''"
| "class_code BackendInvalidResponseErrorC = ''backend_invalid_response''"
| "class_code BackendProtocolErrorC = ''backend_protocol_error''"
| "class_code QueueFullErrorC = ''queue_full''"
| "class_code QueueTimeoutErrorC = ''queue_timeout''"
| "class_code RateLimitExceededErrorC = ''rate_limit_exceeded''"
| "class_code RequestQuotaExceededErrorC = ''request_quota_exceeded''"
| "class_code TokenQuotaExceededErrorC = ''token_quota_exceeded''"
| "class_code RequestBodyTooLargeErrorC = ''request_body_too_large''"
| "class_code ModelNotFoundErrorC = ''model_not_found''"
| "class_code ModelDisabledErrorC = ''model_disabled''"
| "class_code BackendNotConfiguredErrorC = ''backend_not_configured''"
| "class_code RoutingConfigErrorC = ''routing_config_invalid''"
| "class_code RegistryErrorC = ''configuration_error''"

fun class_status :: "err_class \<Rightarrow> int" where
  "class_status SynErrorC = 500"
| "class_status ConfigurationErrorC = 500"
| "class_status ValidationErrorC = 400"
| "class_status NotFoundErrorC = 404"
| "class_status AuthenticationErrorC = 401"
| "class_status InvalidApiKeyErrorC = 401"
| "class_status RevokedApiKeyErrorC = 401"
| "class_status ExpiredApiKeyErrorC = 401"
| "class_status ModelForbiddenErrorC = 403"
| "class_status AdminAuthErrorC = 401"
| "class_status PermissionErrorC = 403"
| "class_status BackendUnavailableErrorC = 502"
| "class_status BackendTimeoutErrorC = 504"
| "class_status BackendInvalidResponseErrorC = 502"
| "class_status BackendProtocolErrorC = 502"
| "class_status QueueFullErrorC = 429"
| "class_status QueueTimeoutErrorC = 503"
| "class_status RateLimitExceededErrorC = 429"
| "class_status RequestQuotaExceededErrorC = 429"
| "class_status TokenQuotaExceededErrorC = 429"
| "class_status RequestBodyTooLargeErrorC = 413"
| "class_status ModelNotFoundErrorC = 404"
| "class_status ModelDisabledErrorC = 404"
| "class_status BackendNotConfiguredErrorC = 502"
| "class_status RoutingConfigErrorC = 500"
| "class_status RegistryErrorC = 500"

definition default_message :: string where
  "default_message = ''An internal error occurred.''"

section \<open>Error objects\<close>

record syn_error =
  e_class :: err_class
  e_detail :: string
  e_code :: string
  e_status :: int
  e_request_id :: "string option"
  e_param :: "string option"

definition str_or :: "string option \<Rightarrow> string \<Rightarrow> string" where
  \<comment> \<open>\<open>x or default\<close> for an optional string\<close>
  "str_or x d = (case x of None \<Rightarrow> d | Some s \<Rightarrow> if s = [] then d else s)"

definition int_or :: "int option \<Rightarrow> int \<Rightarrow> int" where
  "int_or x d = (case x of None \<Rightarrow> d | Some i \<Rightarrow> if i = 0 then d else i)"

definition new_error ::
  "err_class \<Rightarrow> string option \<Rightarrow> string option \<Rightarrow> int option \<Rightarrow> string option \<Rightarrow> string option
     \<Rightarrow> syn_error" where
  "new_error cls detail code http_status request_id param =
     \<lparr> e_class = cls,
       e_detail = (case detail of None \<Rightarrow> default_message | Some d \<Rightarrow> d),
       e_code = str_or code (class_code cls),
       e_status = int_or http_status (class_status cls),
       e_request_id = request_id,
       e_param = param \<rparr>"

abbreviation raise_code :: "err_class \<Rightarrow> string \<Rightarrow> string \<Rightarrow> syn_error" where
  \<comment> \<open>\<open>C(detail, code=code)\<close>\<close>
  "raise_code cls detail code \<equiv> new_error cls (Some detail) (Some code) None None None"

abbreviation raise_status :: "err_class \<Rightarrow> string \<Rightarrow> string \<Rightarrow> int \<Rightarrow> syn_error" where
  \<comment> \<open>\<open>C(detail, code=code, http_status=status)\<close>\<close>
  "raise_status cls detail code status \<equiv>
     new_error cls (Some detail) (Some code) (Some status) None None"

abbreviation raise_detail :: "err_class \<Rightarrow> string \<Rightarrow> syn_error" where
  \<comment> \<open>\<open>C(detail)\<close>\<close>
  "raise_detail cls detail \<equiv> new_error cls (Some detail) None None None None"

definition to_dict :: "syn_error \<Rightarrow> (string \<times> json) list" where
  "to_dict e =
     (let payload = [(''code'', JStr (e_code e)), (''detail'', JStr (e_detail e))];
          payload = (case e_param e of
                       Some p \<Rightarrow> if p = [] then payload else dict_set ''param'' (JStr p) payload
                     | None \<Rightarrow> payload)
      in (case e_request_id e of
            Some r \<Rightarrow> if r = [] then payload else dict_set ''request_id'' (JStr r) payload
          | None \<Rightarrow> payload))"

datatype exn =
    Syn syn_error
  | CancelledError
  | GeneratorExit
  | PyError string \<comment> \<open>any other exception, by its type's name\<close>

fun exn_is :: "exn \<Rightarrow> err_class \<Rightarrow> bool" where
  "exn_is (Syn e) c = is_instance (e_class e) c"
| "exn_is _ c = False"

fun is_Exception :: "exn \<Rightarrow> bool" where
  \<comment> \<open>does \<open>except Exception\<close> catch it; the control exceptions derive from BaseException\<close>
  "is_Exception (Syn e) = True"
| "is_Exception CancelledError = False"
| "is_Exception GeneratorExit = False"
| "is_Exception (PyError t) = True"

section \<open>Lemmas\<close>

lemma class_code_nonempty [simp]: "class_code c \<noteq> []"
  by (cases c) simp_all

lemma class_status_range: "400 \<le> class_status c \<and> class_status c \<le> 504"
  by (cases c) simp_all

lemma str_or_nonempty: "d \<noteq> [] \<Longrightarrow> str_or x d \<noteq> []"
  by (simp add: str_or_def split: option.split)

lemma str_or_simps [simp]:
  "str_or None d = d" "s \<noteq> [] \<Longrightarrow> str_or (Some s) d = s" "str_or (Some []) d = d"
  by (simp_all add: str_or_def)

lemma int_or_simps [simp]:
  "int_or None d = d" "i \<noteq> 0 \<Longrightarrow> int_or (Some i) d = i"
  by (simp_all add: int_or_def)

lemma new_error_sel [simp]:
  "e_class (new_error c d k h r p) = c"
  "e_code (new_error c d k h r p) = str_or k (class_code c)"
  "e_status (new_error c d k h r p) = int_or h (class_status c)"
  "e_request_id (new_error c d k h r p) = r"
  "e_param (new_error c d k h r p) = p"
  "e_detail (new_error c (Some t) k h r p) = t"
  by (simp_all add: new_error_def)

lemma is_instance_refl [simp]: "is_instance c c"
  by (simp add: is_instance_def mro.simps [of c])

lemma is_instance_SynError [simp]: "is_instance c SynErrorC"
  by (cases c) (simp_all add: is_instance_def mro.simps)

lemma is_instance_iff:
  "is_instance c d \<longleftrightarrow> d = c \<or> (\<exists>p. class_parent c = Some p \<and> is_instance p d)"
  by (auto simp: is_instance_def mro.simps [of c] split: option.splits)

text \<open>The classes are ordered by inheritance: \<open>c \<le> d\<close> when \<open>d\<close> is \<open>c\<close> or one of its bases.\<close>

lemma mro_cases:
  assumes "d \<in> set (mro c)"
  obtains "d = c" | p where "class_parent c = Some p" "d \<in> set (mro p)" "set (mro p) \<subseteq> set (mro c)"
    "class_depth p < class_depth c"
proof (cases "class_parent c")
  case None
  with assms that(1) show ?thesis by (simp add: mro.simps [of c])
next
  case (Some p)
  then have "class_depth p < class_depth c" by (cases c) auto
  moreover have "set (mro c) = insert c (set (mro p))" by (simp add: mro.simps [of c] Some)
  ultimately show ?thesis using assms that Some by blast
qed

lemma mro_subset: "d \<in> set (mro c) \<Longrightarrow> set (mro d) \<subseteq> set (mro c)"
proof (induction c rule: mro.induct)
  case (1 c)
  from "1.prems" show ?case by (rule mro_cases) (use "1.IH" in blast)+
qed

lemma mro_depth: "d \<in> set (mro c) \<Longrightarrow> d = c \<or> class_depth d < class_depth c"
proof (induction c rule: mro.induct)
  case (1 c)
  from "1.prems" show ?case by (rule mro_cases) (use "1.IH" less_trans in blast)+
qed

instantiation err_class :: order
begin

definition less_eq_err_class :: "err_class \<Rightarrow> err_class \<Rightarrow> bool" where
  "less_eq_err_class c d = is_instance c d"

definition less_err_class :: "err_class \<Rightarrow> err_class \<Rightarrow> bool" where
  "less_err_class c d \<longleftrightarrow> is_instance c d \<and> c \<noteq> d"

instance
proof
  fix a b c :: err_class
  show "a \<le> a" by (simp add: less_eq_err_class_def)
  show "a \<le> b \<Longrightarrow> b \<le> c \<Longrightarrow> a \<le> c"
    using mro_subset [of b a] by (auto simp: less_eq_err_class_def is_instance_def)
  show antisym: "a \<le> b \<Longrightarrow> b \<le> a \<Longrightarrow> a = b"
    using mro_depth [of b a] mro_depth [of a b] by (auto simp: less_eq_err_class_def is_instance_def)
  show "a < b \<longleftrightarrow> a \<le> b \<and> \<not> b \<le> a"
    using mro_depth [of b a] mro_depth [of a b]
    by (auto simp: less_eq_err_class_def less_err_class_def is_instance_def)
qed

end

text \<open>An \<open>except\<close> clause for a class leaves nothing to a later clause for one of its subclasses.\<close>

lemma except_clause_shadows: "c \<le> d \<Longrightarrow> exn_is e c \<Longrightarrow> exn_is e d"
  by (cases e) (auto simp: less_eq_err_class_def [symmetric] intro: order.trans)

lemma is_instance_BackendUnavailable:
  "is_instance c BackendUnavailableErrorC \<longleftrightarrow>
     c \<in> {BackendUnavailableErrorC, BackendTimeoutErrorC, BackendInvalidResponseErrorC,
          BackendProtocolErrorC}"
  by (cases c) (simp_all add: is_instance_def mro.simps)

lemma is_instance_leaf:
  "d \<in> {BackendTimeoutErrorC, BackendProtocolErrorC, BackendInvalidResponseErrorC,
        QueueFullErrorC, QueueTimeoutErrorC, NotFoundErrorC} \<Longrightarrow> is_instance c d \<longleftrightarrow> c = d"
  by (cases c) (auto simp: is_instance_def mro.simps)

text \<open>
  The constructor never loses the code or the status of the error: both come from the call
  when it gives them, else from the class.
\<close>

lemma new_error_code_status:
  "e_code (new_error c d k h r p) \<noteq> []"
  "h = None \<or> (\<exists>i. h = Some i \<and> 400 \<le> i \<and> i \<le> 599) \<Longrightarrow>
     400 \<le> e_status (new_error c d k h r p) \<and> e_status (new_error c d k h r p) \<le> 599"
  using class_status_range [of c] by (auto simp: str_or_nonempty)

lemma map_of_to_dict:
  "map_of (to_dict e) ''code'' = Some (JStr (e_code e))"
  "map_of (to_dict e) ''detail'' = Some (JStr (e_detail e))"
  "map_of (to_dict e) ''param'' =
     (case e_param e of Some p \<Rightarrow> if p = [] then None else Some (JStr p) | None \<Rightarrow> None)"
  "map_of (to_dict e) ''request_id'' =
     (case e_request_id e of Some r \<Rightarrow> if r = [] then None else Some (JStr r) | None \<Rightarrow> None)"
  by (auto simp: to_dict_def Let_def split: option.split)

end
