(* ===== verification/Admission.thy ===== *)
theory Admission
  imports Errors "HOL-Library.Sublist"
begin

text \<open>
  The admission controller of \<open>app/core/admission.py\<close>.

  asyncio runs one task at a time and switches only where a coroutine suspends, so a call of
  \<open>acquire\<close> is a sequence of atomic sections between its suspension points: the wait for its
  queue entry's event, and the wait inside \<open>asyncio.Semaphore\<close>.  No section guarded by the
  controller's lock suspends, so the lock is never found taken and needs no model.  The
  semaphore (value, waiter futures, \<open>locked\<close>, \<open>_wake_up_next\<close>) follows CPython 3.11, the
  version the project requires at least.

  The state is the controller's fields together with the suspended calls: \<open>waiting\<close> holds the
  entries whose call is suspended in \<open>wait_for\<close>, \<open>holders\<close> the calls inside the body of the
  context manager.  A call is identified by a number; its queue entry carries the same number
  (entries compare by their event, so distinct calls have distinct entries).  An \<open>adm_step\<close> is
  one atomic section.
\<close>

section \<open>asyncio.Semaphore\<close>

type_synonym cid = nat

record semaphore =
  sem_value :: nat
  sem_waiters :: "(cid \<times> bool) list" \<comment> \<open>a waiter, and whether its future has its result\<close>

definition sem_locked :: "semaphore \<Rightarrow> bool" where
  "sem_locked m \<longleftrightarrow> sem_value m = 0 \<or> sem_waiters m \<noteq> []"

fun mark_first :: "(cid \<times> bool) list \<Rightarrow> (cid \<times> bool) list option" where
  "mark_first [] = None"
| "mark_first ((c, woken) # ws) =
     (if woken then map_option (\<lambda>vs. (c, woken) # vs) (mark_first ws)
      else Some ((c, True) # ws))"

definition wake_up_next :: "semaphore \<Rightarrow> semaphore" where
  "wake_up_next m =
     (case mark_first (sem_waiters m) of
        None \<Rightarrow> m
      | Some ws \<Rightarrow> m\<lparr>sem_value := sem_value m - 1, sem_waiters := ws\<rparr>)"

definition sem_acquire :: "cid \<Rightarrow> semaphore \<Rightarrow> bool \<times> semaphore" where
  \<comment> \<open>\<open>acquire\<close> up to its suspension: the flag says that the slot was taken at once\<close>
  "sem_acquire c m =
     (if \<not> sem_locked m then (True, m\<lparr>sem_value := sem_value m - 1\<rparr>)
      else (False, m\<lparr>sem_waiters := sem_waiters m @ [(c, False)]\<rparr>))"

definition drop_waiter :: "cid \<Rightarrow> semaphore \<Rightarrow> semaphore" where
  "drop_waiter c m = m\<lparr>sem_waiters := filter (\<lambda>w. fst w \<noteq> c) (sem_waiters m)\<rparr>"

definition sem_resume :: "cid \<Rightarrow> semaphore \<Rightarrow> semaphore" where
  \<comment> \<open>the rest of \<open>acquire\<close> once the waiter's future has its result\<close>
  "sem_resume c m =
     (let m' = drop_waiter c m in if sem_value m' > 0 then wake_up_next m' else m')"

definition sem_cancel :: "cid \<Rightarrow> semaphore \<Rightarrow> semaphore" where
  \<comment> \<open>the rest of \<open>acquire\<close> when the waiting task is cancelled\<close>
  "sem_cancel c m =
     (let m' = drop_waiter c m
      in if (c, True) \<in> set (sem_waiters m) then wake_up_next (m'\<lparr>sem_value := sem_value m' + 1\<rparr>)
         else m')"

definition sem_release :: "semaphore \<Rightarrow> semaphore" where
  "sem_release m = wake_up_next (m\<lparr>sem_value := sem_value m + 1\<rparr>)"

section \<open>The controller\<close>

record queue_entry =
  q_cid :: cid
  q_granted :: bool \<comment> \<open>\<open>granted\<close>; the event is set in the same section\<close>
  q_enqueued_at :: time

record admission =
  max_active :: nat
  max_queue :: nat
  queue_timeout :: rat
  sem :: semaphore
  queue :: "cid list"
  active :: int
  waiting :: "queue_entry list"
  holders :: "cid list"

datatype adm_result =
    Entered
  | SuspendedInQueue
  | SuspendedInSem
  | Raised exn

definition new_admission :: "nat \<Rightarrow> nat \<Rightarrow> rat \<Rightarrow> admission" where
  "new_admission ma mq t =
     \<lparr> max_active = ma, max_queue = mq, queue_timeout = t,
       sem = \<lparr>sem_value = ma, sem_waiters = []\<rparr>,
       queue = [], active = 0, waiting = [], holders = [] \<rparr>"

record admission_status =
  st_active :: int
  st_max_active :: nat
  st_queued :: nat
  st_max_queue :: nat
  st_queue_timeout :: rat

definition status :: "admission \<Rightarrow> admission_status" where
  "status s =
     \<lparr> st_active = active s, st_max_active = max_active s, st_queued = length (queue s),
       st_max_queue = max_queue s, st_queue_timeout = queue_timeout s \<rparr>"

definition queue_full_error :: syn_error where
  "queue_full_error = raise_status QueueFullErrorC ''admission queue is full'' ''queue_full'' 429"

definition queue_timeout_error :: "admission \<Rightarrow> syn_error" where
  "queue_timeout_error s =
     raise_status QueueTimeoutErrorC
       (''request waited longer than '' @ show_decimal (queue_timeout s) @ ''s in queue'')
       ''queue_timeout'' 503"

definition queue_cancelled_error :: syn_error where
  "queue_cancelled_error =
     raise_status QueueTimeoutErrorC ''queue entry was cancelled without grant''
       ''queue_timeout'' 503"

definition take_slot :: "cid \<Rightarrow> admission \<Rightarrow> adm_result \<times> admission" where
  \<comment> \<open>\<open>await self._sem.acquire()\<close>, then \<open>self._active += 1\<close>\<close>
  "take_slot c s =
     (case sem_acquire c (sem s) of
        (True, m) \<Rightarrow> (Entered, s\<lparr>sem := m, active := active s + 1, holders := holders s @ [c]\<rparr>)
      | (False, m) \<Rightarrow> (SuspendedInSem, s\<lparr>sem := m\<rparr>))"

definition acquire :: "cid \<Rightarrow> time \<Rightarrow> admission \<Rightarrow> adm_result \<times> admission" where
  \<comment> \<open>\<open>acquire\<close> up to its first suspension, at a reading of the monotonic clock\<close>
  "acquire c now s =
     (if sem_locked (sem s) \<or> queue s \<noteq> [] then
        (if \<not> sem_locked (sem s) \<and> queue s = [] then take_slot c s
         else if length (queue s) \<ge> max_queue s then (Raised (Syn queue_full_error), s)
         else (SuspendedInQueue,
               s\<lparr>queue := queue s @ [c],
                 waiting := waiting s @ [\<lparr>q_cid = c, q_granted = False, q_enqueued_at = now\<rparr>]\<rparr>))
      else take_slot c s)"

definition drop_waiting :: "cid \<Rightarrow> admission \<Rightarrow> admission" where
  "drop_waiting c s = s\<lparr>waiting := filter (\<lambda>q. q_cid q \<noteq> c) (waiting s)\<rparr>"

definition resume_queued :: "queue_entry \<Rightarrow> admission \<Rightarrow> adm_result \<times> admission" where
  \<comment> \<open>\<open>wait_for\<close> returned: the entry's event is set\<close>
  "resume_queued q s =
     (let s' = drop_waiting (q_cid q) s
      in if \<not> q_granted q then (Raised (Syn queue_cancelled_error), s')
         else take_slot (q_cid q) s')"

definition remove_queued_entry :: "cid \<Rightarrow> admission \<Rightarrow> admission" where
  "remove_queued_entry c s = s\<lparr>queue := remove1 c (queue s)\<rparr>"

definition timeout_queued :: "cid \<Rightarrow> admission \<Rightarrow> adm_result \<times> admission" where
  \<comment> \<open>\<open>wait_for\<close> raised TimeoutError\<close>
  "timeout_queued c s =
     (Raised (Syn (queue_timeout_error s)), remove_queued_entry c (drop_waiting c s))"

definition cancel_queued :: "cid \<Rightarrow> admission \<Rightarrow> adm_result \<times> admission" where
  \<comment> \<open>the task was cancelled in \<open>wait_for\<close>: \<open>acquire\<close> has no handler for CancelledError\<close>
  "cancel_queued c s = (Raised CancelledError, drop_waiting c s)"

definition resume_sem :: "cid \<Rightarrow> admission \<Rightarrow> adm_result \<times> admission" where
  "resume_sem c s =
     (Entered,
      s\<lparr>sem := sem_resume c (sem s), active := active s + 1, holders := holders s @ [c]\<rparr>)"

definition cancel_sem :: "cid \<Rightarrow> admission \<Rightarrow> adm_result \<times> admission" where
  "cancel_sem c s = (Raised CancelledError, s\<lparr>sem := sem_cancel c (sem s)\<rparr>)"

definition grant_entry :: "cid \<Rightarrow> queue_entry list \<Rightarrow> queue_entry list" where
  "grant_entry c qs = map (\<lambda>q. if q_cid q = c then q\<lparr>q_granted := True\<rparr> else q) qs"

definition release :: "admission \<Rightarrow> admission option" where
  \<comment> \<open>\<open>_release\<close>; None where the assertion on the active count fails\<close>
  "release s =
     (let s = s\<lparr>active := active s - 1\<rparr>
      in if active s < 0 then None
         else let s = (case queue s of
                         [] \<Rightarrow> s
                       | c # cs \<Rightarrow> s\<lparr>queue := cs, waiting := grant_entry c (waiting s)\<rparr>)
              in Some (s\<lparr>sem := sem_release (sem s)\<rparr>))"

definition leave :: "cid \<Rightarrow> admission \<Rightarrow> admission option" where
  \<comment> \<open>the body of the context manager ends, normally or by an exception\<close>
  "leave c s = map_option (\<lambda>s'. s'\<lparr>holders := remove1 c (holders s')\<rparr>) (release s)"

section \<open>Atomic sections as steps\<close>

datatype adm_event =
    Arrive cid time
  | Resume cid
  | Timeout cid
  | CancelWait cid
  | ResumeSem cid
  | CancelSem cid
  | Leave cid

definition known :: "cid \<Rightarrow> admission \<Rightarrow> bool" where
  "known c s \<longleftrightarrow>
     c \<in> set (queue s) \<union> q_cid ` set (waiting s) \<union> fst ` set (sem_waiters (sem s)) \<union> set (holders s)"

inductive adm_step :: "admission \<Rightarrow> adm_event \<Rightarrow> adm_result option \<Rightarrow> admission \<Rightarrow> bool" where
  arrive: "\<not> known c s \<Longrightarrow> acquire c t s = (r, s') \<Longrightarrow> adm_step s (Arrive c t) (Some r) s'"
| resume: "q \<in> set (waiting s) \<Longrightarrow> q_granted q \<Longrightarrow> resume_queued q s = (r, s') \<Longrightarrow>
     adm_step s (Resume (q_cid q)) (Some r) s'"
| timeout: "q \<in> set (waiting s) \<Longrightarrow> timeout_queued (q_cid q) s = (r, s') \<Longrightarrow>
     adm_step s (Timeout (q_cid q)) (Some r) s'"
| cancel_wait: "q \<in> set (waiting s) \<Longrightarrow> cancel_queued (q_cid q) s = (r, s') \<Longrightarrow>
     adm_step s (CancelWait (q_cid q)) (Some r) s'"
| resume_sem: "(c, True) \<in> set (sem_waiters (sem s)) \<Longrightarrow> resume_sem c s = (r, s') \<Longrightarrow>
     adm_step s (ResumeSem c) (Some r) s'"
| cancel_sem: "(c, b) \<in> set (sem_waiters (sem s)) \<Longrightarrow> cancel_sem c s = (r, s') \<Longrightarrow>
     adm_step s (CancelSem c) (Some r) s'"
| leave: "c \<in> set (holders s) \<Longrightarrow> leave c s = Some s' \<Longrightarrow> adm_step s (Leave c) None s'"

inductive_cases adm_step_cases:
  "adm_step s (Arrive c t) r s'" "adm_step s (Resume c) r s'" "adm_step s (Timeout c) r s'"
  "adm_step s (CancelWait c) r s'" "adm_step s (ResumeSem c) r s'" "adm_step s (CancelSem c) r s'"
  "adm_step s (Leave c) r s'"

definition enqueues :: "adm_event \<Rightarrow> adm_result option \<Rightarrow> cid list" where
  \<comment> \<open>the call an event appends to the queue\<close>
  "enqueues e r = (case (e, r) of (Arrive c _, Some SuspendedInQueue) \<Rightarrow> [c] | _ \<Rightarrow> [])"

definition grants :: "adm_event \<Rightarrow> admission \<Rightarrow> cid list" where
  \<comment> \<open>the call whose entry an event takes from the front of the queue\<close>
  "grants e s = (case e of Leave _ \<Rightarrow> take 1 (queue s) | _ \<Rightarrow> [])"

inductive adm_reach :: "admission \<Rightarrow> cid list \<Rightarrow> cid list \<Rightarrow> admission \<Rightarrow> bool"
  for s0 :: admission where
  \<comment> \<open>the states reachable from \<open>s0\<close>, with the calls enqueued and granted on the way\<close>
  start: "adm_reach s0 [] [] s0"
| step: "adm_reach s0 enq gr s \<Longrightarrow> adm_step s e r s' \<Longrightarrow>
     adm_reach s0 (enq @ enqueues e r) (gr @ grants e s) s'"

text \<open>The steps as a function, to run a sequence of events.\<close>

definition find_entry :: "cid \<Rightarrow> admission \<Rightarrow> queue_entry option" where
  "find_entry c s = List.find (\<lambda>q. q_cid q = c) (waiting s)"

fun adm_exec :: "admission \<Rightarrow> adm_event \<Rightarrow> (adm_result option \<times> admission) option" where
  "adm_exec s (Arrive c t) = (if known c s then None else Some (apfst Some (acquire c t s)))"
| "adm_exec s (Resume c) =
     (case find_entry c s of
        None \<Rightarrow> None
      | Some q \<Rightarrow> if q_granted q then Some (apfst Some (resume_queued q s)) else None)"
| "adm_exec s (Timeout c) =
     (case find_entry c s of None \<Rightarrow> None | Some q \<Rightarrow> Some (apfst Some (timeout_queued c s)))"
| "adm_exec s (CancelWait c) =
     (case find_entry c s of None \<Rightarrow> None | Some q \<Rightarrow> Some (apfst Some (cancel_queued c s)))"
| "adm_exec s (ResumeSem c) =
     (if (c, True) \<in> set (sem_waiters (sem s)) then Some (apfst Some (resume_sem c s)) else None)"
| "adm_exec s (CancelSem c) =
     (if c \<in> fst ` set (sem_waiters (sem s)) then Some (apfst Some (cancel_sem c s)) else None)"
| "adm_exec s (Leave c) =
     (if c \<in> set (holders s) then map_option (Pair None) (leave c s) else None)"

fun adm_run :: "admission \<Rightarrow> adm_event list \<Rightarrow> admission option" where
  "adm_run s [] = Some s"
| "adm_run s (e # es) = (case adm_exec s e of None \<Rightarrow> None | Some (_, s') \<Rightarrow> adm_run s' es)"

lemma find_entry_Some: "find_entry c s = Some q \<Longrightarrow> q \<in> set (waiting s) \<and> q_cid q = c"
  by (auto simp: find_entry_def find_Some_iff)

lemma adm_exec_step: "adm_exec s e = Some (r, s') \<Longrightarrow> adm_step s e r s'"
  by (cases e)
    (auto simp: apfst_def map_prod_def split: if_splits option.splits prod.splits
      dest!: find_entry_Some intro: adm_step.intros)

lemma adm_run_reach:
  assumes "adm_run s es = Some s'" and "adm_reach s0 enq gr s"
  shows "\<exists>enq gr. adm_reach s0 enq gr s'"
  using assms
proof (induction es arbitrary: s enq gr)
  case Nil
  then show ?case by auto
next
  case (Cons e es)
  then obtain r t where "adm_exec s e = Some (r, t)" and run: "adm_run t es = Some s'"
    by (auto split: option.splits)
  with Cons.prems(2) have "adm_reach s0 (enq @ enqueues e r) (gr @ grants e s) t"
    by (auto intro: adm_reach.step adm_exec_step)
  with Cons.IH run show ?case by blast
qed

end
