(* ===== verification/Admission_Safety.thy ===== *)
theory Admission_Safety
  imports Admission
begin

text \<open>
  The safety of the admission controller: the accounting of the semaphore, the invariant that
  every atomic section keeps, the bounds on active and queued calls, the order of the grants.
\<close>

named_theorems adm_defs \<open>the controller's operations\<close>

lemmas [adm_defs] =
  acquire_def take_slot_def sem_acquire_def resume_queued_def timeout_queued_def
  cancel_queued_def resume_sem_def cancel_sem_def release_def leave_def drop_waiting_def
  remove_queued_entry_def Let_def

section \<open>Accounting of the semaphore\<close>

definition woken :: "(cid \<times> bool) list \<Rightarrow> nat" where
  "woken ws = length (filter snd ws)"

definition slots :: "semaphore \<Rightarrow> nat" where
  \<comment> \<open>free slots, those promised to a woken waiter included\<close>
  "slots m = sem_value m + woken (sem_waiters m)"

definition no_idle_waiter :: "semaphore \<Rightarrow> bool" where
  \<comment> \<open>with a free slot, some waiter has been woken if there is any waiter\<close>
  "no_idle_waiter m \<longleftrightarrow> sem_value m > 0 \<and> sem_waiters m \<noteq> [] \<longrightarrow> woken (sem_waiters m) > 0"

lemma woken_simps [simp]:
  "woken [] = 0" "woken (w # ws) = (if snd w then 1 else 0) + woken ws"
  "woken (ws @ vs) = woken ws + woken vs"
  by (simp_all add: woken_def)

lemma mark_first_None: "mark_first ws = None \<longleftrightarrow> woken ws = length ws"
proof (induction ws rule: mark_first.induct)
  case (2 c w ws)
  have "woken ws \<le> length ws" by (simp add: woken_def)
  with 2 show ?case by auto
qed simp

lemma mark_first_Some:
  "mark_first ws = Some vs \<Longrightarrow> map fst vs = map fst ws \<and> woken vs = Suc (woken ws)"
  by (induction ws arbitrary: vs rule: mark_first.induct) (auto split: if_splits)

lemma fst_wake_up_next [simp]: "map fst (sem_waiters (wake_up_next m)) = map fst (sem_waiters m)"
  by (auto simp: wake_up_next_def dest: mark_first_Some split: option.split)

lemma slots_wake_up_next: "sem_value m > 0 \<Longrightarrow> slots (wake_up_next m) = slots m"
  by (auto simp: wake_up_next_def slots_def dest: mark_first_Some split: option.split)

lemma wake_up_next_wakes:
  "sem_waiters m \<noteq> [] \<Longrightarrow> woken (sem_waiters (wake_up_next m)) > 0"
  by (auto simp: wake_up_next_def mark_first_None dest: mark_first_Some split: option.split)

lemma wake_up_next_Nil [simp]: "sem_waiters (wake_up_next m) = [] \<longleftrightarrow> sem_waiters m = []"
  by (metis fst_wake_up_next map_is_Nil_conv)

lemma no_idle_wake_up_next: "no_idle_waiter (wake_up_next m)"
  using wake_up_next_wakes [of m] by (auto simp: no_idle_waiter_def)

lemma woken_drop:
  assumes "distinct (map fst ws)" and "(c, b) \<in> set ws"
  shows "woken ws = woken (filter (\<lambda>w. fst w \<noteq> c) ws) + (if b then 1 else 0)"
  using assms
proof (induction ws)
  case (Cons w ws)
  have "c \<notin> fst ` set ws \<Longrightarrow> filter (\<lambda>w. fst w \<noteq> c) ws = ws"
    by (rule filter_True) auto
  with Cons show ?case by (cases w) (auto simp: image_iff)
qed simp

lemma slots_sem_acquire:
  "sem_acquire c m = (True, m') \<Longrightarrow> Suc (slots m') = slots m"
  "sem_acquire c m = (False, m') \<Longrightarrow> slots m' = slots m"
  by (auto simp: sem_acquire_def sem_locked_def slots_def split: if_splits)

lemma slots_sem_release: "slots (sem_release m) = Suc (slots m)"
  by (simp add: sem_release_def slots_wake_up_next) (simp add: slots_def)

lemma slots_drop_waiter:
  assumes "distinct (map fst (sem_waiters m))" and "(c, b) \<in> set (sem_waiters m)"
  shows "slots m = slots (drop_waiter c m) + (if b then 1 else 0)"
  using woken_drop [OF assms] by (simp add: slots_def drop_waiter_def)

lemma slots_sem_resume:
  assumes "distinct (map fst (sem_waiters m))" and "(c, True) \<in> set (sem_waiters m)"
  shows "slots m = Suc (slots (sem_resume c m))"
  using slots_drop_waiter [OF assms] by (simp add: sem_resume_def Let_def slots_wake_up_next)

lemma slots_sem_cancel:
  assumes "distinct (map fst (sem_waiters m))" and "(c, b) \<in> set (sem_waiters m)"
  shows "slots (sem_cancel c m) = slots m"
proof (cases b)
  case True
  with slots_drop_waiter [OF assms] assms(2) show ?thesis
    by (simp add: sem_cancel_def Let_def slots_wake_up_next) (simp add: slots_def)
next
  case False
  with assms have "(c, True) \<notin> set (sem_waiters m)"
    by (auto dest: eq_key_imp_eq_value)
  with False slots_drop_waiter [OF assms] show ?thesis by (simp add: sem_cancel_def)
qed

lemma no_idle_sem_ops:
  "no_idle_waiter (sem_resume c m)" "no_idle_waiter (sem_release m)"
  by (auto simp: sem_resume_def sem_release_def Let_def no_idle_wake_up_next)
    (simp add: no_idle_waiter_def)

lemma no_idle_sem_acquire:
  "no_idle_waiter m \<Longrightarrow> sem_acquire c m = (b, m') \<Longrightarrow> no_idle_waiter m'"
  by (auto simp: sem_acquire_def sem_locked_def no_idle_waiter_def split: if_splits)

lemma no_idle_drop_unwoken:
  assumes "no_idle_waiter m" "distinct (map fst (sem_waiters m))" "(c, False) \<in> set (sem_waiters m)"
  shows "no_idle_waiter (drop_waiter c m)"
  using assms woken_drop [of "sem_waiters m" c False]
  by (auto simp: no_idle_waiter_def drop_waiter_def)

lemma no_idle_sem_cancel:
  assumes "no_idle_waiter m" "distinct (map fst (sem_waiters m))" "(c, b) \<in> set (sem_waiters m)"
  shows "no_idle_waiter (sem_cancel c m)"
  using assms no_idle_drop_unwoken [of m c]
  by (cases b) (auto simp: sem_cancel_def Let_def no_idle_wake_up_next)

definition sem_cids :: "semaphore \<Rightarrow> cid list" where
  "sem_cids m = map fst (sem_waiters m)"

lemma sem_cids_drop_waiter: "sem_cids (drop_waiter c m) = filter (\<lambda>x. x \<noteq> c) (sem_cids m)"
  by (simp add: sem_cids_def drop_waiter_def filter_map comp_def)

lemma sem_cids_ops [simp]:
  "sem_cids (wake_up_next m) = sem_cids m"
  "sem_cids (m\<lparr>sem_value := n\<rparr>) = sem_cids m"
  "sem_cids (sem_resume c m) = filter (\<lambda>x. x \<noteq> c) (sem_cids m)"
  "sem_cids (sem_cancel c m) = filter (\<lambda>x. x \<noteq> c) (sem_cids m)"
  "sem_cids (sem_release m) = sem_cids m"
proof -
  show wake: "sem_cids (wake_up_next m) = sem_cids m" for m by (simp add: sem_cids_def)
  show val: "sem_cids (m\<lparr>sem_value := n\<rparr>) = sem_cids m" for m n by (simp add: sem_cids_def)
  show "sem_cids (sem_resume c m) = filter (\<lambda>x. x \<noteq> c) (sem_cids m)"
    "sem_cids (sem_cancel c m) = filter (\<lambda>x. x \<noteq> c) (sem_cids m)"
    "sem_cids (sem_release m) = sem_cids m"
    by (simp_all add: sem_resume_def sem_cancel_def sem_release_def Let_def
        sem_cids_drop_waiter wake val)
qed

lemma sem_cids_mem: "(c, b) \<in> set (sem_waiters m) \<Longrightarrow> c \<in> set (sem_cids m)"
  by (force simp: sem_cids_def)

lemma sem_cids_acquire:
  "sem_acquire c m = (b, m') \<Longrightarrow> sem_cids m' = (if b then sem_cids m else sem_cids m @ [c])"
  by (auto simp: sem_acquire_def sem_cids_def split: if_splits)

section \<open>The invariant\<close>

definition w_cids :: "queue_entry list \<Rightarrow> cid list" where
  "w_cids qs = map q_cid qs"

lemma w_cids_simps [simp]:
  "w_cids [] = []" "w_cids (q # qs) = q_cid q # w_cids qs" "w_cids (qs @ rs) = w_cids qs @ w_cids rs"
  "w_cids (filter (\<lambda>q. q_cid q \<noteq> c) qs) = filter (\<lambda>x. x \<noteq> c) (w_cids qs)"
  "w_cids (grant_entry c qs) = w_cids qs"
  by (simp_all add: w_cids_def filter_map comp_def grant_entry_def)

lemma w_cids_mem: "q \<in> set qs \<Longrightarrow> q_cid q \<in> set (w_cids qs)"
  by (simp add: w_cids_def)

definition parked :: "admission \<Rightarrow> cid list" where
  \<comment> \<open>every call the controller still has to do with\<close>
  "parked s = w_cids (waiting s) @ sem_cids (sem s) @ holders s"

definition adm_inv :: "admission \<Rightarrow> bool" where
  "adm_inv s \<longleftrightarrow>
     slots (sem s) + length (holders s) = max_active s \<and>
     active s = int (length (holders s)) \<and>
     length (queue s) \<le> max_queue s \<and>
     distinct (queue s) \<and> distinct (parked s) \<and>
     (\<forall>q\<in>set (waiting s). q_granted q \<longleftrightarrow> q_cid q \<notin> set (queue s)) \<and>
     set (queue s) \<inter> (set (sem_cids (sem s)) \<union> set (holders s)) = {} \<and>
     no_idle_waiter (sem s)"

lemma adm_inv_new: "adm_inv (new_admission ma mq t)"
  by (simp add: adm_inv_def new_admission_def parked_def slots_def no_idle_waiter_def
      sem_cids_def)

lemma known_iff: "known c s \<longleftrightarrow> c \<in> set (queue s) \<or> c \<in> set (parked s)"
  by (auto simp: known_def parked_def sem_cids_def w_cids_def)

lemma q_cid_inj:
  "adm_inv s \<Longrightarrow> q \<in> set (waiting s) \<Longrightarrow> q' \<in> set (waiting s) \<Longrightarrow> q_cid q = q_cid q' \<Longrightarrow> q = q'"
  by (auto simp: adm_inv_def parked_def w_cids_def distinct_map inj_on_def)

lemma take_slot_inv:
  assumes "adm_inv s" "c \<notin> set (parked s)" "c \<notin> set (queue s)" "take_slot c s = (r, s')"
  shows "adm_inv s'"
proof -
  obtain b m where m: "sem_acquire c (sem s) = (b, m)" by (cases "sem_acquire c (sem s)") auto
  show ?thesis
  proof (cases b)
    case True
    with assms m slots_sem_acquire(1) [of c "sem s" m] sem_cids_acquire [OF m] show ?thesis
      by (auto simp: take_slot_def adm_inv_def parked_def dest: no_idle_sem_acquire)
  next
    case False
    with assms m slots_sem_acquire(2) [of c "sem s" m] sem_cids_acquire [OF m] show ?thesis
      by (auto simp: take_slot_def adm_inv_def parked_def dest: no_idle_sem_acquire)
  qed
qed

lemma acquire_inv:
  assumes "adm_inv s" "\<not> known c s" "acquire c t s = (r, s')"
  shows "adm_inv s'"
  using assms take_slot_inv [of s c r s']
  by (auto simp: acquire_def known_iff split: if_splits)
    (auto simp: adm_inv_def parked_def dest: w_cids_mem)

lemma drop_waiting_inv: "adm_inv s \<Longrightarrow> adm_inv (drop_waiting c s)"
  by (auto simp: adm_inv_def parked_def drop_waiting_def)

lemma parked_drop_waiting:
  "adm_inv s \<Longrightarrow> q \<in> set (waiting s) \<Longrightarrow> q_cid q \<notin> set (parked (drop_waiting (q_cid q) s))"
  by (auto simp: adm_inv_def parked_def drop_waiting_def dest: w_cids_mem)

lemma resume_queued_inv:
  assumes "adm_inv s" "q \<in> set (waiting s)" "q_granted q" "resume_queued q s = (r, s')"
  shows "adm_inv s'"
proof -
  let ?t = "drop_waiting (q_cid q) s"
  have queue: "q_cid q \<notin> set (queue ?t)"
    using assms(1-3) by (auto simp: adm_inv_def drop_waiting_def)
  have slot: "take_slot (q_cid q) ?t = (r, s')"
    using assms(3,4) by (simp add: resume_queued_def Let_def)
  show ?thesis
    by (rule take_slot_inv [OF drop_waiting_inv [OF assms(1)] parked_drop_waiting [OF assms(1,2)]
          queue slot])
qed

lemma timeout_queued_inv:
  assumes "adm_inv s" "timeout_queued c s = (r, s')"
  shows "adm_inv s'"
  using assms
  by (auto simp: timeout_queued_def adm_inv_def parked_def drop_waiting_def remove_queued_entry_def
      length_remove1)

lemma resume_sem_inv:
  assumes "adm_inv s" "(c, True) \<in> set (sem_waiters (sem s))" "resume_sem c s = (r, s')"
  shows "adm_inv s'"
  using assms slots_sem_resume [of "sem s" c] sem_cids_mem [of c True "sem s"]
  by (auto simp: resume_sem_def adm_inv_def parked_def no_idle_sem_ops)
    (auto simp: sem_cids_def)

lemma cancel_sem_inv:
  assumes "adm_inv s" "(c, b) \<in> set (sem_waiters (sem s))" "cancel_sem c s = (r, s')"
  shows "adm_inv s'"
proof -
  have "distinct (map fst (sem_waiters (sem s)))"
    using assms(1) by (simp add: adm_inv_def parked_def sem_cids_def)
  then show ?thesis
    using assms slots_sem_cancel [of "sem s" c b] no_idle_sem_cancel [of "sem s" c b]
    by (auto simp: cancel_sem_def adm_inv_def parked_def)
qed

lemma grant_entry_cases:
  assumes "q \<in> set (grant_entry d qs)"
  obtains q' where "q' \<in> set qs" "q_cid q = q_cid q'" "q_granted q \<longleftrightarrow> q_granted q' \<or> q_cid q' = d"
  using assms by (auto simp: grant_entry_def split: if_splits)

lemma leave_eq:
  "leave c s =
     (if active s > 0 then
        Some (s\<lparr>active := active s - 1, queue := tl (queue s),
                waiting := (case queue s of [] \<Rightarrow> waiting s | d # _ \<Rightarrow> grant_entry d (waiting s)),
                sem := sem_release (sem s), holders := remove1 c (holders s)\<rparr>)
      else None)"
  by (cases "queue s") (simp_all add: leave_def release_def Let_def)

lemma leave_total: "adm_inv s \<Longrightarrow> c \<in> set (holders s) \<Longrightarrow> \<exists>s'. leave c s = Some s'"
  by (auto simp: leave_eq adm_inv_def)

lemma leave_inv:
  assumes inv: "adm_inv s" and c: "c \<in> set (holders s)" and s': "leave c s = Some s'"
  shows "adm_inv s'"
proof -
  have len: "length (holders s) = Suc (length (remove1 c (holders s)))"
    using c by (simp add: length_remove1) (metis Suc_pred length_pos_if_in_set)
  show ?thesis
  proof (cases "queue s")
    case Nil
    with inv c s' len slots_sem_release [of "sem s"] show ?thesis
      by (auto simp: leave_eq adm_inv_def parked_def no_idle_sem_ops split: if_splits)
  next
    case (Cons d ds)
    with inv c s' len slots_sem_release [of "sem s"] show ?thesis
      by (auto simp: leave_eq adm_inv_def parked_def no_idle_sem_ops
          elim!: grant_entry_cases split: if_splits)
  qed
qed

lemma adm_step_inv: "adm_step s e r s' \<Longrightarrow> adm_inv s \<Longrightarrow> adm_inv s'"
proof (induction rule: adm_step.induct)
  case (arrive c s t r s')
  then show ?case using acquire_inv by blast
next
  case (resume q s r s')
  then show ?case using resume_queued_inv by blast
next
  case (timeout q s r s')
  then show ?case using timeout_queued_inv by blast
next
  case (cancel_wait q s r s')
  then show ?case by (auto simp: cancel_queued_def drop_waiting_inv)
next
  case (resume_sem c s r s')
  then show ?case using resume_sem_inv by blast
next
  case (cancel_sem c b s r s')
  then show ?case using cancel_sem_inv by blast
next
  case (leave c s s')
  then show ?case using leave_inv by blast
qed

lemma adm_reach_inv: "adm_reach s0 enq gr s \<Longrightarrow> adm_inv s0 \<Longrightarrow> adm_inv s"
  by (induction rule: adm_reach.induct) (auto intro: adm_step_inv)

section \<open>Frame, bounds and order\<close>

lemma take_slot_frame:
  "take_slot c s = (r, s') \<Longrightarrow>
     max_active s' = max_active s \<and> max_queue s' = max_queue s \<and> queue_timeout s' = queue_timeout s
     \<and> queue s' = queue s \<and> waiting s' = waiting s"
  by (auto simp: take_slot_def split: prod.splits bool.splits)

lemma leave_frame:
  "leave c s = Some s' \<Longrightarrow>
     max_active s' = max_active s \<and> max_queue s' = max_queue s \<and> queue_timeout s' = queue_timeout s
     \<and> queue s' = tl (queue s)"
  by (auto simp: leave_eq split: if_splits)

lemma adm_step_frame:
  assumes "adm_step s e r s'"
  shows "max_active s' = max_active s \<and> max_queue s' = max_queue s \<and> queue_timeout s' = queue_timeout s"
  using assms
  by (induction rule: adm_step.induct)
    (auto simp: acquire_def resume_queued_def timeout_queued_def cancel_queued_def resume_sem_def
      cancel_sem_def drop_waiting_def remove_queued_entry_def Let_def
      dest!: take_slot_frame leave_frame split: if_splits)

lemma adm_reach_frame:
  "adm_reach s0 enq gr s \<Longrightarrow>
     max_active s = max_active s0 \<and> max_queue s = max_queue s0 \<and> queue_timeout s = queue_timeout s0"
  by (induction rule: adm_reach.induct) (auto dest: adm_step_frame)

lemma adm_step_queue:
  assumes "adm_step s e r s'"
  shows "subseq (grants e s @ queue s') (queue s @ enqueues e r)"
  using assms
proof (induction rule: adm_step.induct)
  case (arrive c s t r s')
  then show ?case
    by (auto simp: acquire_def enqueues_def grants_def dest: take_slot_frame split: if_splits)
next
  case (resume q s r s')
  then show ?case
    by (auto simp: resume_queued_def enqueues_def grants_def drop_waiting_def Let_def
        dest: take_slot_frame)
next
  case (timeout q s r s')
  have "subseq (remove1 c xs) xs" for c :: nat and xs
    by (induction xs) auto
  with timeout show ?case
    by (auto simp: timeout_queued_def enqueues_def grants_def drop_waiting_def
        remove_queued_entry_def)
next
  case (leave c s s')
  then show ?case
    by (cases "queue s") (auto simp: enqueues_def grants_def dest: leave_frame)
qed (auto simp: cancel_queued_def resume_sem_def cancel_sem_def drop_waiting_def enqueues_def
    grants_def)

lemma new_admission_sel [simp]:
  "max_active (new_admission ma mq t) = ma" "max_queue (new_admission ma mq t) = mq"
  "queue_timeout (new_admission ma mq t) = t" "queue (new_admission ma mq t) = []"
  by (simp_all add: new_admission_def)

text \<open>C9: In every state the controller can reach, at most \<open>max_active_requests\<close> calls are inside
  the body of \<open>acquire\<close>, the reported active count is their number, and at most
  \<open>max_queue_size\<close> entries are queued.\<close>

theorem admission_bounds:
  assumes "adm_reach (new_admission ma mq t) enq gr s"
  shows "length (holders s) \<le> ma \<and> st_active (status s) = int (length (holders s)) \<and>
    st_queued (status s) \<le> mq"
  using adm_reach_inv [OF assms adm_inv_new] adm_reach_frame [OF assms]
  by (auto simp: adm_inv_def status_def)

theorem admission_bounds_witness:
  "\<exists>s. adm_run (new_admission 1 1 30) [Arrive 0 0, Arrive 1 0] = Some s \<and> holders s = [0] \<and>
     length (holders s) \<le> 1 \<and> st_queued (status s) \<le> 1"
proof -
  let ?s0 = "new_admission 1 1 30"
  obtain s where run: "adm_run ?s0 [Arrive 0 0, Arrive 1 0] = Some s" and h: "holders s = [0]"
    by (simp add: new_admission_def known_def acquire_def sem_locked_def take_slot_def
        sem_acquire_def)
  obtain enq gr where "adm_reach ?s0 enq gr s"
    using adm_run_reach [OF run adm_reach.start] by blast
  from admission_bounds [OF this] run h show ?thesis by auto
qed

text \<open>C20: No slot is ever lost or invented: the semaphore's value, the slots handed to woken waiters
  and the calls inside add up to \<open>max_active_requests\<close>; and whoever leaves the body releases its
  slot without failing the assertion on the active count.\<close>

theorem admission_no_slot_leak:
  assumes "adm_reach (new_admission ma mq t) enq gr s"
  shows "sem_value (sem s) + woken (sem_waiters (sem s)) + length (holders s) = ma \<and>
    (\<forall>c\<in>set (holders s). \<exists>s'. leave c s = Some s' \<and> active s' = active s - 1 \<and>
       slots (sem s') = Suc (slots (sem s)))"
  using adm_reach_inv [OF assms adm_inv_new] adm_reach_frame [OF assms]
  using slots_sem_release [of "sem s"]
  by (auto simp: adm_inv_def slots_def leave_eq)

theorem admission_no_slot_leak_witness:
  "adm_reach (new_admission 2 1 30) [] [] (new_admission 2 1 30) \<and>
     sem_value (sem (new_admission 2 1 30)) + woken (sem_waiters (sem (new_admission 2 1 30)))
       + length (holders (new_admission 2 1 30)) = 2"
  using admission_no_slot_leak [OF adm_reach.start, of 2 1 30] adm_reach.start by auto

text \<open>C18: The queue is first in, first out: in every reachable state the calls granted so far followed
  by the calls still queued are a subsequence of the calls in the order in which they were
  enqueued (what is missing has timed out).\<close>

theorem admission_fifo:
  assumes "adm_reach (new_admission ma mq t) enq gr s"
  shows "subseq (gr @ queue s) enq"
  using assms
proof (induction rule: adm_reach.induct)
  case start
  then show ?case by simp
next
  case (step enq gr s e r s')
  have "subseq (gr @ grants e s @ queue s') (gr @ queue s @ enqueues e r)"
    by (rule list_emb_append_mono [OF subseq_order.refl adm_step_queue [OF step.hyps(2)]])
  moreover have "subseq ((gr @ queue s) @ enqueues e r) (enq @ enqueues e r)"
    using step.IH by (rule list_emb_append_mono) simp
  ultimately show ?case
    by (metis append.assoc subseq_order.trans)
qed

theorem admission_fifo_witness:
  "\<exists>s enq gr. adm_reach (new_admission 1 4 30) enq gr s \<and> queue s = [1, 2] \<and>
     subseq (gr @ queue s) enq"
proof -
  obtain s where run: "adm_run (new_admission 1 4 30) [Arrive 0 0, Arrive 1 0, Arrive 2 0] = Some s"
    and q: "queue s = [1, 2]"
    by (simp add: new_admission_def known_def acquire_def sem_locked_def take_slot_def
        sem_acquire_def)
  obtain enq gr where reach: "adm_reach (new_admission 1 4 30) enq gr s"
    using adm_run_reach [OF run adm_reach.start] by blast
  from admission_fifo [OF reach] reach q show ?thesis by blast
qed

text \<open>A new call of \<open>acquire\<close> enters at once exactly when a slot is free and nobody is queued; it
  is refused with 429 \<open>queue_full\<close>, the state unchanged, exactly when it cannot enter and the
  queue is at capacity; else it is appended to the queue.  It never waits without a timeout.\<close>

lemma acquire_decision:
  "(fst (acquire c now s) = Entered \<longleftrightarrow> \<not> sem_locked (sem s) \<and> queue s = []) \<and>
   (fst (acquire c now s) = SuspendedInQueue \<longleftrightarrow>
      (sem_locked (sem s) \<or> queue s \<noteq> []) \<and> length (queue s) < max_queue s) \<and>
   (sem_locked (sem s) \<or> queue s \<noteq> [] \<longrightarrow> max_queue s \<le> length (queue s) \<longrightarrow>
      acquire c now s = (Raised (Syn queue_full_error), s) \<and>
      e_code queue_full_error = ''queue_full'' \<and> e_status queue_full_error = 429) \<and>
   (fst (acquire c now s) = SuspendedInQueue \<longrightarrow>
      queue (snd (acquire c now s)) = queue s @ [c] \<and> sem (snd (acquire c now s)) = sem s) \<and>
   (fst (acquire c now s) = Entered \<longrightarrow>
      sem_value (sem (snd (acquire c now s))) = sem_value (sem s) - 1 \<and>
      holders (snd (acquire c now s)) = holders s @ [c]) \<and>
   fst (acquire c now s) \<noteq> SuspendedInSem"
  by (auto simp: acquire_def take_slot_def sem_acquire_def queue_full_error_def)

lemma acquire_decision_witness:
  "fst (acquire 0 0 (new_admission 1 0 30)) = Entered \<and>
   fst (acquire 1 0 (snd (acquire 0 0 (new_admission 1 0 30)))) = Raised (Syn queue_full_error)"
  using acquire_decision [of 0 0 "new_admission 1 0 30"]
    acquire_decision [of 1 0 "snd (acquire 0 0 (new_admission 1 0 30))"]
  by (simp add: new_admission_def acquire_def take_slot_def sem_acquire_def sem_locked_def)

end
