(* ===== verification/Admission_Liveness.thy ===== *)
theory Admission_Liveness
  imports Admission_Safety
begin

text \<open>
  Who keeps the admission queue moving: progress while no waiting call is cancelled and no
  granted call times out; and what a cancellation in the queue or an early arrival does.
\<close>

section \<open>Progress without cancellations\<close>

definition benign :: "adm_event \<Rightarrow> admission \<Rightarrow> bool" where
  \<comment> \<open>no cancellation of a suspended call, no timeout of a call whose entry is already granted\<close>
  "benign e s =
     (case e of CancelWait _ \<Rightarrow> False | CancelSem _ \<Rightarrow> False | Timeout c \<Rightarrow> c \<in> set (queue s) | _ \<Rightarrow> True)"

inductive benign_reach :: "admission \<Rightarrow> admission \<Rightarrow> bool" for s0 :: admission where
  benign_start: "benign_reach s0 s0"
| benign_next: "benign_reach s0 s \<Longrightarrow> adm_step s e r s' \<Longrightarrow> benign e s \<Longrightarrow> benign_reach s0 s'"

definition mover :: "admission \<Rightarrow> bool" where
  \<comment> \<open>some call will release a slot, or take one and release it later\<close>
  "mover s \<longleftrightarrow>
     holders s \<noteq> [] \<or> (\<exists>q\<in>set (waiting s). q_granted q) \<or> woken (sem_waiters (sem s)) > 0"

definition live :: "admission \<Rightarrow> bool" where
  "live s \<longleftrightarrow> set (queue s) \<subseteq> set (w_cids (waiting s)) \<and> (queue s \<noteq> [] \<longrightarrow> mover s)"

lemma locked_mover:
  assumes "adm_inv s" "max_active s > 0" "sem_locked (sem s)"
  shows "mover s"
proof (cases "sem_value (sem s) = 0")
  case True
  with assms show ?thesis by (auto simp: mover_def adm_inv_def slots_def)
next
  case False
  with assms show ?thesis by (auto simp: mover_def adm_inv_def no_idle_waiter_def sem_locked_def)
qed

lemma take_slot_mover:
  assumes "adm_inv s" "max_active s > 0" "take_slot c s = (r, s')"
  shows "mover s'"
proof (cases "sem_locked (sem s)")
  case True
  then have "mover s" by (rule locked_mover [OF assms(1,2)])
  with True assms(3) show ?thesis by (auto simp: take_slot_def sem_acquire_def mover_def)
next
  case False
  with assms(3) show ?thesis by (auto simp: take_slot_def sem_acquire_def mover_def)
qed

lemma live_arrive:
  assumes "adm_inv s" "max_active s > 0" "live s" "acquire c t s = (r, s')"
  shows "live s'"
  using assms locked_mover [OF assms(1,2)] take_slot_mover [OF assms(1,2), of c r s']
  by (auto simp: acquire_def live_def mover_def dest: take_slot_frame split: if_splits)

lemma live_resume:
  assumes "adm_inv s" "max_active s > 0" "live s" "q \<in> set (waiting s)" "q_granted q"
    "resume_queued q s = (r, s')"
  shows "live s'"
proof -
  let ?t = "drop_waiting (q_cid q) s"
  have slot: "take_slot (q_cid q) ?t = (r, s')"
    using assms(5,6) by (simp add: resume_queued_def Let_def)
  have "mover s'"
    by (rule take_slot_mover [OF drop_waiting_inv [OF assms(1)] _ slot])
      (simp add: drop_waiting_def assms(2))
  moreover have "q_cid q \<notin> set (queue s)"
    using assms(1,4,5) by (simp add: adm_inv_def)
  ultimately show ?thesis
    using assms(3) take_slot_frame [OF slot] by (auto simp: live_def drop_waiting_def)
qed

lemma live_timeout:
  assumes "adm_inv s" "live s" "q \<in> set (waiting s)" "q_cid q \<in> set (queue s)"
    "timeout_queued (q_cid q) s = (r, s')"
  shows "live s'"
proof -
  have "\<not> q_granted q" using assms(1,3,4) by (simp add: adm_inv_def)
  then have "mover s \<Longrightarrow> mover s'"
    using assms(3,5) q_cid_inj [OF assms(1) assms(3)]
    by (auto simp: mover_def timeout_queued_def drop_waiting_def remove_queued_entry_def) metis
  moreover have "distinct (queue s)" using assms(1) by (simp add: adm_inv_def)
  ultimately show ?thesis
    using assms(2,4,5)
    by (auto simp: live_def timeout_queued_def drop_waiting_def remove_queued_entry_def)
qed

lemma live_leave:
  assumes "adm_inv s" "live s" "leave c s = Some s'"
  shows "live s'"
proof (cases "queue s")
  case Nil
  with leave_frame [OF assms(3)] show ?thesis by (simp add: live_def)
next
  case (Cons d ds)
  have "set (w_cids (waiting s')) = set (w_cids (waiting s))"
    using assms(3) Cons by (auto simp: leave_eq split: if_splits)
  moreover obtain q where "q \<in> set (waiting s)" "q_cid q = d"
    using assms(2) Cons by (auto simp: live_def w_cids_def)
  then have "q\<lparr>q_granted := True\<rparr> \<in> set (grant_entry d (waiting s))"
    by (force simp: grant_entry_def)
  then have "\<exists>q\<in>set (waiting s'). q_granted q"
    using assms(3) Cons by (intro bexI) (auto simp: leave_eq split: if_splits)
  ultimately show ?thesis
    using assms(2) Cons leave_frame [OF assms(3)] by (auto simp: live_def mover_def)
qed

lemma live_step:
  assumes "adm_step s e r s'" "adm_inv s" "max_active s > 0" "live s" "benign e s"
  shows "live s'"
  using assms
proof (induction rule: adm_step.induct)
  case (arrive c s t r s')
  then show ?case using live_arrive by blast
next
  case (resume q s r s')
  then show ?case using live_resume by blast
next
  case (timeout q s r s')
  then show ?case using live_timeout by (auto simp: benign_def)
next
  case (resume_sem c s r s')
  then show ?case by (auto simp: resume_sem_def live_def mover_def)
next
  case (leave c s s')
  then show ?case using live_leave by blast
qed (simp_all add: benign_def)

lemma benign_reach_live:
  assumes "benign_reach (new_admission ma mq t) s" "ma > 0"
  shows "adm_inv s \<and> max_active s = ma \<and> live s"
  using assms
proof (induction rule: benign_reach.induct)
  case benign_start
  then show ?case by (simp add: adm_inv_new live_def)
next
  case (benign_next s e r s')
  then show ?case
    using adm_step_inv [OF benign_next.hyps(2)] adm_step_frame [OF benign_next.hyps(2)] live_step
    by auto
qed

text \<open>C19: As long as no suspended call is cancelled and no granted call times out, the queue never
  gets stuck: whenever a call is queued, every queued call is still waiting for its grant and some
  call inside leaves, or some granted or woken call can take its slot.\<close>

theorem queue_progress:
  assumes "benign_reach (new_admission ma mq t) s" "ma > 0" "queue s \<noteq> []"
  shows "(\<forall>c\<in>set (queue s). \<exists>q\<in>set (waiting s). q_cid q = c) \<and>
    (\<exists>e r s'. adm_step s e r s' \<and> (\<exists>c. e = Leave c \<or> e = Resume c \<or> e = ResumeSem c))"
proof -
  have inv: "adm_inv s" and live: "live s"
    using benign_reach_live [OF assms(1,2)] by auto
  have "mover s" using live assms(3) by (simp add: live_def)
  then consider c where "c \<in> set (holders s)" | q where "q \<in> set (waiting s)" "q_granted q"
    | c where "(c, True) \<in> set (sem_waiters (sem s))"
    by (auto simp: mover_def woken_def filter_empty_conv) (meson list.set_sel(1))
  then have "\<exists>e r s'. adm_step s e r s' \<and> (\<exists>c. e = Leave c \<or> e = Resume c \<or> e = ResumeSem c)"
  proof cases
    case 1
    then show ?thesis using leave_total [OF inv] by (blast intro: adm_step.leave)
  next
    case 2
    then show ?thesis by (metis adm_step.resume surj_pair)
  next
    case 3
    then show ?thesis by (metis adm_step.resume_sem surj_pair)
  qed
  then show ?thesis using live by (auto simp: live_def w_cids_def)
qed

section \<open>A cancelled call in the queue\<close>

definition dead_queue :: "admission \<Rightarrow> bool" where
  \<comment> \<open>an entry whose call is gone is queued, and nobody is left who would release a slot\<close>
  "dead_queue s \<longleftrightarrow>
     (\<exists>c\<in>set (queue s). c \<notin> set (w_cids (waiting s))) \<and> holders s = [] \<and>
     sem_waiters (sem s) = [] \<and> (\<forall>q\<in>set (waiting s). \<not> q_granted q)"

lemma dead_queue_step:
  assumes "adm_step s e r s'" "dead_queue s"
  shows "dead_queue s' \<and> r \<noteq> Some Entered"
  using assms
proof (induction rule: adm_step.induct)
  case (arrive c s t r s')
  then have "queue s \<noteq> []" "c \<notin> set (queue s)" by (auto simp: dead_queue_def known_def)
  with arrive show ?case by (auto simp: acquire_def dead_queue_def split: if_splits)
next
  case (timeout q s r s')
  then obtain c where "c \<in> set (queue s)" "c \<notin> set (w_cids (waiting s))" "c \<noteq> q_cid q"
    by (auto simp: dead_queue_def dest: w_cids_mem)
  then have "c \<in> set (remove1 (q_cid q) (queue s))" by simp
  with timeout \<open>c \<notin> set (w_cids (waiting s))\<close> show ?case
    by (auto simp: timeout_queued_def drop_waiting_def remove_queued_entry_def dead_queue_def)
next
  case (cancel_wait q s r s')
  then show ?case by (auto simp: cancel_queued_def drop_waiting_def dead_queue_def)
qed (auto simp: dead_queue_def)

text \<open>A state in which an abandoned entry is queued and no call is inside or about to enter is
  final for the gateway: whatever happens afterwards, no call is ever admitted again.  Such
  states are reachable (see the witness): with one slot, two clients that disconnect while they
  are queued leave one dead entry behind the other.\<close>

lemma cancelled_waiter_blocks_forever:
  assumes "adm_reach s enq gr s'" "dead_queue s"
  shows "dead_queue s' \<and> holders s' = [] \<and>
    (\<forall>c t. \<not> known c s' \<longrightarrow> fst (acquire c t s') \<noteq> Entered)"
proof -
  have "dead_queue s'"
    using assms by (induction rule: adm_reach.induct) (auto dest: dead_queue_step)
  then show ?thesis by (auto simp: dead_queue_def acquire_def take_slot_def)
qed

lemma cancelled_waiter_blocks_forever_witness:
  "\<exists>s. adm_run (new_admission 1 8 30)
         [Arrive 0 0, Arrive 1 0, Arrive 2 0, CancelWait 1, CancelWait 2, Leave 0] = Some s \<and>
     sem_value (sem s) = 1 \<and> dead_queue s \<and> fst (acquire 3 0 s) \<noteq> Entered"
proof -
  obtain s where run: "adm_run (new_admission 1 8 30)
         [Arrive 0 0, Arrive 1 0, Arrive 2 0, CancelWait 1, CancelWait 2, Leave 0] = Some s"
    and free: "sem_value (sem s) = 1" and dead: "dead_queue s" and new: "\<not> known 3 s"
    by (simp add: new_admission_def known_def acquire_def sem_locked_def take_slot_def
        sem_acquire_def cancel_queued_def drop_waiting_def find_entry_def leave_def release_def
        Let_def sem_release_def wake_up_next_def dead_queue_def grant_entry_def)
  from cancelled_waiter_blocks_forever [OF adm_reach.start dead] run free dead new
  show ?thesis by blast
qed

section \<open>An arrival between the grant and the resumption\<close>

text \<open>A granted call can be overtaken: after the only active call leaves and grants the only
  queued entry, a call that arrives before the granted one resumes takes the slot, and the
  granted call then waits inside the semaphore, where the queue timeout no longer applies.\<close>

lemma granted_call_overtaken:
  assumes inv: "adm_inv s" and one: "holders s = [h]" "queue s = [c]" "waiting s = [q]" "q_cid q = c"
    and sem: "sem_value (sem s) = 0" "sem_waiters (sem s) = []"
    and leave: "leave h s = Some s1" and new: "\<not> known d s1"
  shows "fst (acquire d t s1) = Entered \<and>
    (\<exists>s3. adm_step (snd (acquire d t s1)) (Resume c) (Some SuspendedInSem) s3 \<and> waiting s3 = [] \<and>
       sem_waiters (sem s3) = [(c, False)] \<and> holders s3 = [d] \<and> max_active s3 = max_active s)"
proof -
  have act: "active s = 1" using inv one by (simp add: adm_inv_def)
  have s1: "s1 = s\<lparr>active := 0, queue := [], waiting := [q\<lparr>q_granted := True\<rparr>],
      sem := (sem s)\<lparr>sem_value := 1\<rparr>, holders := []\<rparr>"
    using leave one sem act
    by (simp add: leave_eq grant_entry_def sem_release_def wake_up_next_def)
  let ?s2 = "snd (acquire d t s1)" and ?q = "q\<lparr>q_granted := True\<rparr>"
  have enter: "acquire d t s1 = (Entered, ?s2)" and
    s2: "waiting ?s2 = [?q]" "sem_value (sem ?s2) = 0" "sem_waiters (sem ?s2) = []"
      "holders ?s2 = [d]" "max_active ?s2 = max_active s"
    using sem by (simp_all add: s1 acquire_def sem_locked_def take_slot_def sem_acquire_def)
  obtain s3 where "resume_queued ?q ?s2 = (SuspendedInSem, s3)" and
    "waiting s3 = []" "sem_waiters (sem s3) = [(c, False)]" "holders s3 = [d]"
    "max_active s3 = max_active s"
    using s2 one(4)
    by (simp add: resume_queued_def Let_def drop_waiting_def take_slot_def sem_acquire_def
        sem_locked_def)
  moreover from this(1) have "adm_step ?s2 (Resume (q_cid ?q)) (Some SuspendedInSem) s3"
    using s2(1) by (intro adm_step.resume) auto
  moreover have "fst (acquire d t s1) = Entered" by (subst enter) simp
  ultimately show ?thesis using one(4) by auto
qed

lemma granted_call_overtaken_witness:
  "\<exists>s s1. adm_run (new_admission 1 8 30) [Arrive 0 0, Arrive 1 0] = Some s \<and>
     leave 0 s = Some s1 \<and> fst (acquire 2 0 s1) = Entered"
proof -
  let ?s0 = "new_admission 1 8 30"
  let ?q = "\<lparr>q_cid = 1, q_granted = False, q_enqueued_at = 0\<rparr>"
  obtain s where run: "adm_run ?s0 [Arrive 0 0, Arrive 1 0] = Some s" and
    h: "holders s = [0]" "queue s = [1]" "waiting s = [?q]" "q_cid ?q = 1"
    "sem_value (sem s) = 0" "sem_waiters (sem s) = []"
    by (simp add: new_admission_def known_def acquire_def sem_locked_def take_slot_def
        sem_acquire_def)
  have inv: "adm_inv s"
    using adm_run_reach [OF run adm_reach.start] adm_reach_inv [OF _ adm_inv_new] by blast
  obtain s1 where s1: "leave 0 s = Some s1" using leave_total [OF inv, of 0] h by auto
  then have "\<not> known 2 s1"
    using h by (auto simp: known_iff leave_eq parked_def sem_cids_def grant_entry_def w_cids_def
        sem_release_def wake_up_next_def split: if_splits)
  from granted_call_overtaken [OF inv h s1 this] run s1 show ?thesis by blast
qed

theorem queue_progress_witness:
  "\<exists>s. benign_reach (new_admission 1 8 30) s \<and> queue s = [1] \<and>
     (\<exists>e r s'. adm_step s e r s')"
proof -
  let ?s0 = "new_admission 1 8 30"
  let ?s1 = "snd (acquire 0 0 ?s0)" and ?s2 = "snd (acquire 1 0 (snd (acquire 0 0 ?s0)))"
  have "adm_step ?s0 (Arrive 0 0) (Some (fst (acquire 0 0 ?s0))) ?s1"
    by (rule adm_step.arrive) (simp_all add: known_def new_admission_def)
  then have "benign_reach ?s0 ?s1"
    by (rule benign_next [OF benign_start]) (simp add: benign_def)
  moreover have "adm_step ?s1 (Arrive 1 0) (Some (fst (acquire 1 0 ?s1))) ?s2"
    by (rule adm_step.arrive)
      (simp_all add: known_def new_admission_def acquire_def sem_locked_def take_slot_def
        sem_acquire_def)
  ultimately have reach: "benign_reach ?s0 ?s2"
    by (rule benign_next) (simp add: benign_def)
  have q: "queue ?s2 = [1]"
    by (simp add: new_admission_def acquire_def sem_locked_def take_slot_def sem_acquire_def)
  from queue_progress [OF reach] reach q show ?thesis by auto
qed

end
