(* ===== verification/RateLimit.thy ===== *)
theory RateLimit
  imports Prelude
begin

text \<open>
  The fixed-window rate limiter of \<open>app/core/rate_limit.py\<close>.  The dictionary
  \<open>key -> (window_start, count)\<close> is kept as it is; the clock reading is an argument of every
  operation.  Readings of \<open>time.monotonic\<close> are exact rationals: the window start is an integral
  multiple of the window length, so the float subtraction that computes it is exact.  No method
  suspends while it holds the lock, so each is one atomic operation.
\<close>

section \<open>The limiter\<close>

record rl_result =
  rl_allowed :: bool
  rl_remaining :: int
  rl_retry_after :: int

record rate_limiter =
  window_seconds :: int
  windows :: "(string \<times> (time \<times> int)) list"

definition new_limiter :: "int \<Rightarrow> rate_limiter" where
  "new_limiter w = \<lparr> window_seconds = w, windows = [] \<rparr>"

definition py_fmod :: "time \<Rightarrow> int \<Rightarrow> time" where
  \<comment> \<open>\<open>now % w\<close>\<close>
  "py_fmod now w = now - of_int w * of_int \<lfloor>now / of_int w\<rfloor>"

definition window_start :: "time \<Rightarrow> int \<Rightarrow> time" where
  "window_start now w = now - py_fmod now w"

definition window_key :: "string \<Rightarrow> time \<Rightarrow> int \<Rightarrow> time \<times> int" where
  "window_key key now w = (window_start now w, 0)"

definition py_trunc :: "rat \<Rightarrow> int" where
  \<comment> \<open>\<open>int(x)\<close> of a float\<close>
  "py_trunc x = (if x < 0 then \<lceil>x\<rceil> else \<lfloor>x\<rfloor>)"

definition check :: "string \<Rightarrow> int \<Rightarrow> time \<Rightarrow> rate_limiter \<Rightarrow> rl_result \<times> rate_limiter" where
  "check key limit now r =
     (if limit \<le> 0 then (\<lparr> rl_allowed = True, rl_remaining = -1, rl_retry_after = 0 \<rparr>, r)
      else
        let ws = window_start now (window_seconds r);
            fresh = (\<lparr> rl_allowed = True, rl_remaining = limit - 1, rl_retry_after = 0 \<rparr>,
                     r\<lparr> windows := dict_set key (ws, 1) (windows r) \<rparr>)
        in (case map_of (windows r) key of
              None \<Rightarrow> fresh
            | Some (start, count) \<Rightarrow>
                if start \<noteq> ws then fresh
                else if count \<ge> limit then
                  (let retry = py_trunc (ws + of_int (window_seconds r) - now);
                       retry = (if retry < 1 then 1 else retry)
                   in (\<lparr> rl_allowed = False, rl_remaining = 0, rl_retry_after = retry \<rparr>, r))
                else (\<lparr> rl_allowed = True, rl_remaining = limit - count - 1, rl_retry_after = 0 \<rparr>,
                      r\<lparr> windows := dict_set key (ws, count + 1) (windows r) \<rparr>)))"

definition reset :: "rate_limiter \<Rightarrow> rate_limiter" where
  "reset r = r\<lparr> windows := [] \<rparr>"

definition current_count :: "string \<Rightarrow> time \<Rightarrow> rate_limiter \<Rightarrow> int" where
  "current_count key now r =
     (case map_of (windows r) key of
        None \<Rightarrow> 0
      | Some (start, count) \<Rightarrow> if start \<noteq> window_start now (window_seconds r) then 0 else count)"

section \<open>Windows of time\<close>

lemma window_start_eq: "window_start t w = of_int (w * \<lfloor>t / of_int w\<rfloor>)"
  by (simp add: window_start_def py_fmod_def)

lemma window_start_bounds:
  assumes "w > 0"
  shows "window_start t w \<le> t" "t < window_start t w + of_int w"
proof -
  have "of_int \<lfloor>t / of_int w\<rfloor> \<le> t / of_int w" "t / of_int w < of_int \<lfloor>t / of_int w\<rfloor> + 1"
    by linarith+
  with assms show "window_start t w \<le> t" "t < window_start t w + of_int w"
    by (simp_all add: window_start_eq le_divide_eq divide_less_eq algebra_simps)
qed

lemma window_start_mono:
  assumes "w > 0" "t \<le> t'"
  shows "window_start t w \<le> window_start t' w"
proof -
  have "\<lfloor>t / of_int w\<rfloor> \<le> \<lfloor>t' / of_int w\<rfloor>"
    using assms by (intro floor_mono divide_right_mono) auto
  with assms show ?thesis by (simp add: window_start_eq)
qed

section \<open>A run of checks against the log of admitted requests\<close>

text \<open>A request is a key, the limit it is checked under and the time of the check.\<close>

type_synonym rl_call = "string \<times> int \<times> time"

fun rl_run :: "rate_limiter \<Rightarrow> rl_call list \<Rightarrow> (rl_call \<times> bool) list \<times> rate_limiter" where
  "rl_run r [] = ([], r)"
| "rl_run r ((k, l, t) # cs) =
     (let (res, r') = check k l t r; (lg, r'') = rl_run r' cs
      in (((k, l, t), rl_allowed res) # lg, r''))"

definition admitted :: "int \<Rightarrow> string \<Rightarrow> time \<Rightarrow> (rl_call \<times> bool) list \<Rightarrow> nat" where
  \<comment> \<open>limited requests of a key admitted in the window that starts at \<open>ws\<close>\<close>
  "admitted w k ws lg =
     length (filter (\<lambda>((k', l, t), ok). ok \<and> l > 0 \<and> k' = k \<and> window_start t w = ws) lg)"

lemma admitted_simps [simp]:
  "admitted w k ws [] = 0"
  "admitted w k ws (lg @ lg') = admitted w k ws lg + admitted w k ws lg'"
  "admitted w k ws (((k', l, t), ok) # lg) =
     (if ok \<and> l > 0 \<and> k' = k \<and> window_start t w = ws then 1 else 0) + admitted w k ws lg"
  by (simp_all add: admitted_def)

definition agrees :: "int \<Rightarrow> string \<Rightarrow> (time \<times> int) option \<Rightarrow> (rl_call \<times> bool) list \<Rightarrow> time \<Rightarrow> bool" where
  \<comment> \<open>a key's entry agrees with the log of everything up to \<open>now\<close>\<close>
  "agrees w k e lg now \<longleftrightarrow>
     (case e of
        None \<Rightarrow> \<forall>ws. admitted w k ws lg = 0
      | Some (start, count) \<Rightarrow>
          start \<le> window_start now w \<and> int (admitted w k start lg) = count \<and>
          (\<forall>ws > start. admitted w k ws lg = 0))"

lemma agrees_simps:
  "agrees w k None lg now \<longleftrightarrow> (\<forall>ws. admitted w k ws lg = 0)"
  "agrees w k (Some (start, count)) lg now \<longleftrightarrow>
     start \<le> window_start now w \<and> int (admitted w k start lg) = count \<and>
     (\<forall>ws > start. admitted w k ws lg = 0)"
  by (simp_all add: agrees_def)

definition rl_consistent :: "rate_limiter \<Rightarrow> (rl_call \<times> bool) list \<Rightarrow> time \<Rightarrow> bool" where
  "rl_consistent r lg now \<longleftrightarrow>
     window_seconds r > 0 \<and>
     (\<forall>k. agrees (window_seconds r) k (map_of (windows r) k) lg now)"

lemma rl_consistent_new: "w > 0 \<Longrightarrow> rl_consistent (new_limiter w) [] t"
  by (simp add: rl_consistent_def new_limiter_def agrees_simps)

lemma agrees_later:
  assumes "agrees w k e lg now" "now \<le> now'" "w > 0"
  shows "agrees w k e lg now'"
proof (cases e)
  case (Some p)
  with assms window_start_mono [OF assms(3,2)] show ?thesis
    by (cases p) (simp add: agrees_simps)
qed (use assms in \<open>simp add: agrees_simps\<close>)

lemma rl_consistent_later:
  "rl_consistent r lg now \<Longrightarrow> now \<le> now' \<Longrightarrow> rl_consistent r lg now'"
  by (auto simp: rl_consistent_def intro: agrees_later)

lemma rl_consistent_agrees:
  "rl_consistent r lg now \<Longrightarrow> agrees (window_seconds r) k (map_of (windows r) k) lg now"
  by (simp add: rl_consistent_def)

lemma rl_consistent_count:
  assumes "rl_consistent r lg now"
  shows "int (admitted (window_seconds r) k (window_start now (window_seconds r)) lg)
    = current_count k now r"
proof (cases "map_of (windows r) k")
  case None
  then show ?thesis
    using rl_consistent_agrees [OF assms, of k] by (simp add: agrees_simps current_count_def)
next
  case (Some p)
  then show ?thesis
    using rl_consistent_agrees [OF assms, of k]
    by (cases p) (auto simp: agrees_simps current_count_def)
qed

lemma rl_consistent_beyond:
  assumes "rl_consistent r lg now" "ws > window_start now (window_seconds r)"
  shows "admitted (window_seconds r) k ws lg = 0"
proof (cases "map_of (windows r) k")
  case None
  then show ?thesis
    using rl_consistent_agrees [OF assms(1), of k] by (simp add: agrees_simps)
next
  case (Some p)
  then show ?thesis
    using rl_consistent_agrees [OF assms(1), of k] assms(2)
    by (cases p) (auto simp: agrees_simps)
qed

lemma check_allowed:
  assumes "l > 0"
  shows "rl_allowed (fst (check k l now r)) \<longleftrightarrow> current_count k now r < l"
  using assms by (auto simp: check_def current_count_def Let_def split: option.splits)

lemma window_seconds_check [simp]: "window_seconds (snd (check k l now r)) = window_seconds r"
  by (auto simp: check_def Let_def split: option.splits)

lemma check_refused:
  assumes "\<not> (l > 0 \<and> current_count k now r < l)"
  shows "snd (check k l now r) = r"
  using assms by (auto simp: check_def current_count_def Let_def split: option.splits)

lemma check_admitted:
  assumes "l > 0" "current_count k now r < l"
  shows "snd (check k l now r) = r\<lparr> windows := dict_set k
    (window_start now (window_seconds r), current_count k now r + 1) (windows r) \<rparr>"
  using assms by (auto simp: check_def current_count_def Let_def split: option.splits)

lemma agrees_cong:
  "(\<And>ws. admitted w k ws lg = admitted w k ws lg') \<Longrightarrow> agrees w k e lg now = agrees w k e lg' now"
  by (cases e) (auto simp: agrees_def)

lemma rl_consistent_check:
  assumes con: "rl_consistent r lg now"
  shows "rl_consistent (snd (check k l now r)) (lg @ [((k, l, now), rl_allowed (fst (check k l now r)))]) now"
proof (cases "l > 0 \<and> current_count k now r < l")
  case False
  then have "l > 0 \<Longrightarrow> \<not> rl_allowed (fst (check k l now r))"
    using check_allowed [of l k now r] by simp
  then have "agrees w k' e (lg @ [((k, l, now), rl_allowed (fst (check k l now r)))]) now
      = agrees w k' e lg now" for w k' e
    by (intro agrees_cong) auto
  with con check_refused [OF False] show ?thesis by (simp add: rl_consistent_def)
next
  case True
  let ?w = "window_seconds r" and ?ws = "window_start now (window_seconds r)"
  let ?lg = "lg @ [((k, l, now), True)]"
  have ok: "rl_allowed (fst (check k l now r))"
    using True check_allowed by simp
  have "agrees ?w k' (map_of (dict_set k (?ws, current_count k now r + 1) (windows r)) k') ?lg now"
    for k'
  proof (cases "k' = k")
    case eq: True
    then show ?thesis
      using True rl_consistent_count [OF con, of k] rl_consistent_beyond [OF con]
      by (auto simp: agrees_simps)
  next
    case False
    then have "agrees ?w k' e ?lg now = agrees ?w k' e lg now" for e
      by (intro agrees_cong) auto
    with False rl_consistent_agrees [OF con, of k'] show ?thesis by simp
  qed
  with con True ok show ?thesis
    by (simp add: rl_consistent_def check_admitted)
qed

lemma rl_run_consistent:
  assumes "rl_consistent r lg now" "sorted (map (\<lambda>(k, l, t). t) cs)"
    "\<forall>(k, l, t)\<in>set cs. now \<le> t \<and> t \<le> now'" "now \<le> now'"
  shows "rl_consistent (snd (rl_run r cs)) (lg @ fst (rl_run r cs)) now'"
  using assms
proof (induction cs arbitrary: r lg now)
  case Nil
  then show ?case using rl_consistent_later by auto
next
  case (Cons c cs)
  obtain k l t where c: "c = (k, l, t)" by (cases c)
  let ?r = "snd (check k l t r)" and ?lg = "lg @ [((k, l, t), rl_allowed (fst (check k l t r)))]"
  have "rl_consistent ?r ?lg t"
    using Cons.prems c rl_consistent_later rl_consistent_check by auto
  then have "rl_consistent (snd (rl_run ?r cs)) (?lg @ fst (rl_run ?r cs)) now'"
    by (rule Cons.IH) (use Cons.prems c in auto)
  then show ?case by (simp add: c split_beta Let_def)
qed

lemma window_seconds_run [simp]: "window_seconds (snd (rl_run r cs)) = window_seconds r"
  by (induction cs arbitrary: r) (auto simp: split_beta Let_def)

lemma rl_run_snoc:
  "fst (rl_run r (cs @ [(k, l, t)])) =
     fst (rl_run r cs) @ [((k, l, t), rl_allowed (fst (check k l t (snd (rl_run r cs)))))]"
  by (induction cs arbitrary: r) (auto simp: split_beta Let_def)

lemma check_exact:
  assumes "w > 0" "sorted (map (\<lambda>(k, l, t). t) (cs @ [(k, l, t)]))" "l > 0"
  shows "rl_allowed (fst (check k l t (snd (rl_run (new_limiter w) cs)))) \<longleftrightarrow>
    int (admitted w k (window_start t w) (fst (rl_run (new_limiter w) cs))) < l"
proof -
  let ?r = "snd (rl_run (new_limiter w) cs)" and ?lg = "fst (rl_run (new_limiter w) cs)"
  have bounds: "\<forall>(k', l', t')\<in>set cs. t' \<le> t"
    using assms(2) by (auto simp: sorted_append)
  have "rl_consistent ?r ([] @ ?lg) t"
  proof (cases cs)
    case Nil
    then show ?thesis using rl_consistent_new [OF assms(1)] by simp
  next
    case (Cons c cs')
    then show ?thesis
      using assms(2) bounds
      by (intro rl_run_consistent [where now = "snd (snd c)"] rl_consistent_new assms(1))
        (auto simp: sorted_append split: prod.splits)
  qed
  then have "int (admitted (window_seconds ?r) k (window_start t (window_seconds ?r)) ?lg)
      = current_count k t ?r"
    by (intro rl_consistent_count) simp
  then show ?thesis
    using check_allowed [OF assms(3)] by (simp add: new_limiter_def)
qed

lemma floor_61: "\<lfloor>61 / 60 :: rat\<rfloor> = 1"
  by (simp add: floor_eq_iff)

lemma floor_59: "\<lfloor>59 / 60 :: rat\<rfloor> = 0"
  by (simp add: floor_eq_iff)

section \<open>Properties\<close>

text \<open>C16: The limiter decides exactly as the specification does: after any run of checks at
  non-decreasing times from an empty limiter, a request with limit \<open>l > 0\<close> is admitted if and
  only if fewer than \<open>l\<close> limited requests of its key were admitted in the current window.\<close>

theorem rate_limit_exact:
  assumes "w > 0" "sorted (map (\<lambda>(k, l, t). t) (cs @ [(k, l, t)]))" "l > 0"
  shows "rl_allowed (fst (check k l t (snd (rl_run (new_limiter w) cs)))) \<longleftrightarrow>
    int (admitted w k (window_start t w) (fst (rl_run (new_limiter w) cs))) < l"
  using assms by (rule check_exact)

theorem rate_limit_exact_witness:
  "rl_allowed (fst (check ''k'' 1 61 (snd (rl_run (new_limiter 60) [(''k'', 1, 0)])))) \<and>
   \<not> rl_allowed (fst (check ''k'' 1 59 (snd (rl_run (new_limiter 60) [(''k'', 1, 0)]))))"
  using rate_limit_exact [of 60 "[(''k'', 1, 0)]" "''k''" 1 61]
    rate_limit_exact [of 60 "[(''k'', 1, 0)]" "''k''" 1 59]
  by (simp add: check_def new_limiter_def window_start_eq floor_61 floor_59 Let_def)

text \<open>In a run of checks of a key under limits of at most \<open>L\<close>, at non-decreasing times, at most
  \<open>L\<close> requests of the key are admitted in any one window.\<close>

lemma rate_limit_window_bound:
  assumes "w > 0" "sorted (map (\<lambda>(k, l, t). t) cs)" "\<forall>(k', l, t)\<in>set cs. k' = k \<longrightarrow> l \<le> int L"
  shows "admitted w k ws (fst (rl_run (new_limiter w) cs)) \<le> L"
  using assms(2,3)
proof (induction cs rule: rev_induct)
  case Nil
  then show ?case by simp
next
  case (snoc c cs)
  obtain k' l t where c: "c = (k', l, t)" by (cases c)
  have IH: "admitted w k ws (fst (rl_run (new_limiter w) cs)) \<le> L"
    using snoc by (auto simp: sorted_append)
  show ?case
  proof (cases "k' = k \<and> l > 0 \<and> window_start t w = ws")
    case True
    have "rl_allowed (fst (check k' l t (snd (rl_run (new_limiter w) cs)))) \<longleftrightarrow>
        int (admitted w k' (window_start t w) (fst (rl_run (new_limiter w) cs))) < l"
      using True by (intro check_exact [OF assms(1)] snoc.prems(1) [unfolded c]) auto
    moreover have "l \<le> int L" using snoc.prems(2) c True by auto
    ultimately show ?thesis using IH True by (auto simp: rl_run_snoc c)
  next
    case False
    with IH show ?thesis by (auto simp: rl_run_snoc c)
  qed
qed

lemma rate_limit_window_bound_witness:
  "admitted 60 ''k'' 0 (fst (rl_run (new_limiter 60) [(''k'', 1, 0), (''k'', 1, 1)])) \<le> 1"
  using rate_limit_window_bound [of 60 "[(''k'', 1, 0), (''k'', 1, 1)]" "''k''" 1 0] by simp

text \<open>The answer of a check is well formed: an admitted limited request has between 0 and
  \<open>limit - 1\<close> requests left, a refused one has none and is told to retry after at least one second
  and at most the window's length, and an unlimited request (limit 0 or less) is always admitted
  and leaves the state alone.\<close>

lemma check_result_bounds:
  assumes "window_seconds r \<ge> 1" "\<forall>(start, count)\<in>snd ` set (windows r). count \<ge> 0"
    "check k l t r = (res, r')"
  shows "if l \<le> 0 then rl_allowed res \<and> rl_remaining res = -1 \<and> r' = r
    else if rl_allowed res then
      0 \<le> rl_remaining res \<and> rl_remaining res \<le> l - 1 \<and> rl_retry_after res = 0
    else rl_remaining res = 0 \<and> 1 \<le> rl_retry_after res \<and>
      rl_retry_after res \<le> window_seconds r \<and> r' = r"
proof -
  let ?w = "window_seconds r" and ?ws = "window_start t (window_seconds r)"
  have "?ws \<le> t" "t < ?ws + of_int ?w" using window_start_bounds [of ?w t] assms(1) by auto
  then have "py_trunc (?ws + of_int ?w - t) \<le> ?w"
    by (auto simp: py_trunc_def) linarith
  moreover have "count \<ge> 0" if "map_of (windows r) k = Some (start, count)" for start count
    using assms(2) map_of_SomeD [OF that] by force
  ultimately show ?thesis
    using assms(1,3) by (auto simp: check_def Let_def split: option.splits if_splits)
qed

lemma check_result_bounds_witness:
  "rl_retry_after (fst (check ''k'' 1 59 (new_limiter 60\<lparr>windows := [(''k'', 0, 1)]\<rparr>))) = 1"
  using check_result_bounds [of "new_limiter 60\<lparr>windows := [(''k'', 0, 1)]\<rparr>" "''k''" 1 59]
  by (simp add: check_def new_limiter_def window_start_eq floor_59 Let_def py_trunc_def)

end
