(* ===== verification/ApiKeys.thy ===== *)
theory ApiKeys
  imports Prelude
begin

text \<open>
  API keys, \<open>app/core/api_keys.py\<close>: generation, hashing, verification and the structural check of
  a token.  SHA-256 of the UTF-8 encoding, as a hex digest, is the parameter \<open>h\<close>; the two
  functions of the module \<open>secrets\<close> are the fields of the record \<open>rng\<close>, one record per call.
\<close>

section \<open>The module\<close>

record rng =
  rng_choice :: "nat \<Rightarrow> string \<Rightarrow> char" \<comment> \<open>the n-th \<open>secrets.choice\<close> of the call\<close>
  rng_token_urlsafe :: "nat \<Rightarrow> string"

definition prefix_namespace :: string where
  "prefix_namespace = ''syn_live''"

definition prefix_random_len :: nat where
  "prefix_random_len = 8"

definition secret_random_len :: nat where
  "secret_random_len = 32"

definition visible_prefix_len :: nat where
  "visible_prefix_len = length prefix_namespace + 1 + prefix_random_len"

definition prefix_alphabet :: string where
  \<comment> \<open>\<open>string.ascii_letters + string.digits\<close>\<close>
  "prefix_alphabet =
     ''abcdefghijklmnopqrstuvwxyz'' @ ''ABCDEFGHIJKLMNOPQRSTUVWXYZ'' @ ''0123456789''"

definition urlsafe_alphabet :: string where
  "urlsafe_alphabet = prefix_alphabet @ ''-_''"

definition rng_ok :: "rng \<Rightarrow> bool" where
  \<comment> \<open>what \<open>secrets\<close> documents: a choice is an element; 32 bytes are 43 characters of Base64\<close>
  "rng_ok r \<longleftrightarrow>
     (\<forall>i s. s \<noteq> [] \<longrightarrow> rng_choice r i s \<in> set s) \<and>
     length (rng_token_urlsafe r 32) = 43 \<and>
     set (rng_token_urlsafe r 32) \<subseteq> set urlsafe_alphabet"

definition rand_alnum :: "rng \<Rightarrow> nat \<Rightarrow> string" where
  "rand_alnum r n = map (\<lambda>i. rng_choice r i prefix_alphabet) [0..<n]"

definition hash_api_key :: "(string \<Rightarrow> string) \<Rightarrow> string \<Rightarrow> string" where
  "hash_api_key h token = h token"

definition generate_api_key :: "(string \<Rightarrow> string) \<Rightarrow> rng \<Rightarrow> string \<times> string \<times> string" where
  "generate_api_key h r =
     (let public_part = rand_alnum r prefix_random_len;
          secret_suffix = rng_token_urlsafe r secret_random_len;
          full_token = prefix_namespace @ ''_'' @ public_part @ ''_'' @ secret_suffix;
          key_prefix = take visible_prefix_len full_token;
          key_hash = hash_api_key h full_token
      in (full_token, key_prefix, key_hash))"

definition verify_api_key :: "(string \<Rightarrow> string) \<Rightarrow> string \<Rightarrow> string \<Rightarrow> bool" where
  "verify_api_key h token expected_hash = (hash_api_key h token = expected_hash)"

definition is_valid_format :: "string \<Rightarrow> bool" where
  "is_valid_format token =
     (if token = [] then False
      else
        let parts = split_max 3 (CHR ''_'') token
        in if length parts \<noteq> 4 then False
           else if parts ! 0 \<noteq> ''syn'' \<or> parts ! 1 \<noteq> ''live'' then False
           else if length (parts ! 2) \<noteq> prefix_random_len then False
           else if \<not> list_all (\<lambda>c. c \<in> set prefix_alphabet) (parts ! 2) then False
           else if length (parts ! 3) < 32 then False
           else True)"

definition visible_prefix :: "string \<Rightarrow> string" where
  "visible_prefix token = take visible_prefix_len token"

section \<open>Lemmas\<close>

lemma takeWhile_sep: "c \<notin> set w \<Longrightarrow> takeWhile (\<lambda>x. x \<noteq> c) (w @ c # r) = w"
  by (induction w) auto

lemma dropWhile_sep: "c \<notin> set w \<Longrightarrow> dropWhile (\<lambda>x. x \<noteq> c) (w @ c # r) = c # r"
  by (induction w) auto

lemma alphabet_nonempty: "prefix_alphabet \<noteq> []"
  by (simp add: prefix_alphabet_def)

lemma rand_alnum_set:
  "rng_ok r \<Longrightarrow> set (rand_alnum r n) \<subseteq> set prefix_alphabet"
proof -
  assume "rng_ok r"
  then have "rng_choice r i prefix_alphabet \<in> set prefix_alphabet" for i
    unfolding rng_ok_def using alphabet_nonempty by blast
  then show ?thesis by (auto simp: rand_alnum_def)
qed

lemma length_rand_alnum [simp]: "length (rand_alnum r n) = n"
  by (simp add: rand_alnum_def)

lemma no_underscore: "CHR ''_'' \<notin> set prefix_alphabet"
  by (simp add: prefix_alphabet_def)

lemma split_generated:
  assumes "rng_ok r" "generate_api_key h r = (t, p, k)"
  shows "split_max 3 (CHR ''_'') t =
    [''syn'', ''live'', rand_alnum r 8, rng_token_urlsafe r 32]"
proof -
  have "CHR ''_'' \<notin> set (rand_alnum r 8)"
    using rand_alnum_set [OF assms(1)] no_underscore by blast
  moreover have "t = ''syn'' @ CHR ''_'' # ''live'' @ CHR ''_'' # rand_alnum r 8 @ CHR ''_'' #
      rng_token_urlsafe r 32"
    using assms(2)
    by (auto simp: generate_api_key_def Let_def prefix_namespace_def prefix_random_len_def
        secret_random_len_def)
  ultimately show ?thesis
    by (simp add: numeral_3_eq_3 takeWhile_sep dropWhile_sep)
qed

lemma generated_valid:
  assumes "rng_ok r" "generate_api_key h r = (t, p, k)"
  shows "is_valid_format t"
proof -
  have "list_all (\<lambda>c. c \<in> set prefix_alphabet) (rand_alnum r 8)"
    using rand_alnum_set [OF assms(1), of 8] by (auto simp: list_all_iff)
  moreover have "t \<noteq> []"
    using assms(2) by (auto simp: generate_api_key_def Let_def prefix_namespace_def)
  ultimately show ?thesis
    using assms(1) unfolding is_valid_format_def split_generated [OF assms]
    by (simp add: prefix_random_len_def rng_ok_def)
qed

lemma generated_fields:
  assumes "generate_api_key h r = (t, p, k)"
  shows "k = h t" "p = visible_prefix t" "length p = 17"
  using assms
  by (auto simp: generate_api_key_def Let_def hash_api_key_def visible_prefix_def
      visible_prefix_len_def prefix_namespace_def prefix_random_len_def)

text \<open>No character of the secret is in the stored prefix.\<close>

lemma generated_prefix:
  assumes "generate_api_key h r = (t, p, k)"
  shows "p = prefix_namespace @ ''_'' @ rand_alnum r 8"
    "t = p @ ''_'' @ rng_token_urlsafe r 32"
  using assms
  by (auto simp: generate_api_key_def Let_def visible_prefix_len_def prefix_random_len_def
      secret_random_len_def)

lemma alphabet_no_space: "c \<in> set urlsafe_alphabet \<Longrightarrow> \<not> py_space c"
proof -
  have "list_all (\<lambda>c. \<not> py_space c) urlsafe_alphabet" by code_simp
  then show "c \<in> set urlsafe_alphabet \<Longrightarrow> \<not> py_space c" by (simp add: list_all_iff)
qed

lemma generated_no_space:
  assumes "rng_ok r" "generate_api_key h r = (t, p, k)" "c \<in> set t"
  shows "\<not> py_space c"
proof -
  have "set (rand_alnum r 8) \<subseteq> set urlsafe_alphabet"
    using rand_alnum_set [OF assms(1)] by (auto simp: urlsafe_alphabet_def)
  moreover have "set (''syn_live_'') \<subseteq> set urlsafe_alphabet" "CHR ''_'' \<in> set urlsafe_alphabet"
    by (simp_all add: urlsafe_alphabet_def prefix_alphabet_def)
  moreover have "set (rng_token_urlsafe r 32) \<subseteq> set urlsafe_alphabet"
    using assms(1) by (simp add: rng_ok_def)
  moreover have "t = ''syn_live_'' @ rand_alnum r 8 @ ''_'' @ rng_token_urlsafe r 32"
    using assms(2)
    by (auto simp: generate_api_key_def Let_def prefix_namespace_def prefix_random_len_def
        secret_random_len_def)
  then have "c \<in> set (''syn_live_'') \<or> c \<in> set (rand_alnum r 8) \<or> c = CHR ''_'' \<or>
      c \<in> set (rng_token_urlsafe r 32)"
    using assms(3) by (simp only: set_append Un_iff) auto
  ultimately have "c \<in> set urlsafe_alphabet" by blast
  then show ?thesis by (rule alphabet_no_space)
qed

section \<open>Properties\<close>

text \<open>Generation and the checks fit together: a generated token has the valid format, verifies
  against the stored hash, and the stored prefix is the token without the secret and the
  underscore before it.\<close>

lemma generate_round_trip:
  assumes "rng_ok r" "generate_api_key h r = (t, p, k)"
  shows "is_valid_format t \<and> verify_api_key h t k \<and> p = visible_prefix t \<and>
    t = p @ ''_'' @ rng_token_urlsafe r 32"
  by (intro conjI generated_valid [OF assms] generated_fields(2) [OF assms(2)]
      generated_prefix(2) [OF assms(2)])
    (simp add: verify_api_key_def hash_api_key_def generated_fields(1) [OF assms(2)])

definition sample_rng :: rng where
  "sample_rng = \<lparr> rng_choice = (\<lambda>i s. hd s), rng_token_urlsafe = (\<lambda>n. replicate 43 (CHR ''-'')) \<rparr>"

lemma sample_rng_ok: "rng_ok sample_rng"
  by (simp add: rng_ok_def sample_rng_def urlsafe_alphabet_def)

lemma generate_round_trip_witness:
  "is_valid_format (fst (generate_api_key rev sample_rng))"
proof -
  obtain t p k where g: "generate_api_key rev sample_rng = (t, p, k)"
    by (rule prod_cases3)
  show ?thesis
    unfolding g fst_conv by (rule generate_round_trip [OF sample_rng_ok g, THEN conjunct1])
qed

end
