(* ===== verification/Store.thy ===== *)
theory Store
  imports Errors
begin

text \<open>
  The database: the tables the migrations under \<open>alembic/versions\<close> create, as lists of rows in
  insertion order, and the queries and writes the services make through SQLAlchemy.  A write
  either succeeds and yields the new store or raises and leaves the store alone (the session is
  closed without a commit).  Primary keys and clock readings are arguments.  SQLite as the code
  opens it enforces the unique constraints but no foreign key.
\<close>

section \<open>Rows\<close>

record user =
  u_id :: string
  u_name :: string
  u_status :: string
  u_created_at :: datetime
  u_updated_at :: datetime

record client =
  c_id :: string
  c_user_id :: string
  c_name :: string
  c_description :: "string option"
  c_status :: string
  c_created_at :: datetime
  c_updated_at :: datetime
  c_rpm :: "int option"
  c_rpd :: "int option"
  c_tpd :: "int option"

record api_key =
  k_id :: string
  k_client_id :: string
  k_name :: string
  k_prefix :: string
  k_hash :: string
  k_created_at :: datetime
  k_expires_at :: "datetime option"
  k_revoked_at :: "datetime option"
  k_last_used_at :: "datetime option"
  k_rpm :: "int option"
  k_rpd :: "int option"
  k_tpd :: "int option"

record allowed_model =
  m_client_id :: string
  m_model_id :: string

record usage_record =
  r_id :: string
  r_request_id :: string
  r_user_id :: "string option"
  r_client_id :: "string option"
  r_api_key_id :: "string option"
  r_model :: string
  r_streaming :: int
  r_started_at :: datetime
  r_completed_at :: "datetime option"
  r_status :: string
  r_prompt_tokens :: "int option"
  r_completion_tokens :: "int option"
  r_total_tokens :: "int option"
  r_queue_wait_ms :: "int option"
  r_error_code :: "string option"
  r_backend_latency_ms :: "int option"
  r_ttft_ms :: "int option"
  r_stream_duration_ms :: "int option"
  r_total_duration_ms :: "int option"
  r_backend_id :: "string option"

record store =
  users :: "user list"
  clients :: "client list"
  api_keys :: "api_key list"
  allowed_models :: "allowed_model list"
  usage_records :: "usage_record list"

definition empty_store :: store where
  "empty_store = \<lparr> users = [], clients = [], api_keys = [], allowed_models = [], usage_records = [] \<rparr>"

section \<open>Queries\<close>

fun one_or_none :: "'a list \<Rightarrow> exn + 'a option" where
  "one_or_none [] = Inr None"
| "one_or_none [x] = Inr (Some x)"
| "one_or_none (x # y # xs) = Inl (PyError ''MultipleResultsFound'')"

definition order_by :: "('a \<Rightarrow> 'k::linorder) \<Rightarrow> 'a list \<Rightarrow> 'a list" where
  \<comment> \<open>rows with equal keys come in insertion order\<close>
  "order_by f rows = sort_key f rows"

definition users_named :: "string \<Rightarrow> store \<Rightarrow> user list" where
  "users_named n s = filter (\<lambda>u. u_name u = n) (users s)"

definition users_with_id :: "string \<Rightarrow> store \<Rightarrow> user list" where
  "users_with_id i s = filter (\<lambda>u. u_id u = i) (users s)"

definition clients_with_id :: "string \<Rightarrow> store \<Rightarrow> client list" where
  "clients_with_id i s = filter (\<lambda>c. c_id c = i) (clients s)"

definition keys_with_id :: "string \<Rightarrow> store \<Rightarrow> api_key list" where
  "keys_with_id i s = filter (\<lambda>k. k_id k = i) (api_keys s)"

definition keys_with_hash :: "string \<Rightarrow> store \<Rightarrow> api_key list" where
  "keys_with_hash h s = filter (\<lambda>k. k_hash k = h) (api_keys s)"

definition models_of_client :: "string \<Rightarrow> store \<Rightarrow> string list" where
  "models_of_client i s =
     map m_model_id (filter (\<lambda>m. m_client_id m = i) (allowed_models s))"

section \<open>Writes\<close>

definition integrity_error :: exn where
  "integrity_error = PyError ''IntegrityError''"

definition insert_user :: "user \<Rightarrow> store \<Rightarrow> exn + store" where
  "insert_user u s =
     (if u_id u \<in> u_id ` set (users s) \<or> u_name u \<in> u_name ` set (users s)
      then Inl integrity_error
      else Inr (s\<lparr> users := users s @ [u] \<rparr>))"

definition insert_client :: "client \<Rightarrow> store \<Rightarrow> exn + store" where
  "insert_client c s =
     (if c_id c \<in> c_id ` set (clients s) \<or>
         (c_user_id c, c_name c) \<in> (\<lambda>c. (c_user_id c, c_name c)) ` set (clients s)
      then Inl integrity_error
      else Inr (s\<lparr> clients := clients s @ [c] \<rparr>))"

definition insert_key :: "api_key \<Rightarrow> store \<Rightarrow> exn + store" where
  "insert_key k s =
     (if k_id k \<in> k_id ` set (api_keys s) then Inl integrity_error
      else Inr (s\<lparr> api_keys := api_keys s @ [k] \<rparr>))"

definition insert_allowed_model :: "allowed_model \<Rightarrow> store \<Rightarrow> exn + store" where
  "insert_allowed_model m s =
     (if m \<in> set (allowed_models s) then Inl integrity_error
      else Inr (s\<lparr> allowed_models := allowed_models s @ [m] \<rparr>))"

definition delete_allowed_models :: "string \<Rightarrow> store \<Rightarrow> store" where
  "delete_allowed_models i s =
     s\<lparr> allowed_models := filter (\<lambda>m. m_client_id m \<noteq> i) (allowed_models s) \<rparr>"

definition update_key :: "string \<Rightarrow> (api_key \<Rightarrow> api_key) \<Rightarrow> store \<Rightarrow> store" where
  "update_key i f s = s\<lparr> api_keys := map (\<lambda>k. if k_id k = i then f k else k) (api_keys s) \<rparr>"

definition update_client :: "string \<Rightarrow> (client \<Rightarrow> client) \<Rightarrow> store \<Rightarrow> store" where
  "update_client i f s = s\<lparr> clients := map (\<lambda>c. if c_id c = i then f c else c) (clients s) \<rparr>"

definition insert_usage :: "usage_record \<Rightarrow> store \<Rightarrow> exn + store" where
  "insert_usage r s =
     (if r_id r \<in> r_id ` set (usage_records s) then Inl integrity_error
      else Inr (s\<lparr> usage_records := usage_records s @ [r] \<rparr>))"

section \<open>Well-formed stores\<close>

definition store_ok :: "store \<Rightarrow> bool" where
  "store_ok s \<longleftrightarrow>
     distinct (map u_id (users s)) \<and> distinct (map u_name (users s)) \<and>
     distinct (map c_id (clients s)) \<and>
     distinct (map (\<lambda>c. (c_user_id c, c_name c)) (clients s)) \<and>
     distinct (map k_id (api_keys s)) \<and>
     distinct (allowed_models s) \<and>
     distinct (map r_id (usage_records s)) \<and>
     (\<forall>c\<in>set (clients s). c_user_id c \<in> u_id ` set (users s)) \<and>
     (\<forall>k\<in>set (api_keys s). k_client_id k \<in> c_id ` set (clients s)) \<and>
     (\<forall>m\<in>set (allowed_models s). m_client_id m \<in> c_id ` set (clients s))"

lemma store_ok_empty [simp]: "store_ok empty_store"
  by (simp add: store_ok_def empty_store_def)

lemma one_or_none_Inr:
  "one_or_none xs = Inr r \<longleftrightarrow> (case r of None \<Rightarrow> xs = [] | Some x \<Rightarrow> xs = [x])"
  by (cases xs rule: one_or_none.cases) (auto split: option.splits)

lemma one_or_none_simps [res_simps]:
  "one_or_none xs = Inr None \<longleftrightarrow> xs = []"
  "one_or_none xs = Inr (Some x) \<longleftrightarrow> xs = [x]"
  by (simp_all add: one_or_none_Inr)

lemma filter_key_distinct:
  assumes "distinct (map f xs)" "x \<in> set xs"
  shows "filter (\<lambda>y. f y = f x) xs = [x]"
  using assms
proof (induction xs)
  case (Cons a xs)
  show ?case
  proof (cases "a = x")
    case True
    with Cons.prems have "\<forall>y\<in>set xs. f y \<noteq> f x" by (metis distinct.simps(2) image_eqI list.simps(9) set_map)
    then have "filter (\<lambda>y. f y = f x) xs = []" by (simp add: filter_empty_conv)
    with True show ?thesis by simp
  next
    case False
    with Cons.prems have "f a \<noteq> f x" by auto
    with Cons False show ?thesis by auto
  qed
qed simp

lemma filter_singletonD: "filter P xs = [x] \<Longrightarrow> x \<in> set xs \<and> P x"
  by (metis (lifting) list.set_intros(1) mem_Collect_eq set_filter)

lemma key_by_id:
  assumes "store_ok s" "k \<in> set (api_keys s)" "k' \<in> set (api_keys s)" "k_id k = k_id k'"
  shows "k = k'"
proof -
  have "inj_on k_id (set (api_keys s))"
    using assms(1) by (simp add: store_ok_def distinct_map)
  with assms(2-4) show ?thesis by (metis inj_onD)
qed

lemma store_ok_insert_user:
  "store_ok s \<Longrightarrow> insert_user u s = Inr s' \<Longrightarrow> store_ok s'"
  by (auto simp: store_ok_def insert_user_def split: if_splits)

lemma store_ok_insert_client:
  "store_ok s \<Longrightarrow> c_user_id c \<in> u_id ` set (users s) \<Longrightarrow> insert_client c s = Inr s' \<Longrightarrow> store_ok s'"
  by (auto simp: store_ok_def insert_client_def split: if_splits)

lemma store_ok_insert_key:
  "store_ok s \<Longrightarrow> k_client_id k \<in> c_id ` set (clients s) \<Longrightarrow> insert_key k s = Inr s' \<Longrightarrow> store_ok s'"
  by (auto simp: store_ok_def insert_key_def split: if_splits)

lemma store_ok_insert_allowed_model:
  "store_ok s \<Longrightarrow> m_client_id m \<in> c_id ` set (clients s) \<Longrightarrow> insert_allowed_model m s = Inr s' \<Longrightarrow>
     store_ok s'"
  by (auto simp: store_ok_def insert_allowed_model_def split: if_splits)

lemma store_ok_delete_allowed_models:
  "store_ok s \<Longrightarrow> store_ok (delete_allowed_models i s)"
  by (auto simp: store_ok_def delete_allowed_models_def)

lemma store_ok_insert_usage:
  "store_ok s \<Longrightarrow> insert_usage r s = Inr s' \<Longrightarrow> store_ok s'"
  by (auto simp: store_ok_def insert_usage_def split: if_splits)

lemma map_update_same:
  "(\<And>x. g (f x) = g x) \<Longrightarrow> map g (map (\<lambda>x. if P x then f x else x) xs) = map g xs"
  by simp

lemma update_frames [simp]:
  "users (update_key i f s) = users s" "clients (update_key i f s) = clients s"
  "allowed_models (update_key i f s) = allowed_models s"
  "usage_records (update_key i f s) = usage_records s"
  "users (update_client i g s) = users s" "api_keys (update_client i g s) = api_keys s"
  "allowed_models (update_client i g s) = allowed_models s"
  "usage_records (update_client i g s) = usage_records s"
  by (simp_all add: update_key_def update_client_def)

lemma map_api_keys_update:
  "(\<And>k. g (f k) = g k) \<Longrightarrow> map g (api_keys (update_key i f s)) = map g (api_keys s)"
  by (simp add: update_key_def)

lemma map_clients_update:
  "(\<And>c. g (f c) = g c) \<Longrightarrow> map g (clients (update_client i f s)) = map g (clients s)"
  by (simp add: update_client_def)

lemma store_ok_update_key:
  assumes "store_ok s" "\<And>k. k_id (f k) = k_id k" "\<And>k. k_client_id (f k) = k_client_id k"
  shows "store_ok (update_key i f s)"
proof -
  have "\<forall>k\<in>set (api_keys (update_key i f s)). k_client_id k \<in> c_id ` set (clients s)"
    using assms(1,3) by (auto simp: store_ok_def update_key_def)
  then show ?thesis
    using assms(1) unfolding store_ok_def
    by (simp only: update_frames map_api_keys_update [where g = k_id, OF assms(2)] simp_thms) blast
qed

lemma store_ok_update_client:
  assumes "store_ok s" "\<And>c. c_id (f c) = c_id c" "\<And>c. c_user_id (f c) = c_user_id c"
    "\<And>c. c_name (f c) = c_name c"
  shows "store_ok (update_client i f s)"
proof -
  have "map (\<lambda>c. (c_user_id c, c_name c)) (clients (update_client i f s)) =
      map (\<lambda>c. (c_user_id c, c_name c)) (clients s)"
    by (rule map_clients_update) (simp add: assms)
  moreover have ids: "map c_id (clients (update_client i f s)) = map c_id (clients s)"
    by (rule map_clients_update) (simp add: assms)
  moreover from ids have "c_id ` set (clients (update_client i f s)) = c_id ` set (clients s)"
    by (metis set_map)
  moreover have "\<forall>c\<in>set (clients (update_client i f s)). c_user_id c \<in> u_id ` set (users s)"
    using assms(1,3) by (auto simp: store_ok_def update_client_def)
  ultimately show ?thesis
    using assms(1) unfolding store_ok_def by (simp only: update_frames simp_thms) blast
qed

lemmas store_ok_intros =
  store_ok_insert_user store_ok_insert_client store_ok_insert_key store_ok_insert_allowed_model
  store_ok_delete_allowed_models store_ok_insert_usage store_ok_update_key store_ok_update_client

end
