(* ===== verification/AdminService.thy ===== *)
theory AdminService
  imports Store ApiKeys
begin

text \<open>
  The management plane's service functions, \<open>app/services/admin.py\<close>: users, clients, the models a
  client may use, API keys and their revocation and rotation.  An operation returns an exception,
  with nothing committed, or its result and the new store.  The row ids the models generate, the
  clock and the random source are arguments; \<open>h\<close> is the hash of API keys.
\<close>

section \<open>The operations\<close>

subsection \<open>Users\<close>

definition empty_name_error :: exn where
  "empty_name_error =
     Syn (raise_code ValidationErrorC ''name cannot be empty'' ''validation_error'')"

definition create_user :: "string \<Rightarrow> string \<Rightarrow> datetime \<Rightarrow> store \<Rightarrow> exn + user \<times> store" where
  "create_user name uid now s =
     (let name = py_strip name
      in if name = [] then Inl empty_name_error
         else (case one_or_none (users_named name s) of
             Inl e \<Rightarrow> Inl e
           | Inr (Some _) \<Rightarrow>
               Inl (Syn (raise_status SynErrorC (''user '' @ quoted name @ '' already exists'')
                           ''user_exists'' 409))
           | Inr None \<Rightarrow>
               let u = \<lparr> u_id = uid, u_name = name, u_status = ''active'',
                         u_created_at = now, u_updated_at = now \<rparr>
               in (case insert_user u s of Inl e \<Rightarrow> Inl e | Inr s' \<Rightarrow> Inr (u, s'))))"

definition list_users :: "store \<Rightarrow> user list" where
  "list_users s = order_by u_created_at (users s)"

definition get_user :: "string \<Rightarrow> store \<Rightarrow> exn + user" where
  "get_user user_id s =
     (case one_or_none (users_with_id user_id s) of
        Inl e \<Rightarrow> Inl e
      | Inr None \<Rightarrow>
          Inl (Syn (raise_code NotFoundErrorC (''user '' @ quoted user_id @ '' not found'')
                      ''user_not_found''))
      | Inr (Some u) \<Rightarrow> Inr u)"

subsection \<open>Clients\<close>

definition set_allowed_models :: "string \<Rightarrow> string list option \<Rightarrow> store \<Rightarrow> exn + store" where
  "set_allowed_models client_id allowed s =
     (let s = delete_allowed_models client_id s
      in (case allowed of
            None \<Rightarrow> Inr s
          | Some ms \<Rightarrow>
              if ms = [] then Inr s
              else fold_res
                (\<lambda>mid. insert_allowed_model \<lparr> m_client_id = client_id, m_model_id = mid \<rparr>) ms s))"

definition get_client_allowed_models :: "string \<Rightarrow> store \<Rightarrow> string list" where
  "get_client_allowed_models client_id s = models_of_client client_id s"

definition create_client ::
  "string \<Rightarrow> string \<Rightarrow> string option \<Rightarrow> string list option \<Rightarrow> string \<Rightarrow> datetime \<Rightarrow> store
     \<Rightarrow> exn + client \<times> store" where
  "create_client user_id name description allowed cid now s =
     (let name = py_strip name
      in if name = [] then Inl empty_name_error
         else (case get_user user_id s of
             Inl e \<Rightarrow> Inl e
           | Inr u \<Rightarrow>
               let c = \<lparr> c_id = cid, c_user_id = u_id u, c_name = name,
                         c_description = description, c_status = ''active'',
                         c_created_at = now, c_updated_at = now,
                         c_rpm = None, c_rpd = None, c_tpd = None \<rparr>
               in (case insert_client c s of
                     Inl e \<Rightarrow> Inl e
                   | Inr s \<Rightarrow>
                       (case set_allowed_models (c_id c) allowed s of
                          Inl e \<Rightarrow> Inl e
                        | Inr s \<Rightarrow> Inr (c, s)))))"

definition list_clients :: "string option \<Rightarrow> store \<Rightarrow> client list" where
  "list_clients user_id s =
     (let q = clients s;
          q = (case user_id of None \<Rightarrow> q | Some i \<Rightarrow> filter (\<lambda>c. c_user_id c = i) q)
      in order_by c_created_at q)"

definition get_client :: "string \<Rightarrow> store \<Rightarrow> exn + client" where
  "get_client client_id s =
     (case one_or_none (clients_with_id client_id s) of
        Inl e \<Rightarrow> Inl e
      | Inr None \<Rightarrow>
          Inl (Syn (raise_code NotFoundErrorC (''client '' @ quoted client_id @ '' not found'')
                      ''client_not_found''))
      | Inr (Some c) \<Rightarrow> Inr c)"

subsection \<open>API keys\<close>

definition create_api_key ::
  "(string \<Rightarrow> string) \<Rightarrow> rng \<Rightarrow> string \<Rightarrow> string \<Rightarrow> datetime option \<Rightarrow> string \<Rightarrow> datetime \<Rightarrow> store
     \<Rightarrow> exn + (api_key \<times> string) \<times> store" where
  "create_api_key h r client_id name expires_at kid now s =
     (let name = py_strip name
      in if name = [] then Inl empty_name_error
         else (case get_client client_id s of
             Inl e \<Rightarrow> Inl e
           | Inr c \<Rightarrow>
               let (full_token, key_prefix, key_hash) = generate_api_key h r;
                   k = \<lparr> k_id = kid, k_client_id = c_id c, k_name = name, k_prefix = key_prefix,
                         k_hash = key_hash, k_created_at = now, k_expires_at = expires_at,
                         k_revoked_at = None, k_last_used_at = None,
                         k_rpm = None, k_rpd = None, k_tpd = None \<rparr>
               in (case insert_key k s of
                     Inl e \<Rightarrow> Inl e
                   | Inr s \<Rightarrow> Inr ((k, full_token), s))))"

definition list_api_keys :: "string option \<Rightarrow> store \<Rightarrow> api_key list" where
  "list_api_keys client_id s =
     (let q = api_keys s;
          q = (case client_id of None \<Rightarrow> q | Some i \<Rightarrow> filter (\<lambda>k. k_client_id k = i) q)
      in order_by k_created_at q)"

definition get_api_key :: "string \<Rightarrow> store \<Rightarrow> exn + api_key" where
  "get_api_key api_key_id s =
     (case one_or_none (keys_with_id api_key_id s) of
        Inl e \<Rightarrow> Inl e
      | Inr None \<Rightarrow>
          Inl (Syn (raise_code NotFoundErrorC (''api key '' @ quoted api_key_id @ '' not found'')
                      ''api_key_not_found''))
      | Inr (Some k) \<Rightarrow> Inr k)"

definition revoke_api_key :: "string \<Rightarrow> datetime \<Rightarrow> store \<Rightarrow> exn + api_key \<times> store" where
  "revoke_api_key api_key_id now s =
     (case get_api_key api_key_id s of
        Inl e \<Rightarrow> Inl e
      | Inr k \<Rightarrow>
          if k_revoked_at k = None
          then Inr (k\<lparr> k_revoked_at := Some now \<rparr>,
                    update_key (k_id k) (\<lambda>k. k\<lparr> k_revoked_at := Some now \<rparr>) s)
          else Inr (k, s))"

definition rotate_api_key ::
  "(string \<Rightarrow> string) \<Rightarrow> rng \<Rightarrow> string \<Rightarrow> bool \<Rightarrow> string \<Rightarrow> datetime \<Rightarrow> store
     \<Rightarrow> exn + (api_key \<times> string \<times> api_key option) \<times> store" where
  \<comment> \<open>the new key is committed before the old one is looked at again\<close>
  "rotate_api_key h r api_key_id revoke_old kid now s =
     (case get_api_key api_key_id s of
        Inl e \<Rightarrow> Inl e
      | Inr old \<Rightarrow>
          (case create_api_key h r (k_client_id old) (k_name old @ '' (rotated)'') None kid now s of
             Inl e \<Rightarrow> Inl e
           | Inr ((new_key, full_token), s) \<Rightarrow>
               if revoke_old
               then (case revoke_api_key (k_id old) now s of
                       Inl e \<Rightarrow> Inl e
                     | Inr (old, s) \<Rightarrow> Inr ((new_key, full_token, Some old), s))
               else Inr ((new_key, full_token, None), s)))"

section \<open>The service as a step relation\<close>

inductive svc_step :: "(string \<Rightarrow> string) \<Rightarrow> store \<Rightarrow> store \<Rightarrow> bool" for h where
  svc_create_user: "create_user n i now s = Inr (u, s') \<Longrightarrow> svc_step h s s'"
| svc_create_client: "create_client ui n d al i now s = Inr (c, s') \<Longrightarrow> svc_step h s s'"
| svc_create_key: "create_api_key h r ci n ex i now s = Inr (kt, s') \<Longrightarrow> svc_step h s s'"
| svc_revoke: "revoke_api_key i now s = Inr (k, s') \<Longrightarrow> svc_step h s s'"
| svc_rotate: "rotate_api_key h r i rv kid now s = Inr (res, s') \<Longrightarrow> svc_step h s s'"

inductive_cases svc_stepE: "svc_step h s s'"

inductive svc_reach :: "(string \<Rightarrow> string) \<Rightarrow> store \<Rightarrow> store \<Rightarrow> bool" for h where
  svc_refl: "svc_reach h s s"
| svc_trans: "svc_reach h s t \<Longrightarrow> svc_step h t u \<Longrightarrow> svc_reach h s u"

section \<open>What the operations do\<close>

lemma users_with_id_in: "users_with_id i s = [u] \<Longrightarrow> u \<in> set (users s) \<and> u_id u = i"
  unfolding users_with_id_def by (rule filter_singletonD)

lemma clients_with_id_in: "clients_with_id i s = [c] \<Longrightarrow> c \<in> set (clients s) \<and> c_id c = i"
  unfolding clients_with_id_def by (rule filter_singletonD)

lemma keys_with_id_in: "keys_with_id i s = [k] \<Longrightarrow> k \<in> set (api_keys s) \<and> k_id k = i"
  unfolding keys_with_id_def by (rule filter_singletonD)

lemma get_user_Inr: "get_user i s = Inr u \<longleftrightarrow> users_with_id i s = [u]"
  by (auto simp: get_user_def res_simps split: sum.splits option.splits)

lemma get_client_Inr: "get_client i s = Inr c \<longleftrightarrow> clients_with_id i s = [c]"
  by (auto simp: get_client_def res_simps split: sum.splits option.splits)

lemma get_api_key_Inr: "get_api_key i s = Inr k \<longleftrightarrow> keys_with_id i s = [k]"
  by (auto simp: get_api_key_def res_simps split: sum.splits option.splits)

lemma get_api_key_exact:
  assumes "store_ok s" "k \<in> set (api_keys s)"
  shows "get_api_key (k_id k) s = Inr k"
  using assms filter_key_distinct [of k_id "api_keys s" k]
  by (simp add: get_api_key_Inr keys_with_id_def store_ok_def)

lemma get_client_exact:
  assumes "store_ok s" "c \<in> set (clients s)"
  shows "get_client (c_id c) s = Inr c"
  using assms filter_key_distinct [of c_id "clients s" c]
  by (simp add: get_client_Inr clients_with_id_def store_ok_def)

lemma get_user_exact:
  assumes "store_ok s" "u \<in> set (users s)"
  shows "get_user (u_id u) s = Inr u"
  using assms filter_key_distinct [of u_id "users s" u]
  by (simp add: get_user_Inr users_with_id_def store_ok_def)

lemma create_user_Inr:
  "create_user n i now s = Inr (u, s') \<longleftrightarrow>
     py_strip n \<noteq> [] \<and> users_named (py_strip n) s = [] \<and>
     u = \<lparr> u_id = i, u_name = py_strip n, u_status = ''active'', u_created_at = now,
           u_updated_at = now \<rparr> \<and>
     insert_user u s = Inr s'"
  by (auto simp: create_user_def Let_def res_simps split: sum.splits option.splits)

lemma create_client_Inr:
  "create_client ui n d al i now s = Inr (c, s') \<longleftrightarrow>
     py_strip n \<noteq> [] \<and>
     (\<exists>u t. get_user ui s = Inr u \<and>
        c = \<lparr> c_id = i, c_user_id = u_id u, c_name = py_strip n, c_description = d,
              c_status = ''active'', c_created_at = now, c_updated_at = now,
              c_rpm = None, c_rpd = None, c_tpd = None \<rparr> \<and>
        insert_client c s = Inr t \<and> set_allowed_models i al t = Inr s')"
  by (auto simp: create_client_def Let_def split: sum.splits)

lemma create_api_key_Inr:
  "create_api_key h r ci n ex i now s = Inr ((k, t), s') \<longleftrightarrow>
     py_strip n \<noteq> [] \<and>
     (\<exists>c p hs. get_client ci s = Inr c \<and> generate_api_key h r = (t, p, hs) \<and>
        k = \<lparr> k_id = i, k_client_id = c_id c, k_name = py_strip n, k_prefix = p, k_hash = hs,
              k_created_at = now, k_expires_at = ex, k_revoked_at = None, k_last_used_at = None,
              k_rpm = None, k_rpd = None, k_tpd = None \<rparr> \<and>
        insert_key k s = Inr s')"
  by (auto simp: create_api_key_def Let_def split: sum.splits prod.splits)

lemma revoke_api_key_Inr:
  "revoke_api_key i now s = Inr (k, s') \<longleftrightarrow>
     (\<exists>k0. get_api_key i s = Inr k0 \<and>
        (if k_revoked_at k0 = None
         then k = k0\<lparr> k_revoked_at := Some now \<rparr> \<and>
              s' = update_key i (\<lambda>k. k\<lparr> k_revoked_at := Some now \<rparr>) s
         else k = k0 \<and> s' = s))"
proof (cases "get_api_key i s")
  case (Inl e)
  then show ?thesis by (simp add: revoke_api_key_def)
next
  case (Inr k0)
  then have "k_id k0 = i" using keys_with_id_in by (simp add: get_api_key_Inr)
  with Inr show ?thesis by (auto simp: revoke_api_key_def)
qed

lemma rotate_api_key_Inr:
  "rotate_api_key h r i rv kid now s = Inr ((new, t, old), s') \<longleftrightarrow>
     (\<exists>k s1. get_api_key i s = Inr k \<and>
        create_api_key h r (k_client_id k) (k_name k @ '' (rotated)'') None kid now s
          = Inr ((new, t), s1) \<and>
        (if rv then \<exists>o'. revoke_api_key (k_id k) now s1 = Inr (o', s') \<and> old = Some o'
         else old = None \<and> s' = s1))"
  by (auto simp: rotate_api_key_def split: sum.splits prod.splits if_splits)

text \<open>The bundle that turns a successful operation into the rows it wrote.\<close>

lemmas svc_results =
  create_user_Inr create_client_Inr create_api_key_Inr revoke_api_key_Inr rotate_api_key_Inr

lemma set_allowed_models_store_ok:
  assumes "set_allowed_models i al s = Inr s'" "store_ok s" "i \<in> c_id ` set (clients s)"
  shows "store_ok s'"
proof (cases "al = None \<or> al = Some []")
  case True
  with assms(1) have "s' = delete_allowed_models i s"
    by (auto simp: set_allowed_models_def Let_def)
  with assms(2) show ?thesis by (simp add: store_ok_delete_allowed_models)
next
  case False
  then obtain ms where al: "al = Some ms" and "ms \<noteq> []" by auto
  with assms(1) have
    "fold_res (\<lambda>mid. insert_allowed_model \<lparr> m_client_id = i, m_model_id = mid \<rparr>) ms
       (delete_allowed_models i s) = Inr s'"
    by (simp add: set_allowed_models_def)
  then have "store_ok s' \<and> i \<in> c_id ` set (clients s')"
  proof (rule fold_res_invariant)
    show "store_ok (delete_allowed_models i s) \<and>
        i \<in> c_id ` set (clients (delete_allowed_models i s))"
      using assms(2,3) store_ok_delete_allowed_models
      by (simp add: delete_allowed_models_def)
  next
    fix m t t'
    assume *: "store_ok t \<and> i \<in> c_id ` set (clients t)"
      "insert_allowed_model \<lparr> m_client_id = i, m_model_id = m \<rparr> t = Inr t'"
    then have "clients t' = clients t" by (auto simp: insert_allowed_model_def split: if_splits)
    with * show "store_ok t' \<and> i \<in> c_id ` set (clients t')"
      using store_ok_insert_allowed_model [of t "\<lparr> m_client_id = i, m_model_id = m \<rparr>" t'] by simp
  qed
  then show ?thesis ..
qed

lemma create_user_ok: "create_user n i now s = Inr (u, s') \<Longrightarrow> store_ok s \<Longrightarrow> store_ok s'"
  unfolding create_user_Inr by (elim conjE) (rule store_ok_insert_user)

lemma create_client_row:
  assumes "create_client ui n d al i now s = Inr (c, s')"
  obtains t where "c_id c = i" "c_user_id c = ui" "ui \<in> u_id ` set (users s)"
    "insert_client c s = Inr t" "set_allowed_models i al t = Inr s'"
proof -
  obtain u t where u: "get_user ui s = Inr u" and c: "c_id c = i" "c_user_id c = u_id u"
    and t: "insert_client c s = Inr t" "set_allowed_models i al t = Inr s'"
    using assms unfolding create_client_Inr by (elim conjE exE) simp
  have "u \<in> set (users s)" "u_id u = ui" using u users_with_id_in by (simp_all add: get_user_Inr)
  with that c t show ?thesis by blast
qed

lemma create_client_ok:
  assumes "create_client ui n d al i now s = Inr (c, s')" "store_ok s"
  shows "store_ok s'"
proof -
  obtain t where c: "c_id c = i" "c_user_id c = ui" "ui \<in> u_id ` set (users s)"
    and t: "insert_client c s = Inr t" and al: "set_allowed_models i al t = Inr s'"
    using create_client_row [OF assms(1)] .
  have "store_ok t" by (rule store_ok_insert_client [OF assms(2) _ t]) (simp add: c)
  moreover have "i \<in> c_id ` set (clients t)"
    using t c by (auto simp: insert_client_def split: if_splits)
  ultimately show ?thesis using al set_allowed_models_store_ok by blast
qed

lemma create_api_key_row:
  assumes "create_api_key h r ci n ex i now s = Inr ((k, t), s')"
  shows "insert_key k s = Inr s'" "\<exists>c\<in>set (clients s). c_id c = ci" "k_client_id k = ci"
    "k_id k = i" "k_revoked_at k = None" "k_expires_at k = ex" "k_hash k = h t" "is_valid_format t \<or> \<not> rng_ok r"
proof -
  obtain c p hs where c: "get_client ci s = Inr c" and g: "generate_api_key h r = (t, p, hs)"
    and k: "k_client_id k = c_id c" "k_hash k = hs" and s': "insert_key k s = Inr s'"
    and "k_id k = i" "k_revoked_at k = None" "k_expires_at k = ex"
    using assms unfolding create_api_key_Inr by fastforce
  then show "insert_key k s = Inr s'" "k_id k = i" "k_revoked_at k = None" "k_expires_at k = ex"
    by auto
  show "\<exists>c\<in>set (clients s). c_id c = ci" "k_client_id k = ci"
    using c k clients_with_id_in by (auto simp: get_client_Inr)
  show "k_hash k = h t" "is_valid_format t \<or> \<not> rng_ok r"
    using k generated_fields(1) [OF g] generated_valid [OF _ g] by auto
qed

lemma create_api_key_ok:
  assumes "create_api_key h r ci n ex i now s = Inr (kt, s')" "store_ok s"
  shows "store_ok s'"
proof -
  obtain k t where kt: "kt = (k, t)" by (cases kt)
  note row = create_api_key_row [OF assms(1) [unfolded kt]]
  show ?thesis
    by (rule store_ok_insert_key [OF assms(2) _ row(1)]) (use row(2,3) in \<open>auto intro: rev_image_eqI\<close>)
qed

lemma revoke_api_key_ok:
  assumes "revoke_api_key i now s = Inr (k, s')" "store_ok s"
  shows "store_ok s'"
proof -
  from assms(1) have "s' = s \<or> s' = update_key i (\<lambda>k. k\<lparr> k_revoked_at := Some now \<rparr>) s"
    unfolding revoke_api_key_Inr by (auto split: if_splits)
  then show ?thesis
    using assms(2) store_ok_update_key [OF assms(2), of "\<lambda>k. k\<lparr> k_revoked_at := Some now \<rparr>"]
    by auto
qed

lemma rotate_api_key_ok:
  assumes "rotate_api_key h r i rv kid now s = Inr (res, s')" "store_ok s"
  shows "store_ok s'"
proof -
  obtain new t old where res: "res = (new, t, old)" by (cases res)
  obtain k :: api_key and s1 where s1: "create_api_key h r (k_client_id k) (k_name k @ '' (rotated)'') None kid now s
      = Inr ((new, t), s1)"
    and s': "if rv then \<exists>o'. revoke_api_key (k_id k) now s1 = Inr (o', s') \<and> old = Some o'
      else old = None \<and> s' = s1"
    using assms(1) unfolding res rotate_api_key_Inr by (elim exE conjE) (rule that)
  have "store_ok s1" using create_api_key_ok [OF s1 assms(2)] .
  with s' revoke_api_key_ok show ?thesis by (auto split: if_splits)
qed

lemmas svc_ok = create_user_ok create_client_ok create_api_key_ok revoke_api_key_ok rotate_api_key_ok

lemma svc_step_ok: "svc_step h s s' \<Longrightarrow> store_ok s \<Longrightarrow> store_ok s'"
  by (elim svc_stepE) (rule svc_ok; assumption)+

lemma svc_reach_ok: "svc_reach h s s' \<Longrightarrow> store_ok s \<Longrightarrow> store_ok s'"
  by (induction rule: svc_reach.induct) (auto intro: svc_step_ok)

section \<open>Keys over time\<close>

definition key_later :: "api_key \<Rightarrow> api_key \<Rightarrow> bool" where
  \<comment> \<open>the row of a key and the row of the same key later\<close>
  "key_later k k' \<longleftrightarrow>
     k_id k' = k_id k \<and> k_hash k' = k_hash k \<and> k_prefix k' = k_prefix k \<and>
     k_client_id k' = k_client_id k \<and> k_expires_at k' = k_expires_at k \<and>
     (\<forall>t. k_revoked_at k = Some t \<longrightarrow> k_revoked_at k' = Some t)"

definition keys_later :: "store \<Rightarrow> store \<Rightarrow> bool" where
  "keys_later s s' \<longleftrightarrow> (\<forall>k\<in>set (api_keys s). \<exists>k'\<in>set (api_keys s'). key_later k k')"

lemma key_later_refl [simp]: "key_later k k"
  by (simp add: key_later_def)

lemma key_later_trans: "key_later k k' \<Longrightarrow> key_later k' k'' \<Longrightarrow> key_later k k''"
  by (simp add: key_later_def)

lemma keys_later_same: "api_keys s' = api_keys s \<Longrightarrow> keys_later s s'"
  by (auto simp: keys_later_def intro: key_later_refl)

lemma keys_later_trans: "keys_later s t \<Longrightarrow> keys_later t u \<Longrightarrow> keys_later s u"
  unfolding keys_later_def by (meson key_later_trans)

lemma keys_later_update:
  "(\<And>k. k \<in> set (api_keys s) \<Longrightarrow> k_id k = i \<Longrightarrow> key_later k (f k)) \<Longrightarrow> keys_later s (update_key i f s)"
proof -
  assume later: "\<And>k. k \<in> set (api_keys s) \<Longrightarrow> k_id k = i \<Longrightarrow> key_later k (f k)"
  have "\<exists>k'\<in>set (api_keys (update_key i f s)). key_later k k'" if "k \<in> set (api_keys s)" for k
    using that later
    by (intro bexI [of _ "if k_id k = i then f k else k"]) (auto simp: update_key_def)
  then show ?thesis by (simp add: keys_later_def)
qed

lemma keys_later_insert: "insert_key k s = Inr s' \<Longrightarrow> keys_later s s'"
  by (auto simp: keys_later_def insert_key_def split: if_splits intro: key_later_refl)

lemma api_keys_insert_user: "insert_user u s = Inr s' \<Longrightarrow> api_keys s' = api_keys s"
  by (auto simp: insert_user_def split: if_splits)

lemma api_keys_insert_client: "insert_client u s = Inr s' \<Longrightarrow> api_keys s' = api_keys s"
  by (auto simp: insert_client_def split: if_splits)

lemma set_allowed_models_result:
  assumes "set_allowed_models i al s = Inr s'"
  shows "s' = s\<lparr> allowed_models := filter (\<lambda>m. m_client_id m \<noteq> i) (allowed_models s) @
      map (\<lambda>mid. \<lparr> m_client_id = i, m_model_id = mid \<rparr>) (case al of None \<Rightarrow> [] | Some ms \<Rightarrow> ms) \<rparr>"
proof -
  have fold: "fold_res (\<lambda>mid. insert_allowed_model \<lparr> m_client_id = i, m_model_id = mid \<rparr>) ms t = Inr t' \<Longrightarrow>
      t' = t\<lparr> allowed_models := allowed_models t @
        map (\<lambda>mid. \<lparr> m_client_id = i, m_model_id = mid \<rparr>) ms \<rparr>" for ms t t'
  proof (induction ms arbitrary: t)
    case (Cons m ms)
    from Cons.prems Cons.IH [of "t\<lparr> allowed_models := allowed_models t @ [\<lparr> m_client_id = i, m_model_id = m \<rparr>] \<rparr>"]
    show ?case by (simp add: insert_allowed_model_def split: if_splits)
  qed simp
  show ?thesis
    using assms
    by (auto simp: set_allowed_models_def delete_allowed_models_def Let_def
        split: option.splits if_splits dest: fold)
qed

lemma create_user_later: "create_user n i now s = Inr (u, s') \<Longrightarrow> keys_later s s'"
  unfolding create_user_Inr by (elim conjE) (rule keys_later_same, rule api_keys_insert_user)

lemma create_client_later:
  assumes "create_client ui n d al i now s = Inr (c, s')"
  shows "keys_later s s'"
proof -
  obtain t where t: "insert_client c s = Inr t" and al: "set_allowed_models i al t = Inr s'"
    using create_client_row [OF assms] .
  have "api_keys s' = api_keys t" unfolding set_allowed_models_result [OF al] by simp
  with api_keys_insert_client [OF t] show ?thesis by (simp add: keys_later_same)
qed

lemma create_api_key_later:
  "create_api_key h r ci n ex i now s = Inr (kt, s') \<Longrightarrow> keys_later s s'"
  by (cases kt) (auto dest: create_api_key_row(1) keys_later_insert)

lemma revoke_api_key_row:
  assumes "revoke_api_key i now s = Inr (k, s')"
  obtains k0 where "keys_with_id i s = [k0]" "k_id k0 = i"
    "k_revoked_at k0 = None" "k = k0\<lparr> k_revoked_at := Some now \<rparr>"
    "s' = update_key i (\<lambda>k. k\<lparr> k_revoked_at := Some now \<rparr>) s"
  | "keys_with_id i s = [k]" "k_id k = i" "k_revoked_at k \<noteq> None" "s' = s"
proof -
  obtain k0 where k0: "keys_with_id i s = [k0]"
    and *: "if k_revoked_at k0 = None
      then k = k0\<lparr> k_revoked_at := Some now \<rparr> \<and>
           s' = update_key i (\<lambda>k. k\<lparr> k_revoked_at := Some now \<rparr>) s
      else k = k0 \<and> s' = s"
    using assms unfolding revoke_api_key_Inr get_api_key_Inr by (elim exE conjE) (rule that)
  show ?thesis
    using that k0 * keys_with_id_in [OF k0] by (cases "k_revoked_at k0 = None") auto
qed

lemma revoke_api_key_later:
  assumes "revoke_api_key i now s = Inr (k, s')"
  shows "keys_later s s'"
  using assms
proof (cases rule: revoke_api_key_row)
  case (1 k0)
  have "k_revoked_at k = None" if "k \<in> set (api_keys s)" "k_id k = i" for k
  proof -
    have "k \<in> set (keys_with_id i s)" using that by (simp add: keys_with_id_def)
    then show ?thesis using 1 by simp
  qed
  with 1 show ?thesis by (auto intro!: keys_later_update simp: key_later_def)
qed (simp add: keys_later_same)

lemma rotate_api_key_row:
  assumes "rotate_api_key h r i rv kid now s = Inr ((new, t, old), s')"
  obtains k s1 where "keys_with_id i s = [k]" "k_id k = i"
    "create_api_key h r (k_client_id k) (k_name k @ '' (rotated)'') None kid now s = Inr ((new, t), s1)"
    "if rv then \<exists>o'. revoke_api_key i now s1 = Inr (o', s') \<and> old = Some o' else old = None \<and> s' = s1"
proof -
  obtain k s1 where k: "keys_with_id i s = [k]"
    and *: "create_api_key h r (k_client_id k) (k_name k @ '' (rotated)'') None kid now s = Inr ((new, t), s1)"
    "if rv then \<exists>o'. revoke_api_key (k_id k) now s1 = Inr (o', s') \<and> old = Some o'
      else old = None \<and> s' = s1"
    using assms unfolding rotate_api_key_Inr get_api_key_Inr by (elim exE conjE) (rule that)
  with keys_with_id_in [OF k] that show ?thesis by auto
qed

text \<open>The replacement of a key that expires never does.\<close>

lemma rotation_forgets_expiry: "rotate_api_key h r i rv kid now s = Inr ((new, t, old), s') \<Longrightarrow> k_expires_at new = None"
  by (erule rotate_api_key_row) (rule create_api_key_row(6))

lemma rotate_api_key_later:
  assumes "rotate_api_key h r i rv kid now s = Inr (res, s')"
  shows "keys_later s s'"
proof -
  obtain new t old where res: "res = (new, t, old)" by (cases res)
  obtain k :: api_key and s1 where s1: "create_api_key h r (k_client_id k) (k_name k @ '' (rotated)'') None kid now s
      = Inr ((new, t), s1)"
    and s': "if rv then \<exists>o'. revoke_api_key i now s1 = Inr (o', s') \<and> old = Some o'
      else old = None \<and> s' = s1"
    using rotate_api_key_row [OF assms [unfolded res]] .
  show ?thesis
    using s' keys_later_trans [OF create_api_key_later [OF s1]] revoke_api_key_later
      create_api_key_later [OF s1]
    by (auto split: if_splits)
qed

lemmas svc_later = create_user_later create_client_later create_api_key_later
  revoke_api_key_later rotate_api_key_later

lemma svc_step_later: "svc_step h s s' \<Longrightarrow> keys_later s s'"
  by (elim svc_stepE) (rule svc_later; assumption)+

lemma svc_reach_later: "svc_reach h s s' \<Longrightarrow> keys_later s s'"
  by (induction rule: svc_reach.induct)
    (auto intro: keys_later_same svc_step_later keys_later_trans)

section \<open>Properties\<close>

text \<open>C22: Every store the service's operations can build from an empty database is well formed:
  ids and user names are unique, client names are unique per user, no model is allowed twice to a
  client, and every client, key and allowed model belongs to an existing row.\<close>

theorem admin_store_ok:
  assumes "svc_reach h empty_store s"
  shows "store_ok s"
  using svc_reach_ok [OF assms] by simp

theorem admin_store_ok_witness:
  "store_ok (empty_store\<lparr> users := [\<lparr> u_id = ''1'', u_name = ''ann'', u_status = ''active'',
     u_created_at = 0, u_updated_at = 0 \<rparr>] \<rparr>)"
  by (rule admin_store_ok [of id], rule svc_trans [OF svc_refl],
      rule svc_create_user [of "'' ann'' " "''1''" 0])
    (simp add: create_user_Inr py_defs users_named_def insert_user_def empty_store_def)

text \<open>A created client is in the store under its trimmed name and owner, and may use exactly the
  models asked for, in their order; a list that names a model twice is refused as a whole.\<close>

lemma create_client_models:
  assumes "store_ok s" "create_client ui n d al i now s = Inr (c, s')"
  shows "get_client i s' = Inr c \<and> c_name c = py_strip n \<and> c_user_id c = ui \<and>
    get_client_allowed_models i s' = (case al of None \<Rightarrow> [] | Some ms \<Rightarrow> ms) \<and>
    (\<forall>ms. al = Some ms \<longrightarrow> distinct ms)"
proof -
  obtain t where c: "c_id c = i" "c_user_id c = ui"
    and t: "insert_client c s = Inr t" and al: "set_allowed_models i al t = Inr s'"
    using create_client_row [OF assms(2)] .
  note s' = set_allowed_models_result [OF al]
  have ok: "store_ok s'" by (rule create_client_ok [OF assms(2,1)])
  have "c \<in> set (clients s')"
    using t unfolding s' by (auto simp: insert_client_def split: if_splits)
  then have "get_client i s' = Inr c" using get_client_exact [OF ok] c by blast
  moreover have "c_name c = py_strip n"
    using assms(2) unfolding create_client_Inr by auto
  moreover have models: "get_client_allowed_models i s' = (case al of None \<Rightarrow> [] | Some ms \<Rightarrow> ms)"
    unfolding s' get_client_allowed_models_def models_of_client_def
    by (auto simp: filter_empty_conv o_def split: option.split)
  moreover have "distinct (get_client_allowed_models i s')"
    using ok unfolding store_ok_def get_client_allowed_models_def models_of_client_def
    by (auto simp: distinct_map intro!: inj_onI)
  ultimately show ?thesis using c by auto
qed


definition sample_store :: store where
  \<comment> \<open>one user, one client, one key\<close>
  "sample_store = empty_store\<lparr>
     users := [\<lparr> u_id = ''u1'', u_name = ''ann'', u_status = ''active'', u_created_at = 0,
                u_updated_at = 0 \<rparr>],
     clients := [\<lparr> c_id = ''c1'', c_user_id = ''u1'', c_name = ''app'', c_description = None,
                  c_status = ''active'', c_created_at = 0, c_updated_at = 0, c_rpm = None,
                  c_rpd = None, c_tpd = None \<rparr>],
     api_keys := [\<lparr> k_id = ''k1'', k_client_id = ''c1'', k_name = ''key'',
                   k_prefix = ''syn_live_aaaaaaaa'', k_hash = ''x'', k_created_at = 0,
                   k_expires_at = None, k_revoked_at = None, k_last_used_at = None,
                   k_rpm = None, k_rpd = None, k_tpd = None \<rparr>] \<rparr>"

lemma sample_store_ok: "store_ok sample_store"
  by (simp add: store_ok_def sample_store_def empty_store_def)

lemma create_client_models_witness:
  "\<exists>s c. create_client ''u1'' ''web '' None (Some [''m'', ''n'']) ''c2'' 5 sample_store = Inr (c, s) \<and>
     get_client_allowed_models ''c2'' s = [''m'', ''n'']"
proof -
  have "\<exists>c s. create_client ''u1'' ''web '' None (Some [''m'', ''n'']) ''c2'' 5 sample_store = Inr (c, s)"
    by (simp add: create_client_def Let_def get_user_def users_with_id_def sample_store_def
        empty_store_def insert_client_def set_allowed_models_def delete_allowed_models_def
        insert_allowed_model_def py_defs)
  then show ?thesis using create_client_models [OF sample_store_ok] by fastforce
qed


end
