(* ===== verification/Auth.thy ===== *)
theory Auth
  imports AdminService
begin

text \<open>
  Authentication of requests under \<open>/v1\<close>: the principal of \<open>app/core/principal.py\<close> and the two
  dependencies of \<open>app/core/auth.py\<close>.  \<open>h\<close> is the hash of API keys, \<open>commit_ok\<close> says whether the
  best-effort write of \<open>last_used_at\<close> succeeds, and the database is absent while it is not set up.
  The contract of the store the dependencies rely on is the locale \<open>key_directory\<close>.
\<close>

section \<open>Principals\<close>

record principal =
  p_user_id :: string
  p_user_name :: string
  p_client_id :: string
  p_client_name :: string
  p_api_key_id :: string
  p_api_key_prefix :: string
  p_allowed_models :: "string list option"

definition can_use_model :: "principal \<Rightarrow> string \<Rightarrow> bool" where
  "can_use_model p model_id =
     (case p_allowed_models p of None \<Rightarrow> True | Some ms \<Rightarrow> model_id \<in> set ms)"

section \<open>The dependencies\<close>

definition get_db_session :: "store option \<Rightarrow> exn + store" where
  "get_db_session db =
     (case db of
        None \<Rightarrow> Inl (Syn (raise_code AuthenticationErrorC
                   ''database unavailable for authentication'' ''authentication_required''))
      | Some s \<Rightarrow> Inr s)"

definition extract_bearer_token :: "string option \<Rightarrow> exn + string" where
  "extract_bearer_token authorization_header =
     (case authorization_header of
        None \<Rightarrow> Inl (Syn (raise_code AuthenticationErrorC ''missing Authorization header''
                   ''authentication_required''))
      | Some hdr \<Rightarrow>
          if hdr = [] then Inl (Syn (raise_code AuthenticationErrorC ''missing Authorization header''
                   ''authentication_required''))
          else
            let parts = split_ws1 hdr
            in if length parts \<noteq> 2 \<or> py_lower (parts ! 0) \<noteq> ''bearer''
               then Inl (Syn (raise_code AuthenticationErrorC
                      ''Authorization header must be: Bearer <api_key>'' ''authentication_required''))
               else
                 let token = py_strip (parts ! 1)
                 in if token = [] \<or> \<not> is_valid_format token
                    then Inl (Syn (raise_detail InvalidApiKeyErrorC ''invalid API key format''))
                    else Inr token)"

definition key_client :: "api_key \<Rightarrow> store \<Rightarrow> exn + client" where
  \<comment> \<open>\<open>api_key.client\<close>, whose attributes are then read\<close>
  "key_client k s =
     (case one_or_none (clients_with_id (k_client_id k) s) of
        Inr (Some c) \<Rightarrow> Inr c
      | Inr None \<Rightarrow> Inl (PyError ''AttributeError'')
      | Inl e \<Rightarrow> Inl e)"

definition client_user :: "client \<Rightarrow> store \<Rightarrow> exn + user" where
  "client_user c s =
     (case one_or_none (users_with_id (c_user_id c) s) of
        Inr (Some u) \<Rightarrow> Inr u
      | Inr None \<Rightarrow> Inl (PyError ''AttributeError'')
      | Inl e \<Rightarrow> Inl e)"

definition principal_from_api_key_with_session :: "api_key \<Rightarrow> store \<Rightarrow> exn + principal" where
  "principal_from_api_key_with_session k s =
     (case key_client k s of
        Inl e \<Rightarrow> Inl e
      | Inr c \<Rightarrow>
          (case client_user c s of
             Inl e \<Rightarrow> Inl e
           | Inr u \<Rightarrow>
               let rows = models_of_client (c_id c) s;
                   allowed = (if rows \<noteq> [] then Some rows else None)
               in Inr \<lparr> p_user_id = u_id u, p_user_name = u_name u, p_client_id = c_id c,
                        p_client_name = c_name c, p_api_key_id = k_id k,
                        p_api_key_prefix = k_prefix k, p_allowed_models = allowed \<rparr>))"

definition load_allowed_models :: "string \<Rightarrow> exn + string list option" where
  "load_allowed_models client_id = Inl (PyError ''NotImplementedError'')"

definition principal_from_api_key :: "api_key \<Rightarrow> store \<Rightarrow> exn + principal" where
  \<comment> \<open>called by nobody: it never returns (\<open>principal_from_api_key_raises\<close>)\<close>
  "principal_from_api_key k s =
     (case key_client k s of
        Inl e \<Rightarrow> Inl e
      | Inr c \<Rightarrow>
          (case client_user c s of
             Inl e \<Rightarrow> Inl e
           | Inr u \<Rightarrow>
               (case load_allowed_models (k_client_id k) of
                  Inl e \<Rightarrow> Inl e
                | Inr allowed \<Rightarrow>
                    Inr \<lparr> p_user_id = u_id u, p_user_name = u_name u, p_client_id = c_id c,
                          p_client_name = c_name c, p_api_key_id = k_id k,
                          p_api_key_prefix = k_prefix k, p_allowed_models = allowed \<rparr>)))"

definition safe_prefix :: "string \<Rightarrow> string" where
  \<comment> \<open>the text of a token that is logged; \<open>visible_prefix\<close> of a text cannot raise\<close>
  "safe_prefix token = visible_prefix token"

definition invalid_key_error :: exn where
  "invalid_key_error = Syn (raise_detail InvalidApiKeyErrorC ''invalid API key'')"

definition revoked_key_error :: exn where
  "revoked_key_error = Syn (raise_detail RevokedApiKeyErrorC ''API key has been revoked'')"

definition expired_key_error :: exn where
  "expired_key_error = Syn (raise_detail ExpiredApiKeyErrorC ''API key has expired'')"

definition expired :: "api_key \<Rightarrow> datetime \<Rightarrow> bool" where
  "expired k now = (case k_expires_at k of None \<Rightarrow> False | Some t \<Rightarrow> t \<le> now)"

definition authenticate_request ::
  "(string \<Rightarrow> string) \<Rightarrow> bool \<Rightarrow> datetime \<Rightarrow> string option \<Rightarrow> store option
     \<Rightarrow> (exn + principal) \<times> store option" where
  "authenticate_request h commit_ok now auth_header db =
     (case get_db_session db of
        Inl e \<Rightarrow> (Inl e, db)
      | Inr s \<Rightarrow>
        (case extract_bearer_token auth_header of
           Inl e \<Rightarrow> (Inl e, db)
         | Inr token \<Rightarrow>
           (let token_hash = hash_api_key h token
            in case one_or_none (keys_with_hash token_hash s) of
                 Inl e \<Rightarrow> (Inl e, db)
               | Inr None \<Rightarrow> (Inl invalid_key_error, db)
               | Inr (Some k) \<Rightarrow>
                   if \<not> verify_api_key h token (k_hash k) then (Inl invalid_key_error, db)
                   else if k_revoked_at k \<noteq> None then (Inl revoked_key_error, db)
                   else if expired k now then (Inl expired_key_error, db)
                   else
                     let (k, s) =
                       (if commit_ok
                        then (k\<lparr> k_last_used_at := Some now \<rparr>,
                              update_key (k_id k) (\<lambda>k. k\<lparr> k_last_used_at := Some now \<rparr>) s)
                        else (k, s))
                     in (principal_from_api_key_with_session k s, Some s))))"

definition authenticate_with_orm ::
  "(string \<Rightarrow> string) \<Rightarrow> bool \<Rightarrow> datetime \<Rightarrow> string option \<Rightarrow> store option
     \<Rightarrow> (exn + principal \<times> api_key \<times> client) \<times> store option" where
  "authenticate_with_orm h commit_ok now auth_header db =
     (case get_db_session db of
        Inl e \<Rightarrow> (Inl e, db)
      | Inr s \<Rightarrow>
        (case extract_bearer_token auth_header of
           Inl e \<Rightarrow> (Inl e, db)
         | Inr token \<Rightarrow>
           (let token_hash = hash_api_key h token
            in case one_or_none (keys_with_hash token_hash s) of
                 Inl e \<Rightarrow> (Inl e, db)
               | Inr None \<Rightarrow> (Inl invalid_key_error, db)
               | Inr (Some k) \<Rightarrow>
                   if \<not> verify_api_key h token (k_hash k) then (Inl invalid_key_error, db)
                   else if k_revoked_at k \<noteq> None then (Inl revoked_key_error, db)
                   else if expired k now then (Inl expired_key_error, db)
                   else
                     let (k, s) =
                       (if commit_ok
                        then (k\<lparr> k_last_used_at := Some now \<rparr>,
                              update_key (k_id k) (\<lambda>k. k\<lparr> k_last_used_at := Some now \<rparr>) s)
                        else (k, s))
                     in (case principal_from_api_key_with_session k s of
                           Inl e \<Rightarrow> (Inl e, Some s)
                         | Inr p \<Rightarrow>
                             (case key_client k s of
                                Inl e \<Rightarrow> (Inl e, Some s)
                              | Inr c \<Rightarrow> (Inr (p, k, c), Some s))))))"

section \<open>The contract of a key directory\<close>

lemma principal_from_api_key_raises: "\<exists>e. principal_from_api_key k s = Inl e"
  by (auto simp: principal_from_api_key_def load_allowed_models_def split: sum.splits)

text \<open>What is logged of a generated token is its visible prefix, which holds none of its secret's
  characters: tokens that differ in the secret only are logged alike.\<close>

lemma safe_prefix_hides:
  assumes "length prefix = prefix_random_len"
  shows "safe_prefix (prefix_namespace @ ''_'' @ prefix @ ''_'' @ secret) = prefix_namespace @ ''_'' @ prefix"
  using assms by (simp add: safe_prefix_def visible_prefix_def visible_prefix_len_def)

locale key_directory =
  fixes keys :: "'s \<Rightarrow> 'k set"
    and hash_of :: "'k \<Rightarrow> 'h"
    and find :: "'h \<Rightarrow> 's \<Rightarrow> 'e + 'k option"
    and add :: "'k \<Rightarrow> 's \<Rightarrow> 'e + 's"
  assumes find_sound: "find h s = Inr (Some k) \<Longrightarrow> k \<in> keys s \<and> hash_of k = h"
    and find_none: "find h s = Inr None \<Longrightarrow> k \<in> keys s \<Longrightarrow> hash_of k \<noteq> h"
    and find_added:
      "add k s = Inr s' \<Longrightarrow> \<forall>k'\<in>keys s. hash_of k' \<noteq> hash_of k \<Longrightarrow> find (hash_of k) s' = Inr (Some k)"
    and find_other: "add k s = Inr s' \<Longrightarrow> h \<noteq> hash_of k \<Longrightarrow> find h s' = find h s"
begin

definition add_all :: "'k list \<Rightarrow> 's \<Rightarrow> 'e + 's" where
  "add_all ks s = fold_res add ks s"

lemma add_all_other:
  "add_all ks s = Inr s' \<Longrightarrow> h \<notin> hash_of ` set ks \<Longrightarrow> find h s' = find h s"
proof (induction ks arbitrary: s)
  case (Cons k ks)
  then obtain t where "add k s = Inr t" "add_all ks t = Inr s'"
    by (auto simp: add_all_def split: sum.splits)
  with Cons show ?case using find_other by simp
qed (simp add: add_all_def)

text \<open>A key stays findable while keys with other hashes come in.\<close>

lemma find_after_adds:
  assumes "add k s = Inr t" "\<forall>k'\<in>keys s. hash_of k' \<noteq> hash_of k"
    "add_all ks t = Inr s'" "hash_of k \<notin> hash_of ` set ks"
  shows "find (hash_of k) s' = Inr (Some k)"
  using find_added [OF assms(1,2)] add_all_other [OF assms(3,4)] by simp

lemma find_unique:
  assumes "find (hash_of k) s = Inr r" "k \<in> keys s"
  shows "\<exists>k'. r = Some k' \<and> k' \<in> keys s \<and> hash_of k' = hash_of k"
  using assms find_none find_sound by (cases r) blast+

end

definition find_key :: "string \<Rightarrow> store \<Rightarrow> exn + api_key option" where
  "find_key hs s = one_or_none (keys_with_hash hs s)"

interpretation key_store: key_directory "\<lambda>s. set (api_keys s)" k_hash find_key insert_key
proof unfold_locales
  fix hs s k
  assume "find_key hs s = Inr (Some k)"
  then show "k \<in> set (api_keys s) \<and> k_hash k = hs"
    unfolding find_key_def keys_with_hash_def one_or_none_simps by (rule filter_singletonD)
next
  fix hs s k
  assume "find_key hs s = Inr None" "k \<in> set (api_keys s)"
  then show "k_hash k \<noteq> hs"
    by (simp add: find_key_def keys_with_hash_def one_or_none_simps filter_empty_conv)
next
  fix k s s'
  assume "insert_key k s = Inr s'" "\<forall>k'\<in>set (api_keys s). k_hash k' \<noteq> k_hash k"
  then show "find_key (k_hash k) s' = Inr (Some k)"
    by (auto simp: find_key_def keys_with_hash_def insert_key_def one_or_none_simps
        filter_empty_conv split: if_splits)
next
  fix k s s' and hs :: string
  assume "insert_key k s = Inr s'" "hs \<noteq> k_hash k"
  then show "find_key hs s' = find_key hs s"
    by (auto simp: find_key_def keys_with_hash_def insert_key_def split: if_splits)
qed

section \<open>What the dependencies do\<close>

lemma extract_bearer:
  assumes "is_valid_format t" "\<And>c. c \<in> set t \<Longrightarrow> \<not> py_space c"
  shows "extract_bearer_token (Some (''Bearer '' @ t)) = Inr t"
proof -
  have t: "t \<noteq> []" using assms(1) by (auto simp: is_valid_format_def)
  then have "\<not> py_space (hd t)" using assms(2) by simp
  then have "dropWhile py_space t = t" by (simp add: dropWhile_eq_self_iff)
  moreover have "dropWhile py_space (CHR '' '' # t) = dropWhile py_space t"
    by (simp add: py_space_def)
  moreover have "\<not> py_space (CHR ''B'')" "\<not> py_space (CHR ''e'')" "\<not> py_space (CHR ''a'')"
    "\<not> py_space (CHR ''r'')" "py_space (CHR '' '')"
    by (simp_all add: py_space_def)
  ultimately have "split_ws1 (''Bearer '' @ t) = [''Bearer'', t]"
    using t by (simp add: split_ws1_def Let_def py_lstrip_def)
  moreover have "py_lower ''Bearer'' = ''bearer''"
    by code_simp
  ultimately show ?thesis
    using t assms strip_no_space [of t]
    by (simp add: extract_bearer_token_def Let_def)
qed

lemma extract_bearer_valid: "extract_bearer_token hdr = Inr t \<Longrightarrow> is_valid_format t"
  by (auto simp: extract_bearer_token_def Let_def split: option.splits if_splits)

text \<open>The key the dependencies settle on, and the store they leave.\<close>

definition key_usable :: "api_key \<Rightarrow> datetime \<Rightarrow> bool" where
  "key_usable k now \<longleftrightarrow> k_revoked_at k = None \<and> \<not> expired k now"

definition touched :: "bool \<Rightarrow> datetime \<Rightarrow> string \<Rightarrow> store \<Rightarrow> store" where
  "touched ok now i s = (if ok then update_key i (\<lambda>k. k\<lparr> k_last_used_at := Some now \<rparr>) s else s)"

lemma models_of_client_update [simp]: "models_of_client i (update_key j f s) = models_of_client i s"
  by (simp add: models_of_client_def)

lemma principal_update_key [simp]:
  "principal_from_api_key_with_session (k\<lparr> k_last_used_at := x \<rparr>) (update_key i f s) =
     principal_from_api_key_with_session k s"
  by (simp add: principal_from_api_key_with_session_def key_client_def client_user_def
      clients_with_id_def users_with_id_def cong: sum.case_cong option.case_cong)

lemma key_client_update [simp]:
  "key_client (k\<lparr> k_last_used_at := x \<rparr>) (update_key i f s) = key_client k s"
  by (simp add: key_client_def clients_with_id_def cong: sum.case_cong option.case_cong)

lemma authenticate_Inr:
  "authenticate_request h ok now hdr (Some s) = (Inr p, db') \<longleftrightarrow>
     (\<exists>t k. extract_bearer_token hdr = Inr t \<and> find_key (h t) s = Inr (Some k) \<and>
        key_usable k now \<and> principal_from_api_key_with_session k s = Inr p \<and>
        db' = Some (touched ok now (k_id k) s))"
  using key_store.find_sound
  by (auto simp: authenticate_request_def get_db_session_def hash_api_key_def verify_api_key_def
      key_usable_def touched_def find_key_def Let_def split: sum.splits option.splits if_splits)

lemma authenticate_store:
  assumes "authenticate_request h ok now hdr (Some s) = (r, db')"
  shows "db' = Some s \<or> (\<exists>k. k \<in> set (api_keys s) \<and> db' = Some (touched ok now (k_id k) s))"
  using assms key_store.find_sound
  by (auto simp: authenticate_request_def get_db_session_def touched_def find_key_def Let_def
      split: sum.splits option.splits if_splits)

lemma touched_later: "keys_later s (touched ok now i s)"
  by (cases ok) (auto simp: touched_def key_later_def intro: keys_later_update keys_later_same)

lemma touched_ok: "store_ok s \<Longrightarrow> store_ok (touched ok now i s)"
  by (simp add: touched_def store_ok_update_key)

lemma principal_fields:
  assumes "principal_from_api_key_with_session k s = Inr p"
  shows "p_api_key_id p = k_id k" "p_client_id p = k_client_id k" "p_api_key_prefix p = k_prefix k"
    "p_allowed_models p = (let ms = models_of_client (k_client_id k) s in if ms = [] then None else Some ms)"
    "\<exists>c\<in>set (clients s). c_id c = k_client_id k \<and> p_client_name p = c_name c \<and>
       p_user_id p = c_user_id c \<and> (\<exists>u\<in>set (users s). u_id u = c_user_id c \<and> p_user_name p = u_name u)"
proof -
  obtain c u where c: "clients_with_id (k_client_id k) s = [c]" and u: "users_with_id (c_user_id c) s = [u]"
    and p: "p = \<lparr> p_user_id = u_id u, p_user_name = u_name u, p_client_id = c_id c,
                        p_client_name = c_name c, p_api_key_id = k_id k,
                        p_api_key_prefix = k_prefix k, p_allowed_models =
              (if models_of_client (c_id c) s \<noteq> [] then Some (models_of_client (c_id c) s) else None) \<rparr>"
    using assms
    by (auto simp: principal_from_api_key_with_session_def key_client_def client_user_def Let_def
        one_or_none_simps split: sum.splits option.splits)
  have "c \<in> set (clients s)" "c_id c = k_client_id k" "u \<in> set (users s)" "u_id u = c_user_id c"
    using clients_with_id_in [OF c] users_with_id_in [OF u] by auto
  then show "p_api_key_id p = k_id k" "p_client_id p = k_client_id k" "p_api_key_prefix p = k_prefix k"
    "p_allowed_models p = (let ms = models_of_client (k_client_id k) s in if ms = [] then None else Some ms)"
    "\<exists>c\<in>set (clients s). c_id c = k_client_id k \<and> p_client_name p = c_name c \<and>
       p_user_id p = c_user_id c \<and> (\<exists>u\<in>set (users s). u_id u = c_user_id c \<and> p_user_name p = u_name u)"
    by (auto simp: p Let_def)
qed

lemma principal_exists:
  assumes "store_ok s" "k \<in> set (api_keys s)"
  obtains p where "principal_from_api_key_with_session k s = Inr p"
proof -
  obtain c where c: "c \<in> set (clients s)" "c_id c = k_client_id k"
    using assms by (auto simp: store_ok_def)
  obtain u where u: "u \<in> set (users s)" "u_id u = c_user_id c"
    using assms(1) c by (auto simp: store_ok_def)
  have "clients_with_id (k_client_id k) s = [c]" "users_with_id (c_user_id c) s = [u]"
    using get_client_exact [OF assms(1) c(1)] get_user_exact [OF assms(1) u(1)] c u
    by (simp_all add: get_client_Inr get_user_Inr)
  then have "\<exists>p. principal_from_api_key_with_session k s = Inr p"
    by (simp add: principal_from_api_key_with_session_def key_client_def client_user_def Let_def)
  with that show ?thesis by blast
qed

lemma principal_client:
  "principal_from_api_key_with_session k s = Inr p \<Longrightarrow> \<exists>c. key_client k s = Inr c \<and> c_id c = p_client_id p"
  by (auto simp: principal_from_api_key_with_session_def Let_def split: sum.splits)

lemma authenticate_with_orm_Inr:
  assumes "authenticate_with_orm h ok now hdr db = (Inr (p, k, c), db')"
  obtains s t k0 where "db = Some s" "extract_bearer_token hdr = Inr t" "find_key (h t) s = Inr (Some k0)"
    "key_usable k0 now" "principal_from_api_key_with_session k0 s = Inr p" "key_client k0 s = Inr c"
    "k = (if ok then k0\<lparr> k_last_used_at := Some now \<rparr> else k0)" "db' = Some (touched ok now (k_id k0) s)"
  using assms key_store.find_sound
  by (auto simp: authenticate_with_orm_def get_db_session_def hash_api_key_def verify_api_key_def
      key_usable_def touched_def find_key_def Let_def split: sum.splits option.splits if_splits)

lemma authenticate_with_orm_store:
  assumes "authenticate_with_orm h ok now hdr db = (r, db')"
  shows "db' = db \<or> (\<exists>s k. db = Some s \<and> k \<in> set (api_keys s) \<and> db' = Some (touched ok now (k_id k) s))"
  using assms key_store.find_sound
  by (auto simp: authenticate_with_orm_def get_db_session_def touched_def find_key_def Let_def
      split: sum.splits option.splits if_splits)

section \<open>The store while keys are managed and used\<close>

inductive auth_reach :: "(string \<Rightarrow> string) \<Rightarrow> store \<Rightarrow> store \<Rightarrow> bool" for h where
  auth_refl: "auth_reach h s s"
| auth_svc: "auth_reach h s t \<Longrightarrow> svc_step h t u \<Longrightarrow> auth_reach h s u"
| auth_request: "auth_reach h s t \<Longrightarrow> authenticate_request h ok now hdr (Some t) = (r, Some u) \<Longrightarrow>
    auth_reach h s u"

lemma authenticate_later:
  "authenticate_request h ok now hdr (Some t) = (r, Some u) \<Longrightarrow> keys_later t u"
  by (drule authenticate_store) (auto intro: touched_later keys_later_same)

lemma authenticate_ok:
  "authenticate_request h ok now hdr (Some t) = (r, Some u) \<Longrightarrow> store_ok t \<Longrightarrow> store_ok u"
  by (drule authenticate_store) (auto intro: touched_ok)

lemma auth_reach_later: "auth_reach h s t \<Longrightarrow> keys_later s t"
  by (induction rule: auth_reach.induct)
    (blast intro: keys_later_same keys_later_trans svc_step_later authenticate_later)+

lemma auth_reach_ok: "auth_reach h s t \<Longrightarrow> store_ok s \<Longrightarrow> store_ok t"
  by (induction rule: auth_reach.induct) (blast intro: svc_step_ok authenticate_ok)+

lemma fresh_key_authenticates:
  assumes "store_ok s" "rng_ok r"
    "create_api_key h r ci n ex kid t0 s = Inr ((k, t), s')"
    "\<forall>k'\<in>set (api_keys s). k_hash k' \<noteq> h t" "\<forall>e. ex = Some e \<longrightarrow> now < e"
  shows "\<exists>p db'. authenticate_request h ok now (Some (''Bearer '' @ t)) (Some s') = (Inr p, db') \<and>
    p_api_key_id p = kid \<and> p_client_id p = ci"
proof -
  obtain pr hs where g: "generate_api_key h r = (t, pr, hs)"
    using assms(3) unfolding create_api_key_Inr by (elim conjE exE) (rule that)
  note row = create_api_key_row [OF assms(3)]
  have tok: "extract_bearer_token (Some (''Bearer '' @ t)) = Inr t"
    by (rule extract_bearer [OF generated_valid [OF assms(2) g] generated_no_space [OF assms(2) g]])
  have "find_key (k_hash k) s' = Inr (Some k)"
    by (rule key_store.find_added [OF row(1)]) (use assms(4) row(7) in auto)
  moreover have "key_usable k now"
    using row(5,6) assms(5) by (auto simp: key_usable_def expired_def split: option.splits)
  moreover obtain p where p: "principal_from_api_key_with_session k s' = Inr p"
    using principal_exists [OF create_api_key_ok [OF assms(3,1)], of k] key_store.find_sound [OF calculation(1)]
    by blast
  ultimately have auth: "authenticate_request h ok now (Some (''Bearer '' @ t)) (Some s') =
      (Inr p, Some (touched ok now (k_id k) s'))"
    unfolding authenticate_Inr row(7) using tok by blast
  have "p_api_key_id p = kid" "p_client_id p = ci"
    using principal_fields(1,2) [OF p] row(3,4) by simp_all
  with auth show ?thesis by blast
qed

section \<open>Properties\<close>

text \<open>C10: Authentication is sound: a principal is returned only for a bearer token of valid format
  whose hash is that of a stored key which is neither revoked nor expired at that time; the
  principal's ids are those of the key's rows, and it may use exactly the models allowed to the
  client, or every model when the client has no such row.\<close>

theorem auth_sound:
  assumes "authenticate_request h ok now hdr (Some s) = (Inr p, db')"
  shows "\<exists>t. \<exists>k\<in>set (api_keys s). extract_bearer_token hdr = Inr t \<and> is_valid_format t \<and> k_hash k = h t \<and>
    k_revoked_at k = None \<and> (\<forall>e. k_expires_at k = Some e \<longrightarrow> now < e) \<and>
    p_api_key_id p = k_id k \<and> p_client_id p = k_client_id k \<and>
    (\<forall>m. can_use_model p m \<longleftrightarrow>
       models_of_client (k_client_id k) s = [] \<or> m \<in> set (models_of_client (k_client_id k) s))"
proof -
  obtain t k where t: "extract_bearer_token hdr = Inr t" and k: "find_key (h t) s = Inr (Some k)"
    and u: "key_usable k now" and p: "principal_from_api_key_with_session k s = Inr p"
    using assms unfolding authenticate_Inr by blast
  have "k_revoked_at k = None" "\<forall>e. k_expires_at k = Some e \<longrightarrow> now < e"
    using u by (auto simp: key_usable_def expired_def)
  with key_store.find_sound [OF k] extract_bearer_valid [OF t] t principal_fields [OF p]
  show ?thesis by (auto simp: can_use_model_def Let_def)
qed

text \<open>A fresh key works: the token that creation returned, sent as a bearer token before the key
  expires, authenticates as the client it was created for, unless a stored key has the same hash.\<close>

lemma new_key_authenticates:
  assumes "store_ok s" "rng_ok r"
    "create_api_key h r ci n ex kid t0 s = Inr ((k, t), s')"
    "\<forall>k'\<in>set (api_keys s). k_hash k' \<noteq> h t" "\<forall>e. ex = Some e \<longrightarrow> now < e"
  shows "\<exists>p db'. authenticate_request h ok now (Some (''Bearer '' @ t)) (Some s') = (Inr p, db') \<and>
    p_api_key_id p = kid \<and> p_client_id p = ci"
  using assms by (rule fresh_key_authenticates)

text \<open>A revoked key stays out: after a revocation, whatever the service and authentication do
  next, no request at any later time authenticates as that key, and its own token is refused.\<close>

lemma revoked_key_refused:
  assumes "store_ok s" "revoke_api_key i t0 s = Inr (k, s1)" "auth_reach h s1 s2"
  shows "(\<forall>ok now hdr p db'. authenticate_request h ok now hdr (Some s2) = (Inr p, db') \<longrightarrow>
      p_api_key_id p \<noteq> i) \<and>
    (\<forall>ok now hdr t. extract_bearer_token hdr = Inr t \<and> h t = k_hash k \<longrightarrow>
      (\<exists>e. authenticate_request h ok now hdr (Some s2) = (Inl e, Some s2)))"
proof -
  have k: "k_id k = i" "k_revoked_at k \<noteq> None" "k \<in> set (api_keys s1)"
    using assms(2) keys_with_id_in [of i s k]
    by (cases rule: revoke_api_key_row; auto simp: update_key_def dest!: keys_with_id_in)+
  have ok2: "store_ok s2"
    by (rule auth_reach_ok [OF assms(3) revoke_api_key_ok [OF assms(2,1)]])
  obtain k2 where k2: "k2 \<in> set (api_keys s2)" "k_id k2 = i" "k_revoked_at k2 \<noteq> None"
    "k_hash k2 = k_hash k"
    using auth_reach_later [OF assms(3)] k unfolding keys_later_def key_later_def by fastforce
  have "p_api_key_id p \<noteq> i"
    if auth: "authenticate_request h ok now hdr (Some s2) = (Inr p, db')" for ok now hdr p db'
  proof
    assume i: "p_api_key_id p = i"
    obtain t k' where f: "find_key (h t) s2 = Inr (Some k')" and u: "key_usable k' now"
      and p: "principal_from_api_key_with_session k' s2 = Inr p"
      using auth unfolding authenticate_Inr by blast
    have "k' \<in> set (api_keys s2)" using key_store.find_sound [OF f] ..
    moreover have "k_id k' = k_id k2" using principal_fields(1) [OF p] i k2(2) by simp
    ultimately have "k' = k2" by (intro key_by_id [OF ok2 _ k2(1)])
    with u k2(3) show False by (simp add: key_usable_def)
  qed
  moreover have "\<exists>e. authenticate_request h ok now hdr (Some s2) = (Inl e, Some s2)"
    if t: "extract_bearer_token hdr = Inr t" "h t = k_hash k" for ok now hdr t
  proof (cases "one_or_none (keys_with_hash (h t) s2)")
    case (Inl e)
    with t show ?thesis
      by (simp add: authenticate_request_def get_db_session_def hash_api_key_def Let_def)
  next
    case (Inr r)
    then have "find_key (k_hash k2) s2 = Inr r" using t k2(4) by (simp add: find_key_def)
    then obtain k' where k': "r = Some k'" "k_hash k' = k_hash k2" "k' \<in> set (api_keys s2)"
      using key_store.find_unique [OF _ k2(1)] by blast
    have "keys_with_hash (h t) s2 = [k']" using Inr k'(1) by (simp add: one_or_none_simps)
    moreover have "k2 \<in> set (keys_with_hash (h t) s2)"
      using k2(1,4) t(2) by (simp add: keys_with_hash_def)
    ultimately have "k' = k2" by simp
    with Inr k' k2 t show ?thesis
      by (auto simp: authenticate_request_def get_db_session_def hash_api_key_def verify_api_key_def Let_def)
  qed
  ultimately show ?thesis by blast
qed

text \<open>The two dependencies agree: on every input they make the same decision, raise the same
  error and write the same, and the extra rows of the second are those of the principal.\<close>

lemma auth_dependencies_agree:
  "authenticate_request h ok now hdr db =
     (case authenticate_with_orm h ok now hdr db of
        (Inl e, db') \<Rightarrow> (Inl e, db')
      | (Inr (p, k, c), db') \<Rightarrow> (Inr p, db')) \<and>
   (case authenticate_with_orm h ok now hdr db of
      (Inl e, db') \<Rightarrow> True
    | (Inr (p, k, c), db') \<Rightarrow> k_id k = p_api_key_id p \<and> c_id c = p_client_id p)"
proof
  show "authenticate_request h ok now hdr db =
     (case authenticate_with_orm h ok now hdr db of
        (Inl e, db') \<Rightarrow> (Inl e, db')
      | (Inr (p, k, c), db') \<Rightarrow> (Inr p, db'))"
    unfolding authenticate_request_def authenticate_with_orm_def
    by (auto simp: Let_def split: sum.splits option.splits dest: principal_client)
next
  have "k_id k = p_api_key_id p \<and> c_id c = p_client_id p"
    if "authenticate_with_orm h ok now hdr db = (Inr (p, k, c), db')" for p k c db'
  proof -
    from that obtain k0 s0 where p: "principal_from_api_key_with_session k0 s0 = Inr p"
      and c: "key_client k0 s0 = Inr c" and "k_id k = k_id k0"
      unfolding authenticate_with_orm_def
      by (auto simp: Let_def split: sum.splits option.splits if_splits)
    then show ?thesis using principal_fields(1) [OF p] principal_client [OF p] by auto
  qed
  then show "case authenticate_with_orm h ok now hdr db of
      (Inl e, db') \<Rightarrow> True
    | (Inr (p, k, c), db') \<Rightarrow> k_id k = p_api_key_id p \<and> c_id c = p_client_id p"
    by (auto split: prod.split sum.split)
qed

definition sample_request_key :: "(api_key \<times> string) \<times> store" where
  "sample_request_key =
     (case create_api_key id sample_rng ''c1'' ''second'' None ''k2'' 5 sample_store of Inr r \<Rightarrow> r)"

lemma sample_created:
  "create_api_key id sample_rng ''c1'' ''second'' None ''k2'' 5 sample_store = Inr sample_request_key"
  by (simp add: sample_request_key_def create_api_key_def Let_def get_client_def
      clients_with_id_def sample_store_def empty_store_def insert_key_def py_defs split: prod.split)

lemma new_key_authenticates_witness:
  "\<exists>p db'. authenticate_request id True 6
     (Some (''Bearer '' @ snd (fst sample_request_key))) (Some (snd sample_request_key)) = (Inr p, db') \<and>
     p_api_key_id p = ''k2'' \<and> p_client_id p = ''c1''"
proof -
  obtain k t s' where kt: "sample_request_key = ((k, t), s')" by (metis surj_pair)
  note c = sample_created [unfolded kt]
  have "is_valid_format t" using create_api_key_row(8) [OF c] sample_rng_ok by simp
  then have "t \<noteq> ''x''" by (auto simp: is_valid_format_def numeral_3_eq_3)
  then have "\<forall>k'\<in>set (api_keys sample_store). k_hash k' \<noteq> id t"
    by (simp add: sample_store_def)
  then show ?thesis
    using new_key_authenticates [OF sample_store_ok sample_rng_ok c] by (simp add: kt)
qed

theorem auth_sound_witness:
  "\<exists>p. (\<exists>db'. authenticate_request id True 6
      (Some (''Bearer '' @ snd (fst sample_request_key))) (Some (snd sample_request_key)) = (Inr p, db')) \<and>
     (\<exists>k\<in>set (api_keys (snd sample_request_key)). k_revoked_at k = None \<and> p_client_id p = k_client_id k)"
proof -
  obtain k t s' where kt: "sample_request_key = ((k, t), s')" by (metis surj_pair)
  note c = sample_created [unfolded kt]
  have valid: "is_valid_format t" using create_api_key_row(8) [OF c] sample_rng_ok by simp
  then have "t \<noteq> ''x''" by (auto simp: is_valid_format_def numeral_3_eq_3)
  then have "\<forall>k'\<in>set (api_keys sample_store). k_hash k' \<noteq> id t"
    by (simp add: sample_store_def)
  then obtain p db' where a: "authenticate_request id True 6 (Some (''Bearer '' @ t)) (Some s') = (Inr p, db')"
    using fresh_key_authenticates [OF sample_store_ok sample_rng_ok c, of 6 True] by blast
  show ?thesis
    using auth_sound [OF a] a by (auto simp: kt)
qed

lemma revoked_key_refused_witness:
  "\<exists>k s1. revoke_api_key ''k1'' 5 sample_store = Inr (k, s1) \<and>
     (\<forall>ok now hdr p db'. authenticate_request id ok now hdr (Some s1) = (Inr p, db') \<longrightarrow>
        p_api_key_id p \<noteq> ''k1'')"
proof -
  have "\<exists>k s1. revoke_api_key ''k1'' 5 sample_store = Inr (k, s1)"
    by (simp add: revoke_api_key_def get_api_key_def keys_with_id_def sample_store_def)
  then obtain k s1 where r: "revoke_api_key ''k1'' 5 sample_store = Inr (k, s1)" by blast
  show ?thesis
    using revoked_key_refused [OF sample_store_ok r auth_refl [of id], THEN conjunct1] r by blast
qed

end
