(* ===== verification/Usage.thy ===== *)
theory Usage
  imports Store RateLimit
begin

text \<open>
  Rate limits, quotas and usage: the policy resolution of \<open>app/core/policy.py\<close> and the service of
  \<open>app/services/usage.py\<close>.  The limiter's state and the store are passed along; the monotonic
  clock and the readings of the wall clock are arguments, one per reading.  What the service
  needs of the limiter is the locale \<open>rate_gate\<close>.
\<close>

section \<open>Effective policies\<close>

record effective_policy =
  requests_per_minute :: int
  requests_per_day :: int
  tokens_per_day :: int

definition resolve :: "int option \<Rightarrow> int option \<Rightarrow> int \<Rightarrow> int" where
  "resolve key_value client_value default_value =
     (case key_value of
        Some v \<Rightarrow> max 0 v
      | None \<Rightarrow> (case client_value of Some v \<Rightarrow> max 0 v | None \<Rightarrow> max 0 default_value))"

record usage_service =
  default_rpm :: int
  default_rpd :: int
  default_tpd :: int

definition resolve_policy :: "api_key \<Rightarrow> client \<Rightarrow> int \<Rightarrow> int \<Rightarrow> int \<Rightarrow> effective_policy" where
  "resolve_policy k c rpm rpd tpd =
     \<lparr> requests_per_minute = resolve (k_rpm k) (c_rpm c) rpm,
       requests_per_day = resolve (k_rpd k) (c_rpd c) rpd,
       tokens_per_day = resolve (k_tpd k) (c_tpd c) tpd \<rparr>"

definition effective_policy :: "usage_service \<Rightarrow> api_key \<Rightarrow> client \<Rightarrow> effective_policy" where
  "effective_policy sv k c = resolve_policy k c (default_rpm sv) (default_rpd sv) (default_tpd sv)"

section \<open>Counting the day\<close>

definition day_start :: "datetime \<Rightarrow> datetime" where
  \<comment> \<open>\<open>datetime(now.year, now.month, now.day)\<close>\<close>
  "day_start now = now - now mod day_us"

definition today_of :: "string \<Rightarrow> datetime \<Rightarrow> usage_record list \<Rightarrow> usage_record list" where
  "today_of key_id now rs =
     filter (\<lambda>r. r_api_key_id r = Some key_id \<and> day_start now \<le> r_started_at r \<and>
                 r_started_at r < day_start now + day_us) rs"

definition count_requests_today :: "store \<Rightarrow> string \<Rightarrow> datetime \<Rightarrow> int" where
  "count_requests_today s key_id now = int (length (today_of key_id now (usage_records s)))"

definition sum_some :: "('a \<Rightarrow> int option) \<Rightarrow> 'a list \<Rightarrow> int" where
  \<comment> \<open>the sum over the values that are not NULL\<close>
  "sum_some f rs = sum_list (map (\<lambda>r. case f r of None \<Rightarrow> 0 | Some n \<Rightarrow> n) rs)"

definition sum_tokens_today :: "store \<Rightarrow> string \<Rightarrow> datetime \<Rightarrow> int" where
  "sum_tokens_today s key_id now = sum_some r_total_tokens (today_of key_id now (usage_records s))"

section \<open>The check before a request\<close>

record quota_check_result =
  q_allowed :: bool
  q_rate_limit :: "rl_result option"

definition rate_limit_error :: exn where
  "rate_limit_error = Syn (raise_status RateLimitExceededErrorC ''request rate limit exceeded''
     ''rate_limit_exceeded'' 429)"

definition request_quota_error :: "int \<Rightarrow> int \<Rightarrow> exn" where
  "request_quota_error used limit = Syn (raise_status RequestQuotaExceededErrorC
     (''daily request quota exceeded ('' @ show_int used @ ''/'' @ show_int limit @ '')'')
     ''request_quota_exceeded'' 429)"

definition token_quota_error :: "int \<Rightarrow> int \<Rightarrow> exn" where
  "token_quota_error used limit = Syn (raise_status TokenQuotaExceededErrorC
     (''daily token quota exceeded ('' @ show_int used @ ''/'' @ show_int limit @ '')'')
     ''token_quota_exceeded'' 429)"

definition rate_key :: "api_key \<Rightarrow> string" where
  "rate_key k = ''rpm:'' @ k_id k"

definition precheck ::
  "usage_service \<Rightarrow> store \<Rightarrow> api_key \<Rightarrow> client \<Rightarrow> time \<Rightarrow> datetime \<Rightarrow> datetime \<Rightarrow> rate_limiter
     \<Rightarrow> (exn + quota_check_result) \<times> rate_limiter" where
  \<comment> \<open>\<open>tick\<close> is the limiter's clock, \<open>now1\<close> and \<open>now2\<close> the readings for the two quotas\<close>
  "precheck sv s k c tick now1 now2 rl =
     (let policy = effective_policy sv k c;
          (rate_result, rl) = check (rate_key k) (requests_per_minute policy) tick rl
      in if \<not> rl_allowed rate_result then (Inl rate_limit_error, rl)
         else
           let used_today = count_requests_today s (k_id k) now1
           in if requests_per_day policy > 0 \<and> used_today \<ge> requests_per_day policy
              then (Inl (request_quota_error used_today (requests_per_day policy)), rl)
              else
                let used_tokens = sum_tokens_today s (k_id k) now2
                in if tokens_per_day policy > 0 \<and> used_tokens \<ge> tokens_per_day policy
                   then (Inl (token_quota_error used_tokens (tokens_per_day policy)), rl)
                   else (Inr \<lparr> q_allowed = True, q_rate_limit = Some rate_result \<rparr>, rl))"

section \<open>Recording\<close>

definition completed :: string where "completed = ''completed''"
definition failed :: string where "failed = ''failed''"
definition cancelled :: string where "cancelled = ''cancelled''"
definition timed_out :: string where "timed_out = ''timed_out''"
definition rejected :: string where "rejected = ''rejected''"

record usage_args =
  a_request_id :: string
  a_model :: string
  a_streaming :: bool
  a_started_at :: datetime
  a_completed_at :: datetime
  a_outcome :: string
  a_prompt_tokens :: "int option"
  a_completion_tokens :: "int option"
  a_total_tokens :: "int option"
  a_queue_wait_ms :: "int option"
  a_error_code :: "string option"
  a_backend_latency_ms :: "int option"
  a_ttft_ms :: "int option"
  a_stream_duration_ms :: "int option"
  a_total_duration_ms :: "int option"
  a_backend_id :: "string option"

definition record_usage ::
  "string \<Rightarrow> api_key option \<Rightarrow> client option \<Rightarrow> usage_args \<Rightarrow> store \<Rightarrow> exn + usage_record \<times> store" where
  "record_usage rid k c a s =
     (let r = \<lparr> r_id = rid, r_request_id = a_request_id a,
                r_user_id = map_option c_user_id c, r_client_id = map_option c_id c,
                r_api_key_id = map_option k_id k, r_model = a_model a,
                r_streaming = (if a_streaming a then 1 else 0),
                r_started_at = a_started_at a, r_completed_at = Some (a_completed_at a),
                r_status = a_outcome a, r_prompt_tokens = a_prompt_tokens a,
                r_completion_tokens = a_completion_tokens a, r_total_tokens = a_total_tokens a,
                r_queue_wait_ms = a_queue_wait_ms a, r_error_code = a_error_code a,
                r_backend_latency_ms = a_backend_latency_ms a, r_ttft_ms = a_ttft_ms a,
                r_stream_duration_ms = a_stream_duration_ms a,
                r_total_duration_ms = a_total_duration_ms a, r_backend_id = a_backend_id a \<rparr>
      in (case insert_usage r s of Inl e \<Rightarrow> Inl e | Inr s' \<Rightarrow> Inr (r, s')))"

section \<open>Aggregation\<close>

record usage_summary =
  s_requests :: int
  s_successful :: int
  s_failed :: int
  s_cancelled :: int
  s_rejected :: int
  s_timed_out :: int
  s_unknown_usage :: int
  s_prompt_tokens :: int
  s_completion_tokens :: int
  s_total_tokens :: int

definition count_if :: "('a \<Rightarrow> bool) \<Rightarrow> 'a list \<Rightarrow> int" where
  "count_if P xs = int (length (filter P xs))"

definition unknown_usage :: "usage_record \<Rightarrow> bool" where
  "unknown_usage r \<longleftrightarrow>
     r_prompt_tokens r = None \<or> r_completion_tokens r = None \<or> r_total_tokens r = None"

definition summarize ::
  "string option \<Rightarrow> string option \<Rightarrow> datetime option \<Rightarrow> datetime option \<Rightarrow> datetime \<Rightarrow> store
     \<Rightarrow> usage_summary" where
  "summarize key_id client_id since until now s =
     (let since' = (case since of Some t \<Rightarrow> t | None \<Rightarrow> day_start now);
          until' = (case until of Some t \<Rightarrow> t | None \<Rightarrow> day_start now + day_us);
          q = filter (\<lambda>r. since' \<le> r_started_at r \<and> r_started_at r < until') (usage_records s);
          rows = (case key_id of
                    Some i \<Rightarrow> filter (\<lambda>r. r_api_key_id r = Some i) q
                  | None \<Rightarrow>
                      (case client_id of
                         Some i \<Rightarrow> filter (\<lambda>r. r_client_id r = Some i) q
                       | None \<Rightarrow> q))
      in \<lparr> s_requests = int (length rows),
           s_successful = count_if (\<lambda>r. r_status r = completed) rows,
           s_failed = count_if (\<lambda>r. r_status r = failed) rows,
           s_cancelled = count_if (\<lambda>r. r_status r = cancelled) rows,
           s_rejected = count_if (\<lambda>r. r_status r = rejected) rows,
           s_timed_out = count_if (\<lambda>r. r_status r = timed_out) rows,
           s_unknown_usage = count_if unknown_usage rows,
           s_prompt_tokens = sum_some r_prompt_tokens rows,
           s_completion_tokens = sum_some r_completion_tokens rows,
           s_total_tokens = sum_some r_total_tokens rows \<rparr>)"

section \<open>The contract of the rate limiter\<close>

locale rate_gate =
  fixes ask :: "'k \<Rightarrow> int \<Rightarrow> 't \<Rightarrow> 's \<Rightarrow> 'r \<times> 's"
    and passes :: "'r \<Rightarrow> bool"
  assumes unlimited: "l \<le> 0 \<Longrightarrow> passes (fst (ask k l t s)) \<and> snd (ask k l t s) = s"
    and other_key: "k \<noteq> k' \<Longrightarrow> fst (ask k l t (snd (ask k' l' t' s))) = fst (ask k l t s)"
begin

definition traffic :: "('k \<times> int \<times> 't) list \<Rightarrow> 's \<Rightarrow> 's" where
  "traffic cs s = fold (\<lambda>(k, l, t) s. snd (ask k l t s)) cs s"

text \<open>The traffic of other keys never changes an answer.\<close>

lemma traffic_of_others:
  assumes "k \<notin> fst ` set cs"
  shows "fst (ask k l t (traffic cs s)) = fst (ask k l t s)"
  using assms
proof (induction cs arbitrary: s)
  case (Cons c cs)
  obtain k' l' t' where c: "c = (k', l', t')" by (cases c)
  have "fst (ask k l t (traffic (c # cs) s)) = fst (ask k l t (traffic cs (snd (ask k' l' t' s))))"
    by (simp add: traffic_def c)
  also have "\<dots> = fst (ask k l t (snd (ask k' l' t' s)))"
    using Cons by simp
  also have "\<dots> = fst (ask k l t s)"
    using Cons.prems c by (intro other_key) auto
  finally show ?case .
qed (simp add: traffic_def)

end

lemma check_fst_cong:
  "map_of (windows r) k = map_of (windows r') k \<Longrightarrow> window_seconds r = window_seconds r' \<Longrightarrow>
     fst (check k l t r) = fst (check k l t r')"
  by (auto simp: check_def Let_def split: option.splits)

lemma check_other_window:
  "k \<noteq> k' \<Longrightarrow> map_of (windows (snd (check k' l t r))) k = map_of (windows r) k"
  by (auto simp: check_def Let_def split: option.splits)

interpretation limiter: rate_gate check rl_allowed
proof unfold_locales
  show "l \<le> 0 \<Longrightarrow> rl_allowed (fst (check k l t s)) \<and> snd (check k l t s) = s" for k l t s
    by (simp add: check_def)
  show "k \<noteq> k' \<Longrightarrow> fst (check k l t (snd (check k' l' t' s))) = fst (check k l t s)"
    for k k' l t l' t' s
    by (rule check_fst_cong) (simp_all add: check_other_window)
qed

section \<open>Lemmas\<close>

lemma precheck_fst:
  "fst (precheck sv s k c tick now1 now2 rl) =
     (let p = effective_policy sv k c;
          r = fst (check (rate_key k) (requests_per_minute p) tick rl);
          n = count_requests_today s (k_id k) now1;
          t = sum_tokens_today s (k_id k) now2
      in if \<not> rl_allowed r then Inl rate_limit_error
         else if requests_per_day p > 0 \<and> n \<ge> requests_per_day p
         then Inl (request_quota_error n (requests_per_day p))
         else if tokens_per_day p > 0 \<and> t \<ge> tokens_per_day p
         then Inl (token_quota_error t (tokens_per_day p))
         else Inr \<lparr> q_allowed = True, q_rate_limit = Some r \<rparr>)"
  by (simp add: precheck_def Let_def split_beta)

lemma precheck_snd:
  "snd (precheck sv s k c tick now1 now2 rl) =
     snd (check (rate_key k) (requests_per_minute (effective_policy sv k c)) tick rl)"
  by (simp add: precheck_def Let_def split_beta)

lemma rate_key_inj: "rate_key k = rate_key k' \<longleftrightarrow> k_id k = k_id k'"
  by (simp add: rate_key_def)

lemma record_usage_Inr:
  "record_usage rid k c a s = Inr (r, s') \<Longrightarrow>
     insert_usage r s = Inr s' \<and> usage_records s' = usage_records s @ [r] \<and>
     r_api_key_id r = map_option k_id k \<and> r_status r = a_outcome a \<and>
     r_started_at r = a_started_at a \<and> r_total_tokens r = a_total_tokens a"
  by (auto simp: record_usage_def insert_usage_def Let_def split: if_splits)

lemma count_if_partition:
  assumes "\<And>x. x \<in> set xs \<Longrightarrow> P x = (\<not> Q x)"
  shows "count_if P xs + count_if Q xs = int (length xs)"
  using assms by (induction xs) (auto simp: count_if_def)

lemma count_if_simps [simp]:
  "count_if P [] = 0"
  "count_if P (x # xs) = (if P x then 1 else 0) + count_if P xs"
  by (simp_all add: count_if_def)

lemma outcome_distinct [simp]:
  "completed \<noteq> failed" "completed \<noteq> cancelled" "completed \<noteq> rejected" "completed \<noteq> timed_out"
  "failed \<noteq> cancelled" "failed \<noteq> rejected" "failed \<noteq> timed_out"
  "cancelled \<noteq> rejected" "cancelled \<noteq> timed_out" "rejected \<noteq> timed_out"
  by (simp_all add: completed_def failed_def cancelled_def rejected_def timed_out_def)

lemma outcome_counts:
  assumes "\<forall>r\<in>set rs. r_status r \<in> {completed, failed, cancelled, rejected, timed_out}"
  shows "count_if (\<lambda>r. r_status r = completed) rs + count_if (\<lambda>r. r_status r = failed) rs +
      count_if (\<lambda>r. r_status r = cancelled) rs + count_if (\<lambda>r. r_status r = rejected) rs +
      count_if (\<lambda>r. r_status r = timed_out) rs = int (length rs)"
  using assms
proof (induction rs)
  case (Cons r rs)
  then consider "r_status r = completed" | "r_status r = failed" | "r_status r = cancelled"
    | "r_status r = rejected" | "r_status r = timed_out"
    by auto
  then show ?case
    using Cons by cases (simp_all add: outcome_distinct [symmetric])
qed simp

section \<open>Requests of a key in flight\<close>

text \<open>
  The handlers of one key over one day: a request passes the check before it starts, and its
  record is written when it ends.  \<open>in_flight\<close> counts the requests between the two.
\<close>

record day =
  d_store :: store
  d_limiter :: rate_limiter
  d_in_flight :: nat

inductive day_step :: "usage_service \<Rightarrow> api_key \<Rightarrow> client \<Rightarrow> datetime \<Rightarrow> nat \<Rightarrow> day \<Rightarrow> day \<Rightarrow> bool"
  for sv k c today M where
  day_start_request:
    "d_in_flight d < M \<Longrightarrow>
     precheck sv (d_store d) k c tick now1 now2 (d_limiter d) = (Inr q, rl) \<Longrightarrow>
     day_start now1 = today \<Longrightarrow>
     day_step sv k c today M d (d\<lparr> d_limiter := rl, d_in_flight := d_in_flight d + 1 \<rparr>)"
| day_refused:
    "precheck sv (d_store d) k c tick now1 now2 (d_limiter d) = (Inl e, rl) \<Longrightarrow>
     day_step sv k c today M d (d\<lparr> d_limiter := rl \<rparr>)"
| day_end_request:
    "d_in_flight d > 0 \<Longrightarrow> record_usage rid (Some k) (Some c) a (d_store d) = Inr (r, s) \<Longrightarrow>
     day_step sv k c today M d (d\<lparr> d_store := s, d_in_flight := d_in_flight d - 1 \<rparr>)"

inductive day_reach :: "usage_service \<Rightarrow> api_key \<Rightarrow> client \<Rightarrow> datetime \<Rightarrow> nat \<Rightarrow> day \<Rightarrow> day \<Rightarrow> bool"
  for sv k c today M where
  day_reach_refl: "day_reach sv k c today M d d"
| day_reach_step: "day_reach sv k c today M d d' \<Longrightarrow> day_step sv k c today M d' d'' \<Longrightarrow>
    day_reach sv k c today M d d''"

lemma count_cong_day: "day_start now = day_start now' \<Longrightarrow> count_requests_today s i now = count_requests_today s i now'"
  by (simp add: count_requests_today_def today_of_def)

lemma count_record:
  assumes "record_usage rid k c a s = Inr (r, s')"
  shows "count_requests_today s' i now \<le> count_requests_today s i now + 1"
  using record_usage_Inr [OF assms] by (auto simp: count_requests_today_def today_of_def)

lemma precheck_quota:
  assumes "precheck sv s k c tick now1 now2 rl = (Inr q, rl')"
    "requests_per_day (effective_policy sv k c) = L" "L > 0"
  shows "count_requests_today s (k_id k) now1 < L"
proof -
  have "fst (precheck sv s k c tick now1 now2 rl) = Inr q" using assms(1) by simp
  with assms(2,3) show ?thesis
    unfolding precheck_fst by (auto simp: Let_def split: if_splits)
qed

lemma day_step_bound:
  assumes "day_step sv k c (day_start now) M d d'" "requests_per_day (effective_policy sv k c) = L"
    "L > 0"
    "count_requests_today (d_store d) (k_id k) now + int (d_in_flight d) \<le> L + int M - 1"
  shows "count_requests_today (d_store d') (k_id k) now + int (d_in_flight d') \<le> L + int M - 1"
  using assms(1)
proof cases
  case (day_start_request tick now1 now2 q rl)
  have "count_requests_today (d_store d) (k_id k) now < L"
    using precheck_quota [OF day_start_request(3) assms(2,3)] count_cong_day day_start_request(4)
    by metis
  with day_start_request show ?thesis by simp
next
  case (day_end_request rid a r s)
  with count_record [OF day_end_request(3), of "k_id k" now] assms(4) show ?thesis by simp
qed (use assms(4) in simp)

lemma day_reach_bound:
  assumes "day_reach sv k c (day_start now) M d d'" "requests_per_day (effective_policy sv k c) = L"
    "L > 0"
    "count_requests_today (d_store d) (k_id k) now + int (d_in_flight d) \<le> L + int M - 1"
  shows "count_requests_today (d_store d') (k_id k) now + int (d_in_flight d') \<le> L + int M - 1"
  using assms(1,4)
  by (induction rule: day_reach.induct) (blast intro: day_step_bound [OF _ assms(2,3)])+

section \<open>Properties\<close>


text \<open>A key's check never depends on other keys' traffic: after any checks the limiter made
  for other keys, the answer is the one it gives without them.\<close>

lemma precheck_isolation:
  assumes "rate_key k \<notin> fst ` set cs"
  shows "fst (precheck sv s k c tick now1 now2 (limiter.traffic cs rl)) =
    fst (precheck sv s k c tick now1 now2 rl)"
  using limiter.traffic_of_others [OF assms] by (simp add: precheck_fst)


text \<open>Every record counts: whatever its outcome, rejected and timed out included, recording a
  request of a key started today uses one request of the key's daily quota.\<close>

lemma every_outcome_counts:
  assumes "record_usage rid (Some k) c a s = Inr (r, s')"
    "day_start now \<le> a_started_at a" "a_started_at a < day_start now + day_us"
  shows "count_requests_today s' (k_id k) now = count_requests_today s (k_id k) now + 1"
  using record_usage_Inr [OF assms(1)] assms(2,3)
  by (simp add: count_requests_today_def today_of_def)


definition sample_key :: api_key where
  "sample_key = \<lparr> k_id = ''k'', k_client_id = ''c'', k_name = [], k_prefix = [], k_hash = [],
     k_created_at = 0, k_expires_at = None, k_revoked_at = None, k_last_used_at = None,
     k_rpm = None, k_rpd = None, k_tpd = None \<rparr>"

definition sample_client :: client where
  "sample_client = \<lparr> c_id = ''c'', c_user_id = ''u'', c_name = [], c_description = None,
     c_status = ''active'', c_created_at = 0, c_updated_at = 0,
     c_rpm = None, c_rpd = Some 1, c_tpd = None \<rparr>"

definition sample_args :: "string \<Rightarrow> usage_args" where
  "sample_args outcome = \<lparr> a_request_id = ''r'', a_model = ''m'', a_streaming = False,
     a_started_at = 10, a_completed_at = 20, a_outcome = outcome, a_prompt_tokens = None,
     a_completion_tokens = None, a_total_tokens = None, a_queue_wait_ms = None,
     a_error_code = None, a_backend_latency_ms = None, a_ttft_ms = None,
     a_stream_duration_ms = None, a_total_duration_ms = None, a_backend_id = None \<rparr>"

definition sample_service :: usage_service where
  "sample_service = \<lparr> default_rpm = 0, default_rpd = 0, default_tpd = 0 \<rparr>"

lemma every_outcome_counts_witness:
  "\<exists>r s. record_usage ''1'' (Some sample_key) None (sample_args rejected) empty_store = Inr (r, s) \<and>
     count_requests_today s ''k'' 50 = 1"
proof -
  have "\<exists>r s. record_usage ''1'' (Some sample_key) None (sample_args rejected) empty_store = Inr (r, s)"
    by (simp add: record_usage_def insert_usage_def empty_store_def Let_def)
  then obtain r s where rs: "record_usage ''1'' (Some sample_key) None (sample_args rejected) empty_store = Inr (r, s)"
    by blast
  have "count_requests_today s (k_id sample_key) 50 = count_requests_today empty_store (k_id sample_key) 50 + 1"
    by (rule every_outcome_counts [OF rs]) (simp_all add: sample_args_def day_start_def day_us_def)
  then show ?thesis
    using rs by (simp add: count_requests_today_def today_of_def empty_store_def sample_key_def)
qed



lemma precheck_isolation_witness:
  "fst (precheck (sample_service\<lparr> default_rpm := 1 \<rparr>) empty_store sample_key sample_client 0 0 0
      (limiter.traffic [(''rpm:b'', 1, 0), (''rpm:b'', 1, 0)] (new_limiter 60))) =
   fst (precheck (sample_service\<lparr> default_rpm := 1 \<rparr>) empty_store sample_key sample_client 0 0 0
      (new_limiter 60))"
  by (rule precheck_isolation) (simp add: rate_key_def sample_key_def)

end
