(* ===== verification/RoutingConfig.thy ===== *)
theory RoutingConfig
  imports Errors
begin

text \<open>
  The routing configuration, \<open>app/routing/config.py\<close>: reading the file and validating the decoded
  object into backends and models.  The file system and the JSON decoder are arguments; the two
  loops of the validator are folds over the enumerated entries with the loop's variables as state.
\<close>

section \<open>The parsed configuration\<close>

datatype backend_type = LLAMA_CPP

fun backend_type_value :: "backend_type \<Rightarrow> string" where
  "backend_type_value LLAMA_CPP = ''llama_cpp''"

record backend_config =
  bc_id :: string
  bc_type :: backend_type
  bc_base_url :: string

record model_config =
  mc_id :: string
  mc_backend_id :: string
  mc_backend_model :: string
  mc_enabled :: bool
  mc_aliases :: "string list"
  mc_metadata :: "(json \<times> json) list"

record parsed_routing_config =
  pr_backends :: "backend_config list"
  pr_models :: "model_config list"

section \<open>Python's repr and dict\<close>

definition hex_digit :: "nat \<Rightarrow> char" where
  "hex_digit n = (if n < 10 then char_of (48 + n) else char_of (87 + n))"

definition repr_char :: "char \<Rightarrow> char \<Rightarrow> string" where
  "repr_char q c =
     (let n = of_char c :: nat
      in if c = q \<or> n = 92 then [char_of (92 :: nat), c]
         else if n = 10 then [char_of (92 :: nat), CHR ''n'']
         else if n = 13 then [char_of (92 :: nat), CHR ''r'']
         else if n = 9 then [char_of (92 :: nat), CHR ''t'']
         else if n < 32 \<or> (127 \<le> n \<and> n \<le> 160) \<or> n = 173
         then [char_of (92 :: nat), CHR ''x'', hex_digit (n div 16), hex_digit (n mod 16)]
         else [c])"

definition repr_str :: "string \<Rightarrow> string" where
  \<comment> \<open>single quotes, unless the text has one and no double quote\<close>
  "repr_str s =
     (let q = (if CHR 0x27 \<in> set s \<and> CHR 0x22 \<notin> set s then CHR 0x22 else CHR 0x27)
      in q # concat (map (repr_char q) s) @ [q])"

fun py_repr :: "json \<Rightarrow> string" where
  "py_repr JNull = ''None''"
| "py_repr (JBool b) = (if b then ''True'' else ''False'')"
| "py_repr (JInt i) = show_int i"
| "py_repr (JFloat r) = show_decimal r"
| "py_repr (JStr s) = repr_str s"
| "py_repr (JList xs) = ''['' @ join '', '' (map py_repr xs) @ '']''"
| "py_repr (JObj d) =
     ''{'' @ join '', '' (map (\<lambda>(k, v). repr_str k @ '': '' @ py_repr v) d) @ ''}''"

fun canon_key :: "json \<Rightarrow> json" where
  \<comment> \<open>equal numbers are equal keys, whatever their type\<close>
  "canon_key (JBool b) = JInt (if b then 1 else 0)"
| "canon_key (JFloat r) = (if r = of_int \<lfloor>r\<rfloor> then JInt \<lfloor>r\<rfloor> else JFloat r)"
| "canon_key v = v"

fun key_set :: "json \<Rightarrow> json \<Rightarrow> (json \<times> json) list \<Rightarrow> (json \<times> json) list" where
  "key_set k v [] = [(k, v)]"
| "key_set k v ((k', v') # d) =
     (if canon_key k = canon_key k' then (k', v) # d else (k', v') # key_set k v d)"

definition hashable :: "json \<Rightarrow> bool" where
  "hashable k = (case k of JList _ \<Rightarrow> False | JObj _ \<Rightarrow> False | _ \<Rightarrow> True)"

definition dict_item :: "json \<Rightarrow> (json \<times> json) list \<Rightarrow> exn + (json \<times> json) list" where
  \<comment> \<open>one element of the iterable given to \<open>dict\<close>\<close>
  "dict_item x d =
     (let add = (\<lambda>k v. if hashable k then Inr (key_set k v d) else Inl (PyError ''TypeError''));
          bad = Inl (PyError ''ValueError'')
      in (case x of
            JList [k, v] \<Rightarrow> add k v
          | JList _ \<Rightarrow> bad
          | JStr [a, b] \<Rightarrow> add (JStr [a]) (JStr [b])
          | JStr _ \<Rightarrow> bad
          | JObj [(k, _), (k', _)] \<Rightarrow> add (JStr k) (JStr k')
          | JObj _ \<Rightarrow> bad
          | _ \<Rightarrow> Inl (PyError ''TypeError'')))"

definition py_dict :: "json \<Rightarrow> exn + (json \<times> json) list" where
  \<comment> \<open>\<open>dict(x or {})\<close> of a decoded value\<close>
  "py_dict x =
     (if \<not> json_truthy x then Inr []
      else (case x of
          JObj d \<Rightarrow> Inr (map (\<lambda>(k, v). (JStr k, v)) d)
        | JList xs \<Rightarrow> fold_res dict_item xs []
        | JStr _ \<Rightarrow> Inl (PyError ''ValueError'')
        | _ \<Rightarrow> Inl (PyError ''TypeError'')))"

section \<open>Reading the file\<close>

definition config_error :: "string \<Rightarrow> exn" where
  "config_error msg = Syn (raise_code RoutingConfigErrorC msg ''routing_config_invalid'')"

definition load_routing_config ::
  "(exn + string) option \<Rightarrow> (string \<Rightarrow> string + json) \<Rightarrow> exn + (string \<times> json) list option" where
  \<comment> \<open>the file, absent or what reading it gives; the decoder, with the text of its error\<close>
  "load_routing_config p loads =
     (case p of
        None \<Rightarrow> Inr None
      | Some read \<Rightarrow>
          (case read of
             Inl e \<Rightarrow> Inl e
           | Inr contents \<Rightarrow>
               let t = py_strip contents
               in if t = [] then Inr None
                  else (case loads t of
                      Inl msg \<Rightarrow> Inl (config_error (''routing config is not valid JSON: '' @ msg))
                    | Inr (JObj d) \<Rightarrow> Inr (Some d)
                    | Inr _ \<Rightarrow> Inl (config_error ''routing config must be a JSON object''))))"

section \<open>Validation\<close>

definition json_str :: "json \<Rightarrow> string option" where
  \<comment> \<open>the text of a non-empty string\<close>
  "json_str v = (case v of JStr s \<Rightarrow> if s = [] then None else Some s | _ \<Rightarrow> None)"

definition json_list :: "json \<Rightarrow> json list option" where
  "json_list v = (case v of JList xs \<Rightarrow> Some xs | _ \<Rightarrow> None)"

definition get_default :: "(string \<times> json) list \<Rightarrow> string \<Rightarrow> json \<Rightarrow> json" where
  \<comment> \<open>\<open>d.get(key, default)\<close>\<close>
  "get_default d k v = (case map_of d k of None \<Rightarrow> v | Some x \<Rightarrow> x)"

definition indexed :: "string \<Rightarrow> nat \<Rightarrow> string" where
  "indexed name i = name @ ''['' @ show_nat i @ '']''"

definition supported_type :: "json \<Rightarrow> backend_type option" where
  "supported_type v = (if v = JStr (backend_type_value LLAMA_CPP) then Some LLAMA_CPP else None)"

type_synonym backends_state = "backend_config list \<times> string list"
  \<comment> \<open>the backends and the ids seen\<close>

definition parse_backend :: "nat \<times> json \<Rightarrow> backends_state \<Rightarrow> exn + backends_state" where
  "parse_backend = (\<lambda>(i, b) (backends, seen).
     (case b of
        JObj d \<Rightarrow>
          (case json_str (json_get d ''id'') of
             None \<Rightarrow> Inl (config_error (indexed ''backends'' i @ '' requires a non-empty '' @ quoted ''id''))
           | Some bid \<Rightarrow>
               if bid \<in> set seen
               then Inl (config_error (''duplicate backend id: '' @ repr_str bid))
               else
                 let btype = get_default d ''type'' (JStr ''llama_cpp'')
                 in (case supported_type btype of
                       None \<Rightarrow> Inl (config_error (''unsupported backend type: '' @ py_repr btype @
                                 '' (supported: ['' @ quoted ''llama_cpp'' @ ''])''))
                     | Some t \<Rightarrow>
                         (case json_str (json_get d ''base_url'') of
                            None \<Rightarrow> Inl (config_error (''backend '' @ repr_str bid @
                                      '' requires a non-empty '' @ quoted ''base_url''))
                          | Some url \<Rightarrow>
                              Inr (backends @ [\<lparr> bc_id = bid, bc_type = t, bc_base_url = url \<rparr>],
                                   bid # seen))))
      | _ \<Rightarrow> Inl (config_error (indexed ''backends'' i @ '' must be an object''))))"

type_synonym alias_state = "string list \<times> string list"
  \<comment> \<open>the aliases of the model and all aliases seen\<close>

definition parse_alias ::
  "string \<Rightarrow> string list \<Rightarrow> json \<Rightarrow> alias_state \<Rightarrow> exn + alias_state" where
  "parse_alias mid seen_model_ids a = (\<lambda>(aliases, seen_aliases).
     (case json_str a of
        None \<Rightarrow> Inl (config_error (''model '' @ repr_str mid @ '' has an invalid alias''))
      | Some a \<Rightarrow>
          if a \<in> set seen_model_ids
          then Inl (config_error (''alias '' @ repr_str a @ '' collides with model id '' @ repr_str a))
          else if a \<in> set seen_aliases
          then Inl (config_error (''duplicate alias: '' @ repr_str a))
          else Inr (aliases @ [a], a # seen_aliases)))"

type_synonym models_state = "model_config list \<times> string list \<times> string list"
  \<comment> \<open>the models, their ids and all aliases\<close>

definition parse_model ::
  "string list \<Rightarrow> nat \<times> json \<Rightarrow> models_state \<Rightarrow> exn + models_state" where
  "parse_model seen_backend_ids = (\<lambda>(i, m) (models, seen_model_ids, seen_aliases).
     (case m of
        JObj d \<Rightarrow>
          (case json_str (json_get d ''id'') of
             None \<Rightarrow> Inl (config_error (indexed ''models'' i @ '' requires a non-empty '' @ quoted ''id''))
           | Some mid \<Rightarrow>
             if mid \<in> set seen_model_ids
             then Inl (config_error (''duplicate model id: '' @ repr_str mid))
             else
             (case json_str (json_get d ''backend_id'') of
                None \<Rightarrow> Inl (config_error (''model '' @ repr_str mid @
                          '' requires a non-empty '' @ quoted ''backend_id''))
              | Some backend_id \<Rightarrow>
                if backend_id \<notin> set seen_backend_ids
                then Inl (config_error (''model '' @ repr_str mid @
                       '' references unknown backend: '' @ repr_str backend_id))
                else
                let backend_model = (if json_truthy (json_get d ''backend_model'')
                                     then json_get d ''backend_model'' else JStr mid)
                in (case json_str backend_model of
                      None \<Rightarrow> Inl (config_error (''model '' @ repr_str mid @
                                '' requires a non-empty '' @ quoted ''backend_model''))
                    | Some native \<Rightarrow>
                      let enabled = json_truthy (get_default d ''enabled'' (JBool True));
                          raw_aliases = (if json_truthy (json_get d ''aliases'')
                                         then json_get d ''aliases'' else JList [])
                      in (case json_list raw_aliases of
                            None \<Rightarrow> Inl (config_error (''model '' @ repr_str mid @ '' '' @
                                      quoted ''aliases'' @ '' must be a list''))
                          | Some as \<Rightarrow>
                            (case fold_res (parse_alias mid seen_model_ids) as ([], seen_aliases) of
                               Inl e \<Rightarrow> Inl e
                             | Inr (aliases, seen_aliases) \<Rightarrow>
                               (case py_dict (json_get d ''metadata'') of
                                  Inl e \<Rightarrow> Inl e
                                | Inr metadata \<Rightarrow>
                                  Inr (models @ [\<lparr> mc_id = mid, mc_backend_id = backend_id,
                                         mc_backend_model = native, mc_enabled = enabled,
                                         mc_aliases = aliases, mc_metadata = metadata \<rparr>],
                                       mid # seen_model_ids, seen_aliases)))))))
      | _ \<Rightarrow> Inl (config_error (indexed ''models'' i @ '' must be an object''))))"

definition parse_routing_config :: "(string \<times> json) list \<Rightarrow> exn + parsed_routing_config" where
  "parse_routing_config raw =
     (case json_list (json_get raw ''backends'') of
        None \<Rightarrow> Inl (config_error (''routing config must define a non-empty '' @ quoted ''backends'' @ '' list''))
      | Some bs \<Rightarrow>
        if bs = []
        then Inl (config_error (''routing config must define a non-empty '' @ quoted ''backends'' @ '' list''))
        else
        (case json_list (json_get raw ''models'') of
           None \<Rightarrow> Inl (config_error (''routing config must define a non-empty '' @ quoted ''models'' @ '' list''))
         | Some ms \<Rightarrow>
           if ms = []
           then Inl (config_error (''routing config must define a non-empty '' @ quoted ''models'' @ '' list''))
           else
           (case fold_res parse_backend (enumerate 0 bs) ([], []) of
              Inl e \<Rightarrow> Inl e
            | Inr (backends, seen_backend_ids) \<Rightarrow>
              (case fold_res (parse_model seen_backend_ids) (enumerate 0 ms) ([], [], []) of
                 Inl e \<Rightarrow> Inl e
               | Inr (models, _, _) \<Rightarrow> Inr \<lparr> pr_backends = backends, pr_models = models \<rparr>))))"

section \<open>What validation guarantees\<close>

definition backends_ok :: "backend_config list \<Rightarrow> bool" where
  "backends_ok bs \<longleftrightarrow>
     distinct (map bc_id bs) \<and> (\<forall>b\<in>set bs. bc_id b \<noteq> [] \<and> bc_base_url b \<noteq> [])"

definition models_ok :: "string set \<Rightarrow> model_config list \<Rightarrow> bool" where
  "models_ok backend_ids ms \<longleftrightarrow>
     distinct (map mc_id ms) \<and> distinct (concat (map mc_aliases ms)) \<and>
     (\<forall>m\<in>set ms. mc_id m \<noteq> [] \<and> mc_backend_model m \<noteq> [] \<and> mc_backend_id m \<in> backend_ids) \<and>
     (\<forall>pre m post. ms = pre @ m # post \<longrightarrow> set (mc_aliases m) \<inter> mc_id ` set pre = {})"

definition config_ok :: "parsed_routing_config \<Rightarrow> bool" where
  "config_ok p \<longleftrightarrow>
     pr_backends p \<noteq> [] \<and> pr_models p \<noteq> [] \<and> backends_ok (pr_backends p) \<and>
     models_ok (bc_id ` set (pr_backends p)) (pr_models p)"

lemma json_str_Some: "json_str v = Some s \<longleftrightarrow> v = JStr s \<and> s \<noteq> []"
  by (auto simp: json_str_def split: json.splits)

lemma json_str_JStr [simp]: "json_str (JStr s) = (if s = [] then None else Some s)"
  by (simp add: json_str_def)

lemma json_list_Some: "json_list v = Some xs \<longleftrightarrow> v = JList xs"
  by (auto simp: json_list_def split: json.splits)

lemma parse_backend_Inr:
  assumes "parse_backend ib (bs, seen) = Inr (bs', seen')"
  shows "\<exists>b. bs' = bs @ [b] \<and> seen' = bc_id b # seen \<and> bc_id b \<notin> set seen \<and>
    bc_id b \<noteq> [] \<and> bc_base_url b \<noteq> []"
  using assms
  by (cases ib)
    (auto simp: parse_backend_def Let_def json_str_Some split: json.splits option.splits if_splits)

lemma parse_backends_ok:
  assumes "fold_res parse_backend ibs ([], []) = Inr (bs, seen)"
  shows "backends_ok bs \<and> set seen = bc_id ` set bs"
proof -
  let ?P = "\<lambda>(bs, seen). backends_ok bs \<and> set seen = bc_id ` set bs"
  have "?P (bs, seen)"
  proof (rule fold_res_invariant [OF assms])
    fix ib s s'
    assume P: "?P s" and step: "parse_backend ib s = Inr s'"
    obtain bs seen bs' seen' where s: "s = (bs, seen)" "s' = (bs', seen')"
      by (cases s; cases s')
    show "?P s'"
      using parse_backend_Inr [OF step [unfolded s]] P s by (auto simp: backends_ok_def)
  qed (simp add: backends_ok_def)
  then show ?thesis by simp
qed

lemma parse_alias_Inr:
  "parse_alias mid ids a (al, seen) = Inr (al', seen') \<longleftrightarrow>
     (\<exists>s. a = JStr s \<and> s \<noteq> [] \<and> s \<notin> set ids \<and> s \<notin> set seen \<and> al' = al @ [s] \<and> seen' = s # seen)"
  by (auto simp: parse_alias_def json_str_Some split: option.splits if_splits)

lemma parse_aliases:
  assumes "fold_res (parse_alias mid ids) as (al, seen) = Inr (al', seen')"
  shows "\<exists>new. al' = al @ new \<and> set seen' = set seen \<union> set new \<and> distinct new \<and>
    set new \<inter> set seen = {} \<and> set new \<inter> set ids = {}"
  using assms
proof (induction as arbitrary: al seen)
  case (Cons a as)
  obtain al1 seen1 where a: "parse_alias mid ids a (al, seen) = Inr (al1, seen1)"
    and r: "fold_res (parse_alias mid ids) as (al1, seen1) = Inr (al', seen')"
    using Cons.prems by (auto simp: res_simps)
  obtain s where s: "s \<notin> set ids" "s \<notin> set seen" "al1 = al @ [s]" "seen1 = s # seen"
    using a by (auto simp: parse_alias_Inr)
  obtain new where "al' = al1 @ new" "set seen' = set seen1 \<union> set new" "distinct new"
    "set new \<inter> set seen1 = {}" "set new \<inter> set ids = {}"
    using Cons.IH [OF r] by blast
  with s show ?case by (intro exI [of _ "s # new"]) auto
qed simp

lemma parse_model_fields:
  assumes "parse_model bids im (ms, ids, seen) = Inr (ms', ids', seen')"
  shows "\<exists>m as. fold_res (parse_alias (mc_id m) ids) as ([], seen) = Inr (mc_aliases m, seen') \<and>
    ms' = ms @ [m] \<and> ids' = mc_id m # ids \<and> mc_id m \<notin> set ids \<and> mc_id m \<noteq> [] \<and>
    mc_backend_model m \<noteq> [] \<and> mc_backend_id m \<in> set bids"
proof -
  obtain i j where im: "im = (i, j)" by (cases im)
  show ?thesis
    using assms unfolding im parse_model_def
    by (auto simp: Let_def json_str_Some split: json.splits option.splits if_splits sum.splits prod.splits)
qed

lemma parse_model_Inr:
  assumes "parse_model bids im (ms, ids, seen) = Inr (ms', ids', seen')"
  shows "\<exists>m. ms' = ms @ [m] \<and> ids' = mc_id m # ids \<and> mc_id m \<notin> set ids \<and> mc_id m \<noteq> [] \<and>
    mc_backend_model m \<noteq> [] \<and> mc_backend_id m \<in> set bids \<and>
    set seen' = set seen \<union> set (mc_aliases m) \<and> distinct (mc_aliases m) \<and>
    set (mc_aliases m) \<inter> set seen = {} \<and> set (mc_aliases m) \<inter> set ids = {}"
proof -
  obtain m as where al: "fold_res (parse_alias (mc_id m) ids) as ([], seen) = Inr (mc_aliases m, seen')"
    and m: "ms' = ms @ [m]" "ids' = mc_id m # ids" "mc_id m \<notin> set ids" "mc_id m \<noteq> []"
    "mc_backend_model m \<noteq> []" "mc_backend_id m \<in> set bids"
    using parse_model_fields [OF assms] by blast
  have "set seen' = set seen \<union> set (mc_aliases m)" "distinct (mc_aliases m)"
    "set (mc_aliases m) \<inter> set seen = {}" "set (mc_aliases m) \<inter> set ids = {}"
    using parse_aliases [OF al] by auto
  with m show ?thesis by blast
qed

lemma models_ok_snoc:
  assumes "models_ok B ms" "mc_id m \<notin> mc_id ` set ms" "mc_id m \<noteq> []" "mc_backend_model m \<noteq> []"
    "mc_backend_id m \<in> B" "distinct (mc_aliases m)"
    "set (mc_aliases m) \<inter> (\<Union>m\<in>set ms. set (mc_aliases m)) = {}"
    "set (mc_aliases m) \<inter> mc_id ` set ms = {}"
  shows "models_ok B (ms @ [m])"
proof -
  have "set (mc_aliases m') \<inter> mc_id ` set pre = {}" if "ms @ [m] = pre @ m' # post" for pre m' post
  proof (cases post rule: rev_cases)
    case Nil
    with that assms(8) show ?thesis by simp
  next
    case (snoc post' x)
    with that have "ms = pre @ m' # post'" by simp
    with assms(1) show ?thesis unfolding models_ok_def by blast
  qed
  with assms show ?thesis unfolding models_ok_def by auto
qed

lemma parse_models_ok:
  assumes "fold_res (parse_model bids) ims ([], [], []) = Inr (ms, ids, seen)"
  shows "models_ok (set bids) ms"
proof -
  let ?P = "\<lambda>(ms, ids, seen). models_ok (set bids) ms \<and> set ids = mc_id ` set ms \<and>
    set seen = (\<Union>m\<in>set ms. set (mc_aliases m))"
  have "?P (ms, ids, seen)"
  proof (rule fold_res_invariant [OF assms])
    fix im s s'
    assume P: "?P s" and step: "parse_model bids im s = Inr s'"
    obtain ms ids seen ms' ids' seen' where s: "s = (ms, ids, seen)" "s' = (ms', ids', seen')"
      by (cases s; cases s')
    obtain m where m: "ms' = ms @ [m]" "ids' = mc_id m # ids" "mc_id m \<notin> set ids" "mc_id m \<noteq> []"
      "mc_backend_model m \<noteq> []" "mc_backend_id m \<in> set bids"
      "set seen' = set seen \<union> set (mc_aliases m)" "distinct (mc_aliases m)"
      "set (mc_aliases m) \<inter> set seen = {}" "set (mc_aliases m) \<inter> set ids = {}"
      using parse_model_Inr [OF step [unfolded s]] by blast
    moreover have "models_ok (set bids) ms'"
      unfolding m(1) by (rule models_ok_snoc) (use P s m in auto)
    ultimately show "?P s'" using P s by auto
  qed (simp add: models_ok_def)
  then show ?thesis by simp
qed

lemma parse_lengths:
  "fold_res parse_backend ibs s = Inr s' \<Longrightarrow> length (fst s') = length (fst s) + length ibs"
  "fold_res (parse_model bids) ims t = Inr t' \<Longrightarrow> length (fst t') = length (fst t) + length ims"
proof -
  show "fold_res parse_backend ibs s = Inr s' \<Longrightarrow> length (fst s') = length (fst s) + length ibs"
  proof (induction ibs arbitrary: s)
    case (Cons ib ibs)
    then obtain s1 where s1: "parse_backend ib s = Inr s1" "fold_res parse_backend ibs s1 = Inr s'"
      by (auto simp: res_simps)
    have "length (fst s1) = length (fst s) + 1"
      using parse_backend_Inr [of ib "fst s" "snd s" "fst s1" "snd s1"] s1(1) by auto
    with Cons.IH [OF s1(2)] show ?case by simp
  qed simp
  show "fold_res (parse_model bids) ims t = Inr t' \<Longrightarrow> length (fst t') = length (fst t) + length ims"
  proof (induction ims arbitrary: t)
    case (Cons im ims)
    then obtain t1 where t1: "parse_model bids im t = Inr t1" "fold_res (parse_model bids) ims t1 = Inr t'"
      by (auto simp: res_simps)
    have "length (fst t1) = length (fst t) + 1"
      using parse_model_Inr [of bids im "fst t" "fst (snd t)" "snd (snd t)" "fst t1" "fst (snd t1)" "snd (snd t1)"] t1(1)
      by auto
    with Cons.IH [OF t1(2)] show ?case by simp
  qed simp
qed

lemma parse_config_ok:
  assumes "parse_routing_config raw = Inr p"
  shows "config_ok p"
proof -
  obtain bs ms bids ids seen where "bs \<noteq> []" "ms \<noteq> []"
    and b: "fold_res parse_backend (enumerate 0 bs) ([], []) = Inr (pr_backends p, bids)"
    and m: "fold_res (parse_model bids) (enumerate 0 ms) ([], [], []) = Inr (pr_models p, ids, seen)"
    using assms by (auto simp: parse_routing_config_def split: option.splits if_splits sum.splits)
  have "length (pr_backends p) = length bs" "length (pr_models p) = length ms"
    using parse_lengths b m by auto
  with parse_backends_ok [OF b] parse_models_ok [OF m] \<open>bs \<noteq> []\<close> \<open>ms \<noteq> []\<close> show ?thesis
    by (auto simp: config_ok_def)
qed

lemma config_error_shape:
  "\<exists>x. config_error msg = Syn x \<and> e_class x = RoutingConfigErrorC \<and>
     e_code x = ''routing_config_invalid'' \<and> e_status x = 500"
  by (simp add: config_error_def)

definition config_failure :: "exn \<Rightarrow> bool" where
  "config_failure e \<longleftrightarrow>
     (\<exists>x. e = Syn x \<and> e_class x = RoutingConfigErrorC \<and> e_code x = ''routing_config_invalid'' \<and>
        e_status x = 500) \<or>
     e = PyError ''TypeError'' \<or> e = PyError ''ValueError''"

lemma config_failure_simps [simp]:
  "config_failure (config_error msg)" "config_failure (PyError ''TypeError'')"
  "config_failure (PyError ''ValueError'')"
  using config_error_shape by (auto simp: config_failure_def)

lemma dict_item_failure: "dict_item x d = Inl e \<Longrightarrow> config_failure e"
  by (auto simp: dict_item_def Let_def split: json.splits list.splits if_splits)

lemma py_dict_failure: "py_dict v = Inl e \<Longrightarrow> config_failure e"
  by (auto simp: py_dict_def dest!: fold_res_Inl intro: dict_item_failure split: json.splits if_splits)

lemma parse_backend_failure: "parse_backend ib s = Inl e \<Longrightarrow> config_failure e"
  by (cases ib; cases s)
    (auto simp: parse_backend_def Let_def split: json.splits option.splits if_splits)

lemma parse_alias_failure: "parse_alias mid ids a s = Inl e \<Longrightarrow> config_failure e"
  by (cases s) (auto simp: parse_alias_def split: option.splits if_splits)

lemma parse_model_failure: "parse_model bids im s = Inl e \<Longrightarrow> config_failure e"
proof -
  assume *: "parse_model bids im s = Inl e"
  obtain i j ms ids seen where s: "im = (i, j)" "s = (ms, ids, seen)" by (cases im; cases s)
  show ?thesis
    using * unfolding s parse_model_def
    by (auto simp: Let_def dest!: fold_res_Inl intro: parse_alias_failure py_dict_failure
        split: json.splits option.splits if_splits sum.splits)
qed

lemma parse_config_failure: "parse_routing_config raw = Inl e \<Longrightarrow> config_failure e"
  by (auto simp: parse_routing_config_def dest!: fold_res_Inl
      intro: parse_backend_failure parse_model_failure
      split: option.splits if_splits sum.splits)

section \<open>Properties\<close>


definition sample_config :: "(string \<times> json) list" where
  "sample_config =
     [(''backends'', JList [JObj [(''id'', JStr ''b''), (''base_url'', JStr ''http://x'')]]),
      (''models'', JList
         [JObj [(''id'', JStr ''m1''), (''backend_id'', JStr ''b''), (''aliases'', JList [JStr ''m2''])],
          JObj [(''id'', JStr ''m2''), (''backend_id'', JStr ''b''), (''backend_model'', JStr ''native'')]])]"

definition sample_models :: "model_config list" where
  "sample_models =
     [\<lparr> mc_id = ''m1'', mc_backend_id = ''b'', mc_backend_model = ''m1'', mc_enabled = True,
        mc_aliases = [''m2''], mc_metadata = [] \<rparr>,
      \<lparr> mc_id = ''m2'', mc_backend_id = ''b'', mc_backend_model = ''native'', mc_enabled = True,
        mc_aliases = [], mc_metadata = [] \<rparr>]"

lemma sample_config_parses:
  "parse_routing_config sample_config =
     Inr \<lparr> pr_backends = [\<lparr> bc_id = ''b'', bc_type = LLAMA_CPP, bc_base_url = ''http://x'' \<rparr>],
           pr_models = sample_models \<rparr>"
  by (simp add: parse_routing_config_def sample_config_def sample_models_def json_get_def
      json_list_def parse_backend_def parse_model_def parse_alias_def supported_type_def
      get_default_def py_dict_def Let_def numeral_2_eq_2)


text \<open>Validation fails only in known ways: with the error code \<open>routing_config_invalid\<close> and
  status 500, or, when a model's metadata is no mapping, with Python's TypeError or ValueError.\<close>

lemma parse_errors:
  assumes "parse_routing_config raw = Inl e"
  shows "(\<exists>x. e = Syn x \<and> e_class x = RoutingConfigErrorC \<and> e_code x = ''routing_config_invalid'' \<and>
      e_status x = 500) \<or>
    e = PyError ''TypeError'' \<or> e = PyError ''ValueError''"
  using parse_config_failure [OF assms] by (simp add: config_failure_def)

lemma parse_errors_witness:
  "\<exists>e. parse_routing_config [] = Inl e \<and> config_failure e"
proof -
  obtain e where e: "parse_routing_config [] = Inl e"
    by (simp add: parse_routing_config_def json_get_def json_list_def)
  show ?thesis using parse_errors [OF e] e by (simp add: config_failure_def)
qed

end
