(* ===== verification/ModelRegistry.thy ===== *)
theory ModelRegistry
  imports RoutingConfig
begin

text \<open>
  The model registry, \<open>app/routing/model_registry.py\<close>: two dictionaries, from canonical ids to
  entries and from aliases to canonical ids.  The locale \<open>model_directory\<close> is what routing relies
  on.
\<close>

section \<open>The registry\<close>

record model_entry =
  me_id :: string
  me_backend_id :: string
  me_backend_model :: string
  me_enabled :: bool
  me_aliases :: "string list"
  me_metadata :: "(json \<times> json) list"

record model_registry =
  by_id :: "(string \<times> model_entry) list"
  by_alias :: "(string \<times> string) list"

definition duplicate_error :: "string \<Rightarrow> string \<Rightarrow> exn" where
  "duplicate_error kind s =
     Syn (raise_code ModelNotFoundErrorC (''duplicate '' @ kind @ '': '' @ repr_str s) ''model_not_found'')"

definition add_alias :: "string \<Rightarrow> string \<Rightarrow> model_registry \<Rightarrow> exn + model_registry" where
  "add_alias mid a r =
     (if a \<in> set (keys_of (by_alias r)) then Inl (duplicate_error ''alias'' a)
      else Inr (r\<lparr> by_alias := dict_set a mid (by_alias r) \<rparr>))"

definition add_entry :: "model_entry \<Rightarrow> model_registry \<Rightarrow> exn + model_registry" where
  "add_entry e r =
     (if me_id e \<in> set (keys_of (by_id r)) then Inl (duplicate_error ''model id'' (me_id e))
      else fold_res (add_alias (me_id e)) (me_aliases e)
             (r\<lparr> by_id := dict_set (me_id e) e (by_id r) \<rparr>))"

definition new_model_registry :: "model_entry list \<Rightarrow> exn + model_registry" where
  "new_model_registry es = fold_res add_entry es \<lparr> by_id = [], by_alias = [] \<rparr>"

definition model_not_found :: "string \<Rightarrow> exn" where
  "model_not_found requested =
     Syn (raise_code ModelNotFoundErrorC (''model '' @ quoted requested @ '' not found'') ''model_not_found'')"

definition resolve_model :: "model_registry \<Rightarrow> string \<Rightarrow> exn + model_entry" where
  "resolve_model r requested =
     (case map_of (by_id r) requested of
        Some e \<Rightarrow> Inr e
      | None \<Rightarrow>
          (case map_of (by_alias r) requested of
             None \<Rightarrow> Inl (model_not_found requested)
           | Some canonical \<Rightarrow>
               (case map_of (by_id r) canonical of
                  None \<Rightarrow> Inl (PyError ''KeyError'')
                | Some e \<Rightarrow> Inr e)))"

definition get_model :: "model_registry \<Rightarrow> string \<Rightarrow> model_entry option" where
  "get_model r model_id = map_of (by_id r) model_id"

definition list_all_models :: "model_registry \<Rightarrow> model_entry list" where
  "list_all_models r = map snd (by_id r)"

definition list_enabled :: "model_registry \<Rightarrow> model_entry list" where
  "list_enabled r = filter me_enabled (map snd (by_id r))"

section \<open>The registry of a list of entries\<close>

lemma add_alias_Inr:
  "add_alias mid a r = Inr r' \<longleftrightarrow>
     a \<notin> set (keys_of (by_alias r)) \<and> r' = r\<lparr> by_alias := by_alias r @ [(a, mid)] \<rparr>"
proof -
  have "AList.update a mid d = d @ [(a, mid)]" if "a \<notin> set (keys_of d)" for d
    using that by (induction d) auto
  then show ?thesis by (auto simp: add_alias_def)
qed

lemma add_aliases:
  "fold_res (add_alias mid) as r = Inr r' \<longleftrightarrow>
     distinct as \<and> set as \<inter> set (keys_of (by_alias r)) = {} \<and>
     r' = r\<lparr> by_alias := by_alias r @ map (\<lambda>a. (a, mid)) as \<rparr>"
proof (induction as arbitrary: r)
  case (Cons a as)
  show ?case
  proof (cases "a \<in> set (keys_of (by_alias r))")
    case True
    then have "\<exists>e. add_alias mid a r = Inl e" by (simp add: add_alias_def)
    with True show ?thesis by auto
  next
    case False
    then have "add_alias mid a r = Inr (r\<lparr> by_alias := by_alias r @ [(a, mid)] \<rparr>)"
      by (simp add: add_alias_Inr)
    with False show ?thesis by (auto simp: Cons.IH)
  qed
qed auto

lemma add_entry_Inr:
  "add_entry e r = Inr r' \<longleftrightarrow>
     me_id e \<notin> set (keys_of (by_id r)) \<and> distinct (me_aliases e) \<and>
     set (me_aliases e) \<inter> set (keys_of (by_alias r)) = {} \<and>
     r' = \<lparr> by_id = by_id r @ [(me_id e, e)],
            by_alias = by_alias r @ map (\<lambda>a. (a, me_id e)) (me_aliases e) \<rparr>"
proof -
  have "AList.update k v d = d @ [(k, v)]" if "k \<notin> set (keys_of d)" for k v and d :: "(string \<times> model_entry) list"
    using that by (induction d) auto
  then show ?thesis by (auto simp: add_entry_def add_aliases)
qed

definition entries_ok :: "model_entry list \<Rightarrow> bool" where
  "entries_ok es \<longleftrightarrow> distinct (map me_id es) \<and> distinct (concat (map me_aliases es))"

definition registry_of :: "model_entry list \<Rightarrow> model_registry" where
  "registry_of es =
     \<lparr> by_id = map (\<lambda>e. (me_id e, e)) es,
       by_alias = concat (map (\<lambda>e. map (\<lambda>a. (a, me_id e)) (me_aliases e)) es) \<rparr>"

lemma keys_registry_of [simp]:
  "keys_of (by_id (registry_of es)) = map me_id es"
  "keys_of (by_alias (registry_of es)) = concat (map me_aliases es)"
  by (simp_all add: registry_of_def map_concat o_def)

lemma registry_of_snoc:
  "registry_of (es @ [e]) =
     \<lparr> by_id = by_id (registry_of es) @ [(me_id e, e)],
       by_alias = by_alias (registry_of es) @ map (\<lambda>a. (a, me_id e)) (me_aliases e) \<rparr>"
  by (simp add: registry_of_def)

lemma new_model_registry_Inr:
  "new_model_registry es = Inr r \<longleftrightarrow> entries_ok es \<and> r = registry_of es"
proof (induction es arbitrary: r rule: rev_induct)
  case Nil
  then show ?case by (auto simp: new_model_registry_def entries_ok_def registry_of_def)
next
  case (snoc e es)
  have ok: "entries_ok (es @ [e]) \<longleftrightarrow> entries_ok es \<and> me_id e \<notin> set (map me_id es) \<and>
      distinct (me_aliases e) \<and> set (me_aliases e) \<inter> set (concat (map me_aliases es)) = {}"
    by (auto simp: entries_ok_def)
  have step: "new_model_registry (es @ [e]) =
      (case new_model_registry es of Inl x \<Rightarrow> Inl x | Inr r \<Rightarrow> add_entry e r)"
  proof -
    have "fold_res add_entry [e] r = add_entry e r" for r by (simp split: sum.split)
    then show ?thesis by (simp only: new_model_registry_def fold_res_append)
  qed
  show ?case
  proof (cases "new_model_registry es")
    case (Inl x)
    then have "\<not> entries_ok es" using snoc.IH [of "registry_of es"] by auto
    with Inl ok show ?thesis by (simp add: step)
  next
    case (Inr r0)
    then have es: "entries_ok es" "r0 = registry_of es" using snoc.IH [of r0] by auto
    have "new_model_registry (es @ [e]) = Inr r \<longleftrightarrow> add_entry e (registry_of es) = Inr r"
      by (simp add: step Inr es)
    also have "\<dots> \<longleftrightarrow> entries_ok (es @ [e]) \<and> r = registry_of (es @ [e])"
      unfolding add_entry_Inr registry_of_snoc keys_registry_of ok using es(1) by blast
    finally show ?thesis .
  qed
qed

lemma map_of_ids:
  "distinct (map me_id es) \<Longrightarrow>
     map_of (by_id (registry_of es)) n = Some e \<longleftrightarrow> e \<in> set es \<and> me_id e = n"
  by (auto simp: registry_of_def map_of_eq_Some_iff distinct_map inj_on_def o_def)

lemma map_of_ids_None: "map_of (by_id (registry_of es)) n = None \<longleftrightarrow> n \<notin> me_id ` set es"
  by (simp add: map_of_eq_None_iff registry_of_def image_image)

lemma map_of_aliases:
  assumes "distinct (concat (map me_aliases es))"
  shows "map_of (by_alias (registry_of es)) n = Some i \<longleftrightarrow> (\<exists>e\<in>set es. n \<in> set (me_aliases e) \<and> me_id e = i)"
proof -
  have "distinct (keys_of (by_alias (registry_of es)))" using assms by simp
  then show ?thesis
    by (subst map_of_eq_Some_iff) (auto simp: registry_of_def)
qed

text \<open>What a name resolves to: the entry with that id, else the entry with that alias.\<close>

lemma resolve_registry_of:
  assumes "entries_ok es"
  shows "resolve_model (registry_of es) n = Inr e \<longleftrightarrow>
    e \<in> set es \<and> (me_id e = n \<or> n \<notin> me_id ` set es \<and> n \<in> set (me_aliases e))"
proof -
  have d: "distinct (map me_id es)" "distinct (concat (map me_aliases es))"
    using assms by (auto simp: entries_ok_def)
  note ids = map_of_ids [OF d(1)] and als = map_of_aliases [OF d(2)]
  have unique: "e' = e" if "e \<in> set es" "e' \<in> set es" "me_id e' = me_id e" for e e'
    using that d(1) by (auto simp: distinct_map inj_on_def)
  show ?thesis
  proof (cases "map_of (by_id (registry_of es)) n")
    case (Some e0)
    then have e0: "e0 \<in> set es" "me_id e0 = n" using ids by auto
    have "resolve_model (registry_of es) n = Inr e \<longleftrightarrow> e0 = e"
      using Some by (simp add: resolve_model_def)
    with e0 show ?thesis using unique by blast
  next
    case None
    then have n: "n \<notin> me_id ` set es" by (simp add: map_of_ids_None)
    show ?thesis
    proof (cases "map_of (by_alias (registry_of es)) n")
      case None': None
      have "n \<notin> set (me_aliases e)" if "e \<in> set es" for e
        using als [of n "me_id e"] None' that by auto
      with None None' n show ?thesis by (auto simp: resolve_model_def)
    next
      case (Some i)
      then obtain e0 where e0: "e0 \<in> set es" "n \<in> set (me_aliases e0)" "me_id e0 = i"
        using als [of n i] by auto
      have same: "e = e0" if "e \<in> set es" "n \<in> set (me_aliases e)" for e
      proof -
        have "Some (me_id e) = Some i" using als [of n "me_id e"] that Some by auto
        with unique [OF e0(1) that(1)] e0(3) show ?thesis by simp
      qed
      have "map_of (by_id (registry_of es)) i = Some e0" using ids [of i e0] e0 by simp
      then have "resolve_model (registry_of es) n = Inr e \<longleftrightarrow> e0 = e"
        using None Some by (simp add: resolve_model_def)
      with same e0 n show ?thesis by blast
    qed
  qed
qed

lemma resolve_errors:
  assumes "entries_ok es" "resolve_model (registry_of es) n = Inl x"
  shows "x = model_not_found n"
proof (cases "map_of (by_id (registry_of es)) n")
  case (Some e)
  with assms(2) show ?thesis by (simp add: resolve_model_def)
next
  case None
  show ?thesis
  proof (cases "map_of (by_alias (registry_of es)) n")
    case None': None
    with None assms(2) show ?thesis by (simp add: resolve_model_def)
  next
    case (Some i)
    then obtain e where "e \<in> set es" "me_id e = i"
      using map_of_aliases [of es n i] assms(1) by (auto simp: entries_ok_def)
    then have "map_of (by_id (registry_of es)) i = Some e"
      using assms(1) map_of_ids [of es i e] unfolding entries_ok_def by blast
    with None Some assms(2) show ?thesis by (simp add: resolve_model_def)
  qed
qed

lemma list_enabled_registry_of: "list_enabled (registry_of es) = filter me_enabled es"
  by (simp add: list_enabled_def registry_of_def o_def)

section \<open>The contract of a model directory\<close>

locale model_directory =
  fixes valid :: "'m \<Rightarrow> bool"
    and resolve :: "'m \<Rightarrow> 'n \<Rightarrow> 'x + 'e"
    and listed :: "'m \<Rightarrow> 'e list"
    and ident :: "'e \<Rightarrow> 'n"
    and usable :: "'e \<Rightarrow> bool"
  assumes listed_resolves: "valid m \<Longrightarrow> e \<in> set (listed m) \<Longrightarrow> resolve m (ident e) = Inr e \<and> usable e"
    and resolved_listed: "valid m \<Longrightarrow> resolve m n = Inr e \<Longrightarrow> usable e \<Longrightarrow> e \<in> set (listed m)"
    and resolved_self: "valid m \<Longrightarrow> resolve m n = Inr e \<Longrightarrow> resolve m (ident e) = Inr e"
begin

text \<open>Two names of one entry have the same canonical name, and it stands for that entry.\<close>

lemma canonical_name:
  assumes "valid m" "resolve m n = Inr e" "resolve m n' = Inr e'" "ident e = ident e'"
  shows "e = e'"
proof -
  have "Inr e = resolve m (ident e)" using resolved_self [OF assms(1,2)] ..
  also have "\<dots> = Inr e'" unfolding assms(4) by (rule resolved_self [OF assms(1,3)])
  finally show ?thesis by simp
qed

lemma usable_iff_listed:
  assumes "valid m" "resolve m n = Inr e"
  shows "usable e \<longleftrightarrow> e \<in> set (listed m)"
  using assms resolved_listed listed_resolves by blast

end

definition registry_ok :: "model_registry \<Rightarrow> bool" where
  "registry_ok r \<longleftrightarrow> (\<exists>es. new_model_registry es = Inr r)"

interpretation models: model_directory registry_ok resolve_model list_enabled me_id me_enabled
proof unfold_locales
  fix m e
  assume "registry_ok m" and e: "e \<in> set (list_enabled m)"
  then obtain es where "entries_ok es" "m = registry_of es"
    by (auto simp: registry_ok_def new_model_registry_Inr)
  with e show "resolve_model m (me_id e) = Inr e \<and> me_enabled e"
    by (auto simp: resolve_registry_of list_enabled_registry_of)
next
  fix m n e
  assume "registry_ok m" and e: "resolve_model m n = Inr e" "me_enabled e"
  then obtain es where "entries_ok es" "m = registry_of es"
    by (auto simp: registry_ok_def new_model_registry_Inr)
  with e show "e \<in> set (list_enabled m)"
    by (auto simp: resolve_registry_of list_enabled_registry_of)
next
  fix m n e
  assume "registry_ok m" and e: "resolve_model m n = Inr e"
  then obtain es where "entries_ok es" "m = registry_of es"
    by (auto simp: registry_ok_def new_model_registry_Inr)
  with e show "resolve_model m (me_id e) = Inr e"
    by (auto simp: resolve_registry_of)
qed

end
