(* ===== verification/Backends.thy ===== *)
theory Backends
  imports RoutingConfig
begin

text \<open>
  Inference backends as the gateway sees them: the types of \<open>app/backends/base.py\<close>, the registry of
  backend classes in \<open>app/backends/registry.py\<close>, and the registry of configured instances with its
  health cache, \<open>app/routing/backend_registry.py\<close>.  What a probe of a backend returns or raises is
  an argument.
\<close>

section \<open>The types of the backend contract\<close>

datatype backend_capability =
    CapHealth
  | CapModels
  | CapChatCompletions
  | CapStreaming
  | CapCancellation

fun capability_value :: "backend_capability \<Rightarrow> string" where
  "capability_value CapHealth = ''health''"
| "capability_value CapModels = ''models''"
| "capability_value CapChatCompletions = ''chat_completions''"
| "capability_value CapStreaming = ''streaming''"
| "capability_value CapCancellation = ''cancellation''"

datatype health_state = Unknown | Reachable | Unreachable | TimeoutState | Invalid

fun health_state_value :: "health_state \<Rightarrow> string" where
  "health_state_value Unknown = ''unknown''"
| "health_state_value Reachable = ''reachable''"
| "health_state_value Unreachable = ''unreachable''"
| "health_state_value TimeoutState = ''timeout''"
| "health_state_value Invalid = ''invalid''"

record health_result =
  h_state :: health_state
  h_reachable :: bool
  h_configured :: bool
  h_reason :: string
  h_elapsed_ms :: "rat option"
  h_server_version :: json
  h_model :: "string option"
  h_last_checked :: "string option"

definition opt_str_field :: "json \<Rightarrow> exn + string option" where
  \<comment> \<open>a pydantic field of type \<open>Optional[str]\<close>\<close>
  "opt_str_field v =
     (case v of
        JNull \<Rightarrow> Inr None
      | JStr s \<Rightarrow> Inr (Some s)
      | _ \<Rightarrow> Inl (PyError ''ValidationError''))"

record model_info =
  i_id :: string
  i_object :: json
  i_owned_by :: json
  i_created :: json

record backend =
  b_name :: string
  b_base_url :: string
  b_timeout :: rat
  b_connect_timeout :: rat
  b_health_timeout :: rat
  b_capabilities :: "backend_capability list"

record backend_info =
  bi_name :: string
  bi_display_name :: string
  bi_base_url :: string
  bi_capabilities :: "backend_capability list"
  bi_timeout :: rat

definition strip_slashes :: "string \<Rightarrow> string" where
  \<comment> \<open>\<open>url.rstrip("/")\<close>\<close>
  "strip_slashes url = rev (dropWhile (\<lambda>c. c = CHR ''/'') (rev url))"

definition init_backend ::
  "string \<Rightarrow> backend_capability list \<Rightarrow> string \<Rightarrow> rat \<Rightarrow> rat \<Rightarrow> rat \<Rightarrow> backend" where
  "init_backend name caps base_url timeout connect_timeout health_timeout =
     \<lparr> b_name = name, b_base_url = strip_slashes base_url, b_timeout = timeout,
       b_connect_timeout = connect_timeout, b_health_timeout = health_timeout,
       b_capabilities = caps \<rparr>"

section \<open>The registry of backend classes\<close>

text \<open>A class is its constructor: a base URL and the three timeouts.\<close>

type_synonym backend_class = "string \<Rightarrow> rat \<Rightarrow> rat \<Rightarrow> rat \<Rightarrow> backend"

type_synonym class_registry = "(backend_type \<times> backend_class) list"

definition register_class :: "backend_type \<Rightarrow> backend_class \<Rightarrow> class_registry \<Rightarrow> class_registry" where
  "register_class t c r = dict_set t c r"

definition get_backend_class :: "class_registry \<Rightarrow> backend_type \<Rightarrow> exn + backend_class" where
  "get_backend_class r t =
     (case map_of r t of
        None \<Rightarrow> Inl (Syn (raise_code RegistryErrorC
                   (''no backend registered for type '' @ repr_str (backend_type_value t))
                   ''backend_not_registered''))
      | Some c \<Rightarrow> Inr c)"

definition build_backend ::
  "class_registry \<Rightarrow> backend_type \<Rightarrow> string \<Rightarrow> rat \<Rightarrow> rat \<Rightarrow> rat \<Rightarrow> exn + backend" where
  "build_backend r t base_url timeout connect_timeout health_timeout =
     (case get_backend_class r t of
        Inl e \<Rightarrow> Inl e
      | Inr c \<Rightarrow> Inr (c base_url timeout connect_timeout health_timeout))"

definition registered_backend_types :: "class_registry \<Rightarrow> backend_type list" where
  "registered_backend_types r = sort_key backend_type_value (keys_of r)"

section \<open>The registry of configured instances\<close>

record 'b backend_registry =
  backends :: "(string \<times> 'b) list"
  health_cache :: "(string \<times> health_result) list"
  health_at :: "(string \<times> time) list"
  health_ttl :: rat

definition new_backend_registry :: "rat \<Rightarrow> 'b backend_registry" where
  "new_backend_registry ttl =
     \<lparr> backends = [], health_cache = [], health_at = [], health_ttl = ttl \<rparr>"

definition register :: "string \<Rightarrow> 'b \<Rightarrow> 'b backend_registry \<Rightarrow> 'b backend_registry" where
  "register i b r = r\<lparr> backends := dict_set i b (backends r) \<rparr>"

definition has_backend :: "string \<Rightarrow> 'b backend_registry \<Rightarrow> bool" where
  "has_backend i r \<longleftrightarrow> i \<in> set (keys_of (backends r))"

definition backend_ids :: "'b backend_registry \<Rightarrow> string list" where
  "backend_ids r = keys_of (backends r)"

definition get_backend :: "string \<Rightarrow> 'b backend_registry \<Rightarrow> exn + 'b" where
  "get_backend i r =
     (case map_of (backends r) i of
        None \<Rightarrow> Inl (Syn (raise_code BackendNotConfiguredErrorC
                   (''backend '' @ quoted i @ '' is not configured'') ''backend_not_configured''))
      | Some b \<Rightarrow> Inr b)"

definition backend_types :: "('b \<Rightarrow> string) \<Rightarrow> 'b backend_registry \<Rightarrow> (string \<times> string) list" where
  "backend_types name r = map (\<lambda>(i, b). (i, name b)) (backends r)"

definition probe_raised :: health_result where
  "probe_raised =
     \<lparr> h_state = Unreachable, h_reachable = False, h_configured = True,
       h_reason = ''health probe raised'', h_elapsed_ms = None, h_server_version = JNull,
       h_model = None, h_last_checked = None \<rparr>"

definition registry_health ::
  "string \<Rightarrow> bool \<Rightarrow> time \<Rightarrow> (exn + health_result) \<Rightarrow> 'b backend_registry
     \<Rightarrow> exn + health_result \<times> 'b backend_registry" where
  \<comment> \<open>\<open>now\<close> is the clock when the call starts and \<open>probe\<close> the outcome of \<open>backend.health()\<close>\<close>
  "registry_health i force now probe r =
     (case get_backend i r of
        Inl e \<Rightarrow> Inl e
      | Inr b \<Rightarrow>
          let cached = map_of (health_cache r) i;
              cached_at = (case map_of (health_at r) i of None \<Rightarrow> 0 | Some t \<Rightarrow> t);
              refresh =
                (case probe of
                   Inl e \<Rightarrow>
                     if is_Exception e
                     then Inr (probe_raised,
                               r\<lparr> health_cache := dict_set i probe_raised (health_cache r),
                                  health_at := dict_set i now (health_at r) \<rparr>)
                     else Inl e
                 | Inr res \<Rightarrow>
                     Inr (res, r\<lparr> health_cache := dict_set i res (health_cache r),
                                  health_at := dict_set i now (health_at r) \<rparr>))
          in (case cached of
                None \<Rightarrow> refresh
              | Some res \<Rightarrow>
                  if \<not> force \<and> now - cached_at \<le> health_ttl r then Inr (res, r) else refresh))"

definition health_map ::
  "bool \<Rightarrow> (string \<Rightarrow> time) \<Rightarrow> (string \<Rightarrow> exn + health_result) \<Rightarrow> 'b backend_registry
     \<Rightarrow> exn + (string \<times> health_result) list \<times> 'b backend_registry" where
  \<comment> \<open>the clock and the probe of each backend's turn\<close>
  "health_map force clock probe r =
     fold_res
       (\<lambda>i (out, r).
          (case registry_health i force (clock i) (probe i) r of
             Inl e \<Rightarrow> Inl e
           | Inr (res, r) \<Rightarrow> Inr (dict_set i res out, r)))
       (keys_of (backends r)) ([], r)"

section \<open>The registry's behaviour\<close>

lemma strip_slashes_no_slash: "strip_slashes url \<noteq> [] \<Longrightarrow> last (strip_slashes url) \<noteq> CHR ''/''"
  using hd_dropWhile [of "\<lambda>c. c = CHR ''/''" "rev url"]
  by (simp add: strip_slashes_def last_rev)

lemma get_backend_register:
  "get_backend i (register j b r) = (if i = j then Inr b else get_backend i r)"
  by (simp add: get_backend_def register_def)

lemma get_backend_Inr: "get_backend i r = Inr b \<longleftrightarrow> map_of (backends r) i = Some b"
  by (auto simp: get_backend_def split: option.splits)

lemma has_backend_iff: "has_backend i r \<longleftrightarrow> (\<exists>b. get_backend i r = Inr b)"
  by (auto simp: has_backend_def get_backend_Inr dest: weak_map_of_SomeI map_of_SomeD intro: rev_image_eqI)

lemma has_backend_map: "has_backend i r \<longleftrightarrow> map_of (backends r) i \<noteq> None"
  by (auto simp: has_backend_iff get_backend_Inr)

lemma has_backend_register [simp]: "has_backend i (register j b r) \<longleftrightarrow> i = j \<or> has_backend i r"
  by (simp add: has_backend_map register_def)

lemma registry_health_Inr:
  assumes "registry_health i force now probe r = Inr (res, r')"
  shows "backends r' = backends r \<and> health_ttl r' = health_ttl r \<and>
    (r' = r \<and> \<not> force \<and> map_of (health_cache r) i = Some res \<or>
     health_cache r' = dict_set i res (health_cache r) \<and> health_at r' = dict_set i now (health_at r) \<and>
     (probe = Inr res \<or> res = probe_raised))"
  using assms
  by (auto simp: registry_health_def Let_def split: sum.splits option.splits if_splits)

lemma registry_health_cached:
  assumes "map_of (backends r) i = Some b" "map_of (health_cache r) i = Some res"
    "map_of (health_at r) i = Some t" "now - t \<le> health_ttl r"
  shows "registry_health i False now probe r = Inr (res, r)"
  using assms by (simp add: registry_health_def get_backend_def)

lemma registry_health_stale:
  assumes "map_of (backends r) i = Some b" "map_of (health_at r) i = Some t" "now - t > health_ttl r"
  shows "registry_health i force now (Inr res) r =
    Inr (res, r\<lparr> health_cache := dict_set i res (health_cache r), health_at := dict_set i now (health_at r) \<rparr>)"
  using assms by (auto simp: registry_health_def get_backend_def Let_def split: option.split)

text \<open>What a backend does that overrides nothing of its base class: it opens and closes nothing, advertises
  nothing and implements no operation; its registry reports it as unreachable.\<close>

definition base_capabilities :: "backend_capability list" where
  "base_capabilities = []"

definition base_lifecycle :: "exn + unit" where
  "base_lifecycle = Inr ()"

definition base_operation :: "exn + 'a" where
  "base_operation = Inl (PyError ''NotImplementedError'')"

lemma base_health:
  assumes "get_backend i r = Inr b"
  shows "\<exists>r'. registry_health i True now base_operation r = Inr (probe_raised, r')"
  using assms by (simp add: registry_health_def base_operation_def Let_def split: option.split)

definition uncached :: "'b backend_registry \<Rightarrow> 'b backend_registry" where
  \<comment> \<open>all of a registry but what probes have found\<close>
  "uncached r = r\<lparr> health_cache := [], health_at := [] \<rparr>"

lemma uncached_backends: "uncached r' = uncached r \<Longrightarrow> backends r' = backends r"
  by (cases r; cases r') (simp add: uncached_def)

lemma registry_health_uncached:
  "registry_health i force now probe r = Inr (res, r') \<Longrightarrow> uncached r' = uncached r"
  by (drule registry_health_Inr) (cases r; cases r'; auto simp: uncached_def)

lemma fold_res_uncached:
  assumes "fold_res f xs (out, r) = Inr (out', r')"
    and "\<And>x out r out' r'. f x (out, r) = Inr (out', r') \<Longrightarrow> uncached r' = uncached r"
  shows "uncached r' = uncached r"
  using assms(1)
proof (induction xs arbitrary: out r)
  case (Cons x xs)
  then obtain out1 r1 where "f x (out, r) = Inr (out1, r1)" "fold_res f xs (out1, r1) = Inr (out', r')"
    by (auto simp: res_simps)
  with Cons.IH assms(2) show ?case by metis
qed simp

lemma health_map_uncached:
  assumes "health_map force clock probe r = Inr (m, r')"
  shows "uncached r' = uncached r"
  using assms [unfolded health_map_def]
proof (rule fold_res_uncached)
  show "uncached r2 = uncached r1"
    if "(case (out, r1) of (out, r) \<Rightarrow>
      (case registry_health i force (clock i) (probe i) r of
         Inl e \<Rightarrow> Inl e
       | Inr (res, r) \<Rightarrow> Inr (dict_set i res out, r))) = Inr (out', r2)" for i out r1 out' r2
    using that registry_health_uncached by (force simp: res_simps)
qed

section \<open>Properties\<close>

text \<open>The health cache answers only from fresh probes: after a probe of a backend at time \<open>t\<close>
  gave a result, an unforced request within the time to live returns that result without probing,
  and later ones return what their own probe gives; an exception of the probe becomes the
  unreachable state, never an exception of the caller.\<close>

lemma health_cache_fresh:
  assumes "registry_health i force t (Inr res) r = Inr (res, r')" "force \<or> map_of (health_cache r) i = None"
    "map_of (backends r) i = Some b"
  shows "(now - t \<le> health_ttl r \<longrightarrow> registry_health i False now probe r' = Inr (res, r')) \<and>
    (now - t > health_ttl r \<longrightarrow>
       (case probe of
          Inr res' \<Rightarrow> (\<exists>r''. registry_health i False now probe r' = Inr (res', r''))
        | Inl e \<Rightarrow> is_Exception e \<longrightarrow> (\<exists>r''. registry_health i False now probe r' = Inr (probe_raised, r''))))"
proof -
  have r': "r' = r\<lparr> health_cache := dict_set i res (health_cache r), health_at := dict_set i t (health_at r) \<rparr>"
    using assms by (auto simp: registry_health_def get_backend_def Let_def split: option.splits)
  show ?thesis
    using assms(3) by (auto simp: r' registry_health_def get_backend_def Let_def split: sum.split)
qed

definition sample_health :: health_result where
  "sample_health = probe_raised\<lparr> h_state := Reachable, h_reachable := True \<rparr>"

lemma health_cache_fresh_witness:
  "\<exists>r'. registry_health ''b'' False 10 (Inr sample_health) (register ''b'' () (new_backend_registry 5)) = Inr (sample_health, r') \<and>
     registry_health ''b'' False 15 (Inl (PyError ''OSError'')) r' = Inr (sample_health, r')"
proof -
  let ?r = "register ''b'' () (new_backend_registry 5)"
  have b: "map_of (backends ?r) ''b'' = Some ()" "map_of (health_cache ?r) ''b'' = None" "health_ttl ?r = 5"
    by (simp_all add: register_def new_backend_registry_def)
  obtain r' where r': "registry_health ''b'' False 10 (Inr sample_health) ?r = Inr (sample_health, r')"
    by (simp add: registry_health_def get_backend_def b)
  show ?thesis
    using health_cache_fresh [OF r' _ b(1), of 15 "Inl (PyError ''OSError'')"] b r' by auto
qed

end
