(* ===== verification/Router.thy ===== *)
theory Router
  imports ModelRegistry Backends Auth
begin

text \<open>
  Routing: the service of \<open>app/routing/router.py\<close> and its construction in
  \<open>app/routing/__init__.py\<close>.  \<open>discovered\<close> is what a backend's \<open>models()\<close> returns or raises at that
  moment, \<open>mk\<close> is the validation that the API's \<open>ModelInfo\<close> makes of its fields.  The locale
  \<open>routing_tables\<close> extends the model directory's contract with that of the backend registry.
\<close>

section \<open>The service\<close>

record 'b route_decision =
  rd_requested_model :: string
  rd_canonical_model :: string
  rd_backend_id :: string
  rd_backend_model :: string
  rd_reason :: string
  rd_backend :: 'b

record 'b routing_service =
  rs_models :: "model_registry option"
  rs_backends :: "'b backend_registry option"
  rs_passthrough :: bool
  rs_default :: "'b option option" \<comment> \<open>the getter, and the backend it returns\<close>

definition configured :: "'b routing_service \<Rightarrow> bool" where
  "configured rs \<longleftrightarrow> \<not> rs_passthrough rs"

definition not_configured_error :: "string \<Rightarrow> exn" where
  "not_configured_error msg = Syn (raise_code BackendNotConfiguredErrorC msg ''backend_not_configured'')"

definition require_default_backend :: "'b routing_service \<Rightarrow> exn + 'b" where
  "require_default_backend rs =
     (case rs_default rs of
        None \<Rightarrow> Inl (not_configured_error
                   ''no default backend configured (passthrough mode unavailable)'')
      | Some None \<Rightarrow> Inl (not_configured_error ''default backend is not available'')
      | Some (Some b) \<Rightarrow> Inr b)"

fun exn_detail :: "exn \<Rightarrow> string" where
  "exn_detail (Syn e) = e_detail e"
| "exn_detail _ = []"

definition discovery_error :: "string \<Rightarrow> exn \<Rightarrow> exn" where
  \<comment> \<open>the chain of except clauses around \<open>backend.models()\<close>\<close>
  "discovery_error what e =
     (if exn_is e BackendTimeoutErrorC
      then Syn (raise_status SynErrorC (what @ '' timed out: '' @ exn_detail e) ''backend_timeout'' 502)
      else if exn_is e BackendProtocolErrorC
      then Syn (raise_status SynErrorC (what @ '' protocol error: '' @ exn_detail e)
                  ''backend_protocol_error'' 502)
      else if exn_is e BackendInvalidResponseErrorC
      then Syn (raise_status SynErrorC (what @ '' invalid response: '' @ exn_detail e)
                  ''backend_invalid_response'' 502)
      else if exn_is e BackendUnavailableErrorC
      then Syn (raise_status SynErrorC (what @ '' failed: '' @ exn_detail e) ''backend_unavailable'' 502)
      else e)"

definition assertion_error :: exn where
  "assertion_error = PyError ''AssertionError''"

definition list_models ::
  "('b \<Rightarrow> exn + model_info list) \<Rightarrow> (model_info \<Rightarrow> exn + model_info) \<Rightarrow> 'b routing_service \<Rightarrow> principal
     \<Rightarrow> exn + model_info list" where
  "list_models discovered mk rs p =
     (if rs_passthrough rs
      then (case require_default_backend rs of
              Inl e \<Rightarrow> Inl e
            | Inr b \<Rightarrow>
                (case discovered b of
                   Inl e \<Rightarrow> Inl (discovery_error ''model discovery'' e)
                 | Inr ms \<Rightarrow> map_res mk (filter (\<lambda>m. can_use_model p (i_id m)) ms)))
      else (case rs_models rs of
              None \<Rightarrow> Inl assertion_error
            | Some r \<Rightarrow>
                map_res mk
                  (map (\<lambda>e. \<lparr> i_id = me_id e, i_object = JStr ''model'', i_owned_by = JStr ''syn'',
                              i_created = JNull \<rparr>)
                     (filter (\<lambda>e. can_use_model p (me_id e)) (list_enabled r)))))"

definition forbidden_error :: "string \<Rightarrow> exn" where
  "forbidden_error model =
     Syn (new_error ModelForbiddenErrorC
            (Some (''principal is not permitted to use model '' @ quoted model))
            (Some ''model_forbidden'') (Some 403) None (Some ''model''))"

definition disabled_error :: "string \<Rightarrow> exn" where
  "disabled_error model =
     Syn (raise_code ModelDisabledErrorC (''model '' @ quoted model @ '' is disabled'') ''model_disabled'')"

definition route ::
  "('b \<Rightarrow> exn + model_info list) \<Rightarrow> 'b routing_service \<Rightarrow> string \<Rightarrow> principal
     \<Rightarrow> exn + 'b route_decision" where
  "route discovered rs requested p =
     (if rs_passthrough rs
      then (case require_default_backend rs of
              Inl e \<Rightarrow> Inl e
            | Inr b \<Rightarrow>
                (let found = (case discovered b of
                                Inr ms \<Rightarrow> Inr ms
                              | Inl e \<Rightarrow> if is_Exception e then Inr [] else Inl e)
                 in case found of
                      Inl e \<Rightarrow> Inl e
                    | Inr ms \<Rightarrow>
                        if requested \<notin> i_id ` set ms then Inl (model_not_found requested)
                        else if \<not> can_use_model p requested then Inl (forbidden_error requested)
                        else Inr \<lparr> rd_requested_model = requested, rd_canonical_model = requested,
                                   rd_backend_id = ''default'', rd_backend_model = requested,
                                   rd_reason = ''passthrough'', rd_backend = b \<rparr>))
      else (case (rs_models rs, rs_backends rs) of
              (Some mr, Some br) \<Rightarrow>
                (case resolve_model mr requested of
                   Inl e \<Rightarrow> Inl e
                 | Inr entry \<Rightarrow>
                     if \<not> me_enabled entry then Inl (disabled_error (me_id entry))
                     else if \<not> can_use_model p (me_id entry) then Inl (forbidden_error (me_id entry))
                     else (case get_backend (me_backend_id entry) br of
                             Inl e \<Rightarrow> Inl e
                           | Inr b \<Rightarrow>
                               let reason = (if requested \<noteq> me_id entry then ''alias_match''
                                             else ''canonical_match'')
                               in Inr \<lparr> rd_requested_model = requested,
                                        rd_canonical_model = me_id entry,
                                        rd_backend_id = me_backend_id entry,
                                        rd_backend_model = me_backend_model entry,
                                        rd_reason = reason, rd_backend = b \<rparr>))
            | _ \<Rightarrow> Inl assertion_error))"

section \<open>Building the service\<close>

definition to_entry :: "model_config \<Rightarrow> model_entry" where
  "to_entry m =
     \<lparr> me_id = mc_id m, me_backend_id = mc_backend_id m, me_backend_model = mc_backend_model m,
       me_enabled = mc_enabled m, me_aliases = mc_aliases m, me_metadata = mc_metadata m \<rparr>"

record timeouts =
  backend_timeout_seconds :: rat
  backend_connect_timeout_seconds :: rat
  backend_health_timeout_seconds :: rat

definition register_config ::
  "class_registry \<Rightarrow> timeouts \<Rightarrow> backend_config \<Rightarrow> backend backend_registry
     \<Rightarrow> exn + backend backend_registry" where
  "register_config classes ts bc r =
     (case build_backend classes (bc_type bc) (bc_base_url bc) (backend_timeout_seconds ts)
             (backend_connect_timeout_seconds ts) (backend_health_timeout_seconds ts) of
        Inl e \<Rightarrow> Inl e
      | Inr b \<Rightarrow> Inr (register (bc_id bc) b r))"

definition build_routing ::
  "(exn + string) option \<Rightarrow> (string \<Rightarrow> string + json) \<Rightarrow> class_registry \<Rightarrow> timeouts \<Rightarrow> backend option
     \<Rightarrow> exn + backend routing_service \<times> backend backend_registry option" where
  "build_routing file loads classes ts default_backend =
     (case load_routing_config file loads of
        Inl e \<Rightarrow> Inl e
      | Inr None \<Rightarrow>
          Inr (\<lparr> rs_models = None, rs_backends = None, rs_passthrough = True,
                 rs_default = Some default_backend \<rparr>, None)
      | Inr (Some raw) \<Rightarrow>
          (case parse_routing_config raw of
             Inl e \<Rightarrow> Inl e
           | Inr parsed \<Rightarrow>
               (case fold_res (register_config classes ts) (pr_backends parsed)
                       (new_backend_registry (backend_health_timeout_seconds ts)) of
                  Inl e \<Rightarrow> Inl e
                | Inr br \<Rightarrow>
                    (case new_model_registry (map to_entry (pr_models parsed)) of
                       Inl e \<Rightarrow> Inl e
                     | Inr mr \<Rightarrow>
                         Inr (\<lparr> rs_models = Some mr, rs_backends = Some br, rs_passthrough = False,
                                rs_default = None \<rparr>, Some br)))))"

section \<open>The contract routing relies on\<close>

locale routing_tables =
  model_directory valid resolve listed ident usable
  for valid :: "'m \<Rightarrow> bool" and resolve :: "'m \<Rightarrow> 'n \<Rightarrow> 'x + 'e" and listed :: "'m \<Rightarrow> 'e list"
    and ident :: "'e \<Rightarrow> 'n" and usable :: "'e \<Rightarrow> bool" +
  fixes target :: "'e \<Rightarrow> 'i"
    and registered :: "'i \<Rightarrow> 'r \<Rightarrow> bool"
    and get :: "'i \<Rightarrow> 'r \<Rightarrow> 'x + 'b"
  assumes get_registered: "registered i r \<longleftrightarrow> (\<exists>b. get i r = Inr b)"
begin

definition dispatch :: "'m \<Rightarrow> 'r \<Rightarrow> 'n \<Rightarrow> 'x + 'e \<times> 'b" where
  "dispatch m r n =
     (case resolve m n of
        Inl x \<Rightarrow> Inl x
      | Inr e \<Rightarrow> (case get (target e) r of Inl x \<Rightarrow> Inl x | Inr b \<Rightarrow> Inr (e, b)))"

text \<open>When the backends of all listed entries are registered, every listed entry can be dispatched,
  under every name that resolves to it and always to the same backend.\<close>

lemma listed_dispatch:
  assumes "valid m" "e \<in> set (listed m)" "registered (target e) r"
  obtains b where "get (target e) r = Inr b" "dispatch m r (ident e) = Inr (e, b)"
proof -
  obtain b where "get (target e) r = Inr b" using assms(3) get_registered by blast
  with that listed_resolves [OF assms(1,2)] show ?thesis by (simp add: dispatch_def)
qed

lemma dispatch_canonical:
  assumes "valid m" "dispatch m r n = Inr (e, b)"
  shows "dispatch m r (ident e) = Inr (e, b)"
proof -
  have "resolve m n = Inr e" "get (target e) r = Inr b"
    using assms(2) by (auto simp: dispatch_def split: sum.splits)
  with resolved_self [OF assms(1)] show ?thesis by (simp add: dispatch_def)
qed

end

interpretation tables: routing_tables registry_ok resolve_model list_enabled me_id me_enabled
  me_backend_id has_backend get_backend
  by unfold_locales (rule has_backend_iff)

section \<open>What routing does\<close>

lemma route_configured:
  assumes "configured rs" "rs_models rs = Some mr" "rs_backends rs = Some br"
  shows "route discovered rs n p =
    (case tables.dispatch mr br n of
       Inl x \<Rightarrow>
         (case resolve_model mr n of
            Inl e \<Rightarrow> Inl e
          | Inr entry \<Rightarrow>
              if \<not> me_enabled entry then Inl (disabled_error (me_id entry))
              else if \<not> can_use_model p (me_id entry) then Inl (forbidden_error (me_id entry))
              else Inl x)
     | Inr (entry, b) \<Rightarrow>
         if \<not> me_enabled entry then Inl (disabled_error (me_id entry))
         else if \<not> can_use_model p (me_id entry) then Inl (forbidden_error (me_id entry))
         else Inr \<lparr> rd_requested_model = n, rd_canonical_model = me_id entry,
                    rd_backend_id = me_backend_id entry, rd_backend_model = me_backend_model entry,
                    rd_reason = (if n \<noteq> me_id entry then ''alias_match'' else ''canonical_match''),
                    rd_backend = b \<rparr>)"
proof (cases "resolve_model mr n")
  case (Inl e)
  with assms show ?thesis by (simp add: route_def configured_def tables.dispatch_def)
next
  case (Inr entry)
  show ?thesis
    by (cases "get_backend (me_backend_id entry) br")
      (simp_all add: route_def tables.dispatch_def Inr assms assms(1) [unfolded configured_def] Let_def)
qed

lemma registry_configs:
  "fold_res (register_config classes ts) bcs r = Inr r' \<Longrightarrow>
     has_backend i r' \<longleftrightarrow> has_backend i r \<or> i \<in> bc_id ` set bcs"
proof (induction bcs arbitrary: r)
  case (Cons bc bcs)
  then obtain r1 where r1: "register_config classes ts bc r = Inr r1"
    "fold_res (register_config classes ts) bcs r1 = Inr r'"
    by (auto simp: res_simps)
  then have "has_backend i r1 \<longleftrightarrow> has_backend i r \<or> i = bc_id bc"
    by (auto simp: register_config_def split: sum.splits)
  with Cons.IH [OF r1(2)] show ?case by auto
qed simp

lemma build_routing_configured:
  assumes "build_routing file loads classes ts db = Inr (rs, Some br)"
  obtains raw parsed mr where "load_routing_config file loads = Inr (Some raw)"
    "parse_routing_config raw = Inr parsed" "configured rs" "rs_models rs = Some mr"
    "rs_backends rs = Some br" "new_model_registry (map to_entry (pr_models parsed)) = Inr mr"
    "\<forall>i. has_backend i br \<longleftrightarrow> i \<in> bc_id ` set (pr_backends parsed)"
proof -
  obtain raw parsed mr where *: "load_routing_config file loads = Inr (Some raw)"
    "parse_routing_config raw = Inr parsed" "configured rs" "rs_models rs = Some mr"
    "rs_backends rs = Some br" "new_model_registry (map to_entry (pr_models parsed)) = Inr mr"
    "fold_res (register_config classes ts) (pr_backends parsed)
       (new_backend_registry (backend_health_timeout_seconds ts)) = Inr br"
    using assms
    by (auto simp: build_routing_def configured_def split: sum.splits option.splits)
  have "\<forall>i. has_backend i br \<longleftrightarrow> i \<in> bc_id ` set (pr_backends parsed)"
    using registry_configs [OF *(7)] by (simp add: has_backend_def new_backend_registry_def)
  with * that show ?thesis by blast
qed

text \<open>What a configured service built from a file does with a name: nothing but the two tables and
  the principal decide.\<close>

definition decision_of :: "'b backend_registry \<Rightarrow> string \<Rightarrow> model_entry \<Rightarrow> 'b route_decision" where
  "decision_of br n e =
     \<lparr> rd_requested_model = n, rd_canonical_model = me_id e,
       rd_backend_id = me_backend_id e, rd_backend_model = me_backend_model e,
       rd_reason = (if n \<noteq> me_id e then ''alias_match'' else ''canonical_match''),
       rd_backend = the (map_of (backends br) (me_backend_id e)) \<rparr>"

definition routed ::
  "model_registry \<Rightarrow> 'b backend_registry \<Rightarrow> string \<Rightarrow> principal \<Rightarrow> exn + 'b route_decision" where
  "routed mr br n p =
     (case resolve_model mr n of
        Inl x \<Rightarrow> Inl x
      | Inr e \<Rightarrow>
          if \<not> me_enabled e then Inl (disabled_error (me_id e))
          else if \<not> can_use_model p (me_id e) then Inl (forbidden_error (me_id e))
          else Inr (decision_of br n e))"

lemma built_route:
  assumes "build_routing file loads classes ts db = Inr (rs, Some br)"
  shows "\<exists>mr. registry_ok mr \<and> rs_models rs = Some mr \<and> configured rs \<and>
    (\<forall>n e. resolve_model mr n = Inr e \<longrightarrow> has_backend (me_backend_id e) br) \<and>
    (\<forall>n x. resolve_model mr n = Inl x \<longrightarrow> x = model_not_found n) \<and>
    (\<forall>discovered n p. route discovered rs n p = routed mr br n p)"
proof -
  obtain raw parsed mr where parsed: "parse_routing_config raw = Inr parsed"
    and rs: "configured rs" "rs_models rs = Some mr" "rs_backends rs = Some br"
    and mr: "new_model_registry (map to_entry (pr_models parsed)) = Inr mr"
    and br: "\<forall>i. has_backend i br \<longleftrightarrow> i \<in> bc_id ` set (pr_backends parsed)"
    using build_routing_configured [OF assms] .
  have es: "entries_ok (map to_entry (pr_models parsed))" "mr = registry_of (map to_entry (pr_models parsed))"
    using mr by (simp_all add: new_model_registry_Inr)
  have backend: "has_backend (me_backend_id e) br" if "resolve_model mr n = Inr e" for n e
  proof -
    have "e \<in> set (map to_entry (pr_models parsed))"
      using that resolve_registry_of [OF es(1)] es(2) by simp
    then show ?thesis
      using parse_config_ok [OF parsed] br by (auto simp: config_ok_def models_ok_def to_entry_def)
  qed
  have "route discovered rs n p = routed mr br n p" for discovered n p
  proof (cases "resolve_model mr n")
    case (Inl x)
    then show ?thesis by (simp add: route_configured [OF rs] tables.dispatch_def routed_def)
  next
    case (Inr e)
    then obtain b where "map_of (backends br) (me_backend_id e) = Some b"
      using backend [OF Inr] by (auto simp: has_backend_map)
    with Inr show ?thesis
      by (simp add: route_configured [OF rs] tables.dispatch_def get_backend_def routed_def decision_of_def)
  qed
  with rs(1,2) mr backend resolve_errors [OF es(1)] es(2) show ?thesis
    by (auto simp: registry_ok_def)
qed

section \<open>Properties\<close>

text \<open>C14: Routing with a configuration is sound: a decision names an enabled model under its
  canonical id, which the principal may use whatever name was requested, and the backend instance
  registered under the model's backend id; the reason says whether the id itself was requested.\<close>

theorem route_sound:
  assumes "build_routing file loads classes ts db = Inr (rs, Some br)"
    "route discovered rs n p = Inr d"
  shows "\<exists>mr e. rs_models rs = Some mr \<and> resolve_model mr n = Inr e \<and>
    resolve_model mr (rd_canonical_model d) = Inr e \<and>
    me_enabled e \<and> rd_canonical_model d = me_id e \<and> can_use_model p (rd_canonical_model d) \<and>
    rd_backend_id d = me_backend_id e \<and> rd_backend_model d = me_backend_model e \<and>
    get_backend (rd_backend_id d) br = Inr (rd_backend d) \<and>
    (rd_reason d = ''canonical_match'' \<longleftrightarrow> n = me_id e)"
proof -
  obtain mr where mr: "registry_ok mr" "rs_models rs = Some mr"
    and backend: "\<forall>n e. resolve_model mr n = Inr e \<longrightarrow> has_backend (me_backend_id e) br"
    and route: "route discovered rs n p = routed mr br n p"
    using built_route [OF assms(1)] by blast
  obtain e where e: "resolve_model mr n = Inr e" "me_enabled e" "can_use_model p (me_id e)"
    and d: "d = decision_of br n e"
    using assms(2) unfolding route routed_def by (auto split: sum.splits if_splits)
  obtain b where b: "map_of (backends br) (me_backend_id e) = Some b"
    using backend e(1) by (auto simp: has_backend_map)
  show ?thesis
    using mr e b models.resolved_self [OF mr(1) e(1)] by (simp add: d decision_of_def get_backend_def)
qed

text \<open>Routing with a configuration fails in three ways only, tried in this order: an unknown name
  (404), a disabled model (404) and a model the principal may not use (403); a backend is never
  missing, and neither the backends' state nor their model lists play a part.\<close>

lemma route_failures:
  assumes "build_routing file loads classes ts db = Inr (rs, Some br)"
    "route discovered rs n p = Inl x"
  shows "\<exists>mr. rs_models rs = Some mr \<and>
    (resolve_model mr n = Inl x \<and> x = model_not_found n \<or>
     (\<exists>e. resolve_model mr n = Inr e \<and>
        (\<not> me_enabled e \<and> x = disabled_error (me_id e) \<or>
         me_enabled e \<and> \<not> can_use_model p (me_id e) \<and> x = forbidden_error (me_id e)))) \<and>
    route discovered' rs n p = Inl x"
proof -
  obtain mr where mr: "rs_models rs = Some mr"
    and unknown: "\<forall>n x. resolve_model mr n = Inl x \<longrightarrow> x = model_not_found n"
    and route: "\<And>discovered. route discovered rs n p = routed mr br n p"
    using built_route [OF assms(1)] by blast
  have "routed mr br n p = Inl x" using assms(2) route by simp
  then show ?thesis
  proof (cases "resolve_model mr n")
    case (Inl y)
    then have "x = y" using \<open>routed mr br n p = Inl x\<close> by (simp add: routed_def)
    moreover have "y = model_not_found n" using unknown Inl by blast
    ultimately show ?thesis using mr Inl route assms(2) by simp
  next
    case (Inr e)
    with \<open>routed mr br n p = Inl x\<close>
    have "\<not> me_enabled e \<and> x = disabled_error (me_id e) \<or>
        me_enabled e \<and> \<not> can_use_model p (me_id e) \<and> x = forbidden_error (me_id e)"
      by (auto simp: routed_def split: if_splits)
    with Inr mr route assms(2) show ?thesis by auto
  qed
qed

text \<open>C32: What is listed can be used: every model the configured service lists for a principal is
  routed for that principal under its id, to itself.\<close>

theorem listed_models_route:
  assumes "build_routing file loads classes ts db = Inr (rs, Some br)"
    "\<And>i i'. mk i = Inr i' \<Longrightarrow> i_id i' = i_id i"
    "list_models discovered mk rs p = Inr ms" "m \<in> set ms"
  shows "\<exists>d. route discovered' rs (i_id m) p = Inr d \<and> rd_canonical_model d = i_id m \<and>
    rd_reason d = ''canonical_match''"
proof -
  obtain mr where mr: "registry_ok mr" "rs_models rs = Some mr" "configured rs"
    and route: "route discovered' rs (i_id m) p = routed mr br (i_id m) p"
    using built_route [OF assms(1)] by blast
  let ?info = "\<lambda>e. \<lparr> i_id = me_id e, i_object = JStr ''model'', i_owned_by = JStr ''syn'', i_created = JNull \<rparr>"
  have "map_res mk (map ?info (filter (\<lambda>e. can_use_model p (me_id e)) (list_enabled mr))) = Inr ms"
    using assms(3) mr by (simp add: list_models_def configured_def)
  then obtain i where i: "i \<in> set (map ?info (filter (\<lambda>e. can_use_model p (me_id e)) (list_enabled mr)))"
    "mk i = Inr m"
    using map_res_elem [OF _ assms(4)] by blast
  then obtain e where e: "e \<in> set (list_enabled mr)" "can_use_model p (me_id e)" "i_id m = me_id e"
    using assms(2) [OF i(2)] by auto
  have "resolve_model mr (me_id e) = Inr e" "me_enabled e"
    using models.listed_resolves [OF mr(1) e(1)] by auto
  with e show ?thesis unfolding route routed_def by (simp add: decision_of_def)
qed

text \<open>A model id wins over an alias: validation accepts a model whose alias is the id of a model
  declared later, and requests for that name then go to the later model, never to the one with the
  alias.\<close>

lemma alias_shadowed_by_later_id:
  assumes "parse_routing_config raw = Inr parsed" "m1 \<in> set (pr_models parsed)"
    "m2 \<in> set (pr_models parsed)" "mc_id m2 \<in> set (mc_aliases m1)"
    "new_model_registry (map to_entry (pr_models parsed)) = Inr mr"
  shows "resolve_model mr (mc_id m2) = Inr (to_entry m2)"
proof -
  have es: "entries_ok (map to_entry (pr_models parsed))" "mr = registry_of (map to_entry (pr_models parsed))"
    using assms(5) by (simp_all add: new_model_registry_Inr)
  have "to_entry m2 \<in> set (map to_entry (pr_models parsed))" "me_id (to_entry m2) = mc_id m2"
    using assms(3) by (simp_all add: to_entry_def)
  with resolve_registry_of [OF es(1)] es(2) show ?thesis by blast
qed

lemma sample_registry:
  "\<exists>mr. new_model_registry (map to_entry sample_models) = Inr mr"
  by (simp add: new_model_registry_Inr entries_ok_def sample_models_def to_entry_def)

lemma alias_shadowed_by_later_id_witness:
  "\<exists>mr. new_model_registry (map to_entry sample_models) = Inr mr \<and>
     resolve_model mr ''m2'' = Inr (to_entry (sample_models ! 1)) \<and>
     ''m2'' \<in> set (mc_aliases (sample_models ! 0))"
proof -
  obtain mr where mr: "new_model_registry (map to_entry sample_models) = Inr mr"
    using sample_registry by blast
  have "resolve_model mr (mc_id (sample_models ! 1)) = Inr (to_entry (sample_models ! 1))"
    by (rule alias_shadowed_by_later_id [OF sample_config_parses, where ?m1.0 = "sample_models ! 0"])
      (use mr in \<open>simp_all add: sample_models_def\<close>)
  with mr show ?thesis by (simp add: sample_models_def)
qed

subsection \<open>The properties on a built service\<close>

definition sample_classes :: class_registry where
  "sample_classes = [(LLAMA_CPP, init_backend ''llama_cpp'' [CapHealth, CapChatCompletions])]"

definition sample_timeouts :: timeouts where
  "sample_timeouts = \<lparr> backend_timeout_seconds = 120, backend_connect_timeout_seconds = 10,
     backend_health_timeout_seconds = 5 \<rparr>"

definition sample_principal :: "string list option \<Rightarrow> principal" where
  "sample_principal ms = \<lparr> p_user_id = ''u'', p_user_name = ''ann'', p_client_id = ''c'',
     p_client_name = ''app'', p_api_key_id = ''k'', p_api_key_prefix = ''syn_live_a'',
     p_allowed_models = ms \<rparr>"

lemma sample_built:
  obtains rs br where
    "build_routing (Some (Inr ''{}'')) (\<lambda>_. Inr (JObj sample_config)) sample_classes sample_timeouts None
       = Inr (rs, Some br)"
proof -
  have "load_routing_config (Some (Inr ''{}'')) (\<lambda>_. Inr (JObj sample_config)) = Inr (Some sample_config)"
    by (simp add: load_routing_config_def py_defs)
  moreover obtain mr where "new_model_registry (map to_entry sample_models) = Inr mr"
    using sample_registry by blast
  ultimately show ?thesis
    using that by (simp add: build_routing_def sample_config_parses register_config_def
        build_backend_def get_backend_class_def sample_classes_def)
qed

lemma built_sample_registry:
  assumes "build_routing (Some (Inr ''{}'')) (\<lambda>_. Inr (JObj sample_config)) sample_classes sample_timeouts None
       = Inr (rs, Some br)"
  shows "\<exists>mr. rs_models rs = Some mr \<and> new_model_registry (map to_entry sample_models) = Inr mr \<and> configured rs"
proof -
  obtain raw parsed mr where *: "load_routing_config (Some (Inr ''{}'')) (\<lambda>_. Inr (JObj sample_config)) = Inr (Some raw)"
    "parse_routing_config raw = Inr parsed" "configured rs" "rs_models rs = Some mr"
    "new_model_registry (map to_entry (pr_models parsed)) = Inr mr"
    using build_routing_configured [OF assms] by metis
  have "raw = sample_config" using *(1) by (simp add: load_routing_config_def py_defs)
  then have "pr_models parsed = sample_models" using *(2) sample_config_parses by auto
  with * show ?thesis by simp
qed

theorem route_sound_witness:
  "\<exists>rs br d. build_routing (Some (Inr ''{}'')) (\<lambda>_. Inr (JObj sample_config)) sample_classes sample_timeouts None
       = Inr (rs, Some br) \<and>
     route (\<lambda>_. Inr []) rs ''m2'' (sample_principal (Some [''m2''])) = Inr d \<and>
     can_use_model (sample_principal (Some [''m2''])) (rd_canonical_model d)"
proof -
  obtain rs br where b: "build_routing (Some (Inr ''{}'')) (\<lambda>_. Inr (JObj sample_config)) sample_classes sample_timeouts None
       = Inr (rs, Some br)"
    by (rule sample_built)
  obtain mr where mr: "rs_models rs = Some mr" "new_model_registry (map to_entry sample_models) = Inr mr"
    and route: "route (\<lambda>_. Inr []) rs ''m2'' (sample_principal (Some [''m2''])) =
      routed mr br ''m2'' (sample_principal (Some [''m2'']))"
    using built_sample_registry [OF b] built_route [OF b] by fastforce
  have "to_entry (sample_models ! 1) \<in> set (map to_entry sample_models)"
    by (simp add: sample_models_def)
  then have "resolve_model mr ''m2'' = Inr (to_entry (sample_models ! 1))"
    using mr(2) resolve_registry_of [of "map to_entry sample_models" "''m2''" "to_entry (sample_models ! 1)"]
    by (simp add: new_model_registry_Inr) (simp add: sample_models_def to_entry_def)
  then have "route (\<lambda>_. Inr []) rs ''m2'' (sample_principal (Some [''m2''])) =
      Inr (decision_of br ''m2'' (to_entry (sample_models ! 1)))"
    unfolding route routed_def
    by (simp add: to_entry_def can_use_model_def sample_principal_def sample_models_def)
  with route_sound [OF b this] b show ?thesis by blast
qed

lemma route_failures_witness:
  "\<exists>rs br x. build_routing (Some (Inr ''{}'')) (\<lambda>_. Inr (JObj sample_config)) sample_classes sample_timeouts None
       = Inr (rs, Some br) \<and>
     route (\<lambda>_. Inr []) rs ''zz'' (sample_principal None) = Inl x \<and>
     route (\<lambda>_. Inl CancelledError) rs ''zz'' (sample_principal None) = Inl x"
proof -
  obtain rs br where b: "build_routing (Some (Inr ''{}'')) (\<lambda>_. Inr (JObj sample_config)) sample_classes sample_timeouts None
       = Inr (rs, Some br)"
    by (rule sample_built)
  obtain mr where mr: "rs_models rs = Some mr" "new_model_registry (map to_entry sample_models) = Inr mr"
    and route: "route (\<lambda>_. Inr []) rs ''zz'' (sample_principal None) = routed mr br ''zz'' (sample_principal None)"
    using built_sample_registry [OF b] built_route [OF b] by fastforce
  have "resolve_model mr ''zz'' \<noteq> Inr e" for e
    using mr(2) resolve_registry_of [of "map to_entry sample_models" "''zz''" e]
    by (auto simp: new_model_registry_Inr) (auto simp: sample_models_def to_entry_def)
  then obtain x where "resolve_model mr ''zz'' = Inl x" by (cases "resolve_model mr ''zz''") auto
  then have "route (\<lambda>_. Inr []) rs ''zz'' (sample_principal None) = Inl x"
    by (simp add: route routed_def)
  with route_failures [OF b this] b show ?thesis by blast
qed

theorem listed_models_route_witness:
  "\<exists>rs br ms. build_routing (Some (Inr ''{}'')) (\<lambda>_. Inr (JObj sample_config)) sample_classes sample_timeouts None
       = Inr (rs, Some br) \<and>
     list_models (\<lambda>_. Inr []) Inr rs (sample_principal None) = Inr ms \<and> length ms = 2 \<and>
     (\<forall>m\<in>set ms. \<exists>d. route (\<lambda>_. Inr []) rs (i_id m) (sample_principal None) = Inr d)"
proof -
  obtain rs br where b: "build_routing (Some (Inr ''{}'')) (\<lambda>_. Inr (JObj sample_config)) sample_classes sample_timeouts None
       = Inr (rs, Some br)"
    by (rule sample_built)
  obtain mr where mr: "rs_models rs = Some mr" "mr = registry_of (map to_entry sample_models)" "configured rs"
    using built_sample_registry [OF b] by (auto simp: new_model_registry_Inr)
  have "list_models (\<lambda>_. Inr []) Inr rs (sample_principal None) =
      Inr (map (\<lambda>n. \<lparr> i_id = n, i_object = JStr ''model'', i_owned_by = JStr ''syn'', i_created = JNull \<rparr>)
             [''m1'', ''m2''])"
    using mr by (simp add: list_models_def configured_def list_enabled_registry_of sample_models_def
        to_entry_def can_use_model_def sample_principal_def)
  then obtain ms where ms: "list_models (\<lambda>_. Inr []) Inr rs (sample_principal None) = Inr ms" "length ms = 2"
    by simp
  have "\<exists>d. route (\<lambda>_. Inr []) rs (i_id m) (sample_principal None) = Inr d" if "m \<in> set ms" for m
    using listed_models_route [OF b _ ms(1) that, of "\<lambda>_. Inr []"] by auto
  with b ms show ?thesis by blast
qed

end
