(* ===== verification/Sse.thy ===== *)
theory Sse
  imports Prelude "HOL-Library.Word" "HOL-Library.While_Combinator"
begin

text \<open>
  The parser of server-sent events, \<open>app/core/sse.py\<close>, from bytes to events.  Text is a list of
  code points.  The decoder is Python's \<open>bytes.decode("utf-8", errors="replace")\<close>: one U+FFFD for
  each maximal prefix of a character that the bytes break off.  The generator's buffer is the
  state; each chunk yields its events at once.
\<close>

section \<open>Bytes and text\<close>

type_synonym byte = "8 word"
type_synonym text_data = "nat list"

definition replacement :: nat where
  "replacement = 0xFFFD"

definition cont :: "byte \<Rightarrow> bool" where
  "cont b \<longleftrightarrow> 0x80 \<le> b \<and> b \<le> 0xBF"

definition low6 :: "byte \<Rightarrow> nat" where
  "low6 b = unat b - 0x80"

definition second3 :: "byte \<Rightarrow> byte \<Rightarrow> bool" where
  \<comment> \<open>may \<open>c\<close> follow the lead byte \<open>b\<close> of a character of three bytes\<close>
  "second3 b c \<longleftrightarrow>
     (if b = 0xE0 then 0xA0 \<le> c \<and> c \<le> 0xBF
      else if b = 0xED then 0x80 \<le> c \<and> c \<le> 0x9F
      else cont c)"

definition second4 :: "byte \<Rightarrow> byte \<Rightarrow> bool" where
  "second4 b c \<longleftrightarrow>
     (if b = 0xF0 then 0x90 \<le> c \<and> c \<le> 0xBF
      else if b = 0xF4 then 0x80 \<le> c \<and> c \<le> 0x8F
      else cont c)"

fun decode1 :: "byte \<Rightarrow> byte list \<Rightarrow> nat \<times> nat" where
  \<comment> \<open>the code point that starts with this byte, and how many of the bytes after it it takes\<close>
  "decode1 b bs =
     (if b < 0x80 then (unat b, 0)
      else if 0xC2 \<le> b \<and> b \<le> 0xDF then
        (case bs of
           c # _ \<Rightarrow> if cont c then ((unat b - 0xC0) * 64 + low6 c, 1) else (replacement, 0)
         | [] \<Rightarrow> (replacement, 0))
      else if 0xE0 \<le> b \<and> b \<le> 0xEF then
        (case bs of
           c # cs \<Rightarrow>
             if \<not> second3 b c then (replacement, 0)
             else (case cs of
                 d # _ \<Rightarrow>
                   if cont d then ((unat b - 0xE0) * 4096 + low6 c * 64 + low6 d, 2)
                   else (replacement, 1)
               | [] \<Rightarrow> (replacement, 1))
         | [] \<Rightarrow> (replacement, 0))
      else if 0xF0 \<le> b \<and> b \<le> 0xF4 then
        (case bs of
           c # cs \<Rightarrow>
             if \<not> second4 b c then (replacement, 0)
             else (case cs of
                 d # ds \<Rightarrow>
                   if \<not> cont d then (replacement, 1)
                   else (case ds of
                       e # _ \<Rightarrow>
                         if cont e
                         then ((unat b - 0xF0) * 262144 + low6 c * 4096 + low6 d * 64 + low6 e, 3)
                         else (replacement, 2)
                     | [] \<Rightarrow> (replacement, 2))
               | [] \<Rightarrow> (replacement, 1))
         | [] \<Rightarrow> (replacement, 0))
      else (replacement, 0))"

declare decode1.simps [simp del]

function decode :: "byte list \<Rightarrow> text_data" where
  "decode [] = []"
| "decode (b # bs) = (let (c, n) = decode1 b bs in c # decode (drop n bs))"
  by pat_completeness auto
termination by (relation "measure length") auto

definition ascii :: "byte list \<Rightarrow> bool" where
  "ascii bs \<longleftrightarrow> (\<forall>b\<in>set bs. b < 0x80)"

definition text_space :: "nat \<Rightarrow> bool" where
  "text_space n \<longleftrightarrow>
     n \<in> {9, 10, 11, 12, 13, 28, 29, 30, 31, 32, 133, 160, 0x1680, 0x2028, 0x2029, 0x202F, 0x205F, 0x3000}
     \<or> (0x2000 \<le> n \<and> n \<le> 0x200A)"

definition text_strip :: "text_data \<Rightarrow> text_data" where
  "text_strip t = rev (dropWhile text_space (rev (dropWhile text_space t)))"

definition of_text :: "string \<Rightarrow> text_data" where
  \<comment> \<open>a literal of the source\<close>
  "of_text s = map of_char s"

section \<open>One event\<close>

record sse_event =
  ev_data :: text_data
  ev_event :: "text_data option"
  ev_id :: "text_data option"

definition is_done :: "sse_event \<Rightarrow> bool" where
  "is_done ev \<longleftrightarrow> text_strip (ev_data ev) = of_text ''[DONE]''"

record block_state =
  data_parts :: "text_data list"
  event_name :: "text_data option"
  event_id :: "text_data option"

definition strip_cr :: "text_data \<Rightarrow> text_data" where
  "strip_cr line = rev (dropWhile (\<lambda>c. c = 13) (rev line))"

definition parse_line :: "text_data \<Rightarrow> block_state \<Rightarrow> block_state" where
  "parse_line line0 s =
     (let line = strip_cr line0
      in if line = [] then s
         else if hd line = 58 then s
         else
           let (field_name, value) =
             (if 58 \<in> set line
              then (let v = tl (dropWhile (\<lambda>c. c \<noteq> 58) line)
                    in (takeWhile (\<lambda>c. c \<noteq> 58) line,
                        if v \<noteq> [] \<and> hd v = 32 then tl v else v))
              else (line, []))
           in if field_name = of_text ''data'' then s\<lparr> data_parts := data_parts s @ [value] \<rparr>
              else if field_name = of_text ''event'' then s\<lparr> event_name := Some value \<rparr>
              else if field_name = of_text ''id'' then s\<lparr> event_id := Some value \<rparr>
              else s)"

definition parse_event_block :: "text_data \<Rightarrow> sse_event option" where
  "parse_event_block block =
     (let s = fold parse_line (split_on 10 block)
                \<lparr> data_parts = [], event_name = None, event_id = None \<rparr>
      in if data_parts s = [] \<and> event_name s = None then None
         else Some \<lparr> ev_data = join [10] (data_parts s), ev_event = event_name s, ev_id = event_id s \<rparr>)"

section \<open>The stream\<close>

fun cut_blank :: "text_data \<Rightarrow> (text_data \<times> text_data) option" where
  \<comment> \<open>\<open>buffer.split("\n\n", 1)\<close>, when the buffer has a blank line\<close>
  "cut_blank (a # b # r) =
     (if a = 10 \<and> b = 10 then Some ([], r)
      else (case cut_blank (b # r) of None \<Rightarrow> None | Some (u, v) \<Rightarrow> Some (a # u, v)))"
| "cut_blank _ = None"

lemma cut_blank_Some: "cut_blank s = Some (u, v) \<Longrightarrow> s = u @ 10 # 10 # v"
  by (induction s arbitrary: u v rule: cut_blank.induct) (auto split: if_splits option.splits)

function drain :: "text_data \<Rightarrow> text_data list \<times> text_data" where
  \<comment> \<open>the blocks the inner loop takes off the buffer, and what it leaves\<close>
  "drain s =
     (case cut_blank s of
        None \<Rightarrow> ([], s)
      | Some (block, r) \<Rightarrow> (let (bs, r') = drain r in (block # bs, r')))"
  by pat_completeness auto
termination
  by (relation "measure length") (auto dest: cut_blank_Some)

declare drain.simps [simp del]

definition drain_while :: "text_data \<Rightarrow> (text_data list \<times> text_data) option" where
  \<comment> \<open>the inner loop as it is written; None would be a loop that never ends\<close>
  "drain_while s =
     while_option (\<lambda>(out, buffer). cut_blank buffer \<noteq> None)
       (\<lambda>(out, buffer). case cut_blank buffer of Some (block, r) \<Rightarrow> (out @ [block], r) | None \<Rightarrow> (out, buffer))
       ([], s)"

definition block_events :: "text_data list \<Rightarrow> sse_event list" where
  "block_events bs = List.map_filter parse_event_block bs"

definition feed :: "byte list \<Rightarrow> text_data \<Rightarrow> sse_event list \<times> text_data" where
  \<comment> \<open>one turn of the outer loop\<close>
  "feed chunk buffer =
     (if chunk = [] then ([], buffer)
      else (let (bs, r) = drain (buffer @ decode chunk) in (block_events bs, r)))"

definition flush :: "text_data \<Rightarrow> sse_event list" where
  "flush buffer = (if text_strip buffer \<noteq> [] then block_events [buffer] else [])"

fun feed_all :: "byte list list \<Rightarrow> text_data \<Rightarrow> sse_event list \<times> text_data" where
  "feed_all [] buffer = ([], buffer)"
| "feed_all (c # cs) buffer =
     (let (es, b) = feed c buffer; (es', b') = feed_all cs b in (es @ es', b'))"

definition parse_sse :: "byte list list \<Rightarrow> sse_event list" where
  "parse_sse chunks = (let (es, b) = feed_all chunks [] in es @ flush b)"

section \<open>Decoding\<close>

lemma decode_ascii_append: "ascii bs \<Longrightarrow> decode (bs @ bs') = map unat bs @ decode bs'"
  by (induction bs) (auto simp: ascii_def decode1.simps)

lemma decode_ascii: "ascii bs \<Longrightarrow> decode bs = map unat bs"
  using decode_ascii_append [of bs "[]"] by simp

section \<open>The parser does not see the chunks\<close>

lemma cut_blank_append:
  "cut_blank s = Some (u, v) \<Longrightarrow> cut_blank (s @ t) = Some (u, v @ t)"
  by (induction s arbitrary: u v rule: cut_blank.induct) (auto split: if_splits option.splits)

lemma drain_rest: "drain s = (bs, r) \<Longrightarrow> cut_blank r = None"
proof (induction s arbitrary: bs r rule: drain.induct)
  case (1 s)
  show ?case
  proof (cases "cut_blank s")
    case None
    with 1 show ?thesis by (simp add: drain.simps [of s])
  next
    case (Some uv)
    then obtain u v where uv: "cut_blank s = Some (u, v)" by (cases uv) auto
    obtain bs' r' where d: "drain v = (bs', r')" by (cases "drain v")
    from "1.prems" uv d have "r = r'" by (simp add: drain.simps [of s])
    with "1.IH" [OF uv refl d] show ?thesis by simp
  qed
qed

lemma drain_append:
  "drain (s @ t) =
     (let (bs, r) = drain s; (bs', r') = drain (r @ t) in (bs @ bs', r'))"
proof (induction s rule: drain.induct)
  case (1 s)
  show ?case
  proof (cases "cut_blank s")
    case None
    then show ?thesis by (simp add: drain.simps [of s] split_beta)
  next
    case (Some uv)
    then obtain u v where uv: "cut_blank s = Some (u, v)" by (cases uv) auto
    have "drain (s @ t) = (let (bs, r) = drain (v @ t) in (u # bs, r))"
      by (subst drain.simps) (simp add: cut_blank_append [OF uv])
    moreover have "drain s = (let (bs, r) = drain v in (u # bs, r))"
      by (subst drain.simps) (simp add: uv)
    ultimately show ?thesis
      using "1.IH" [OF uv refl] by (simp add: split_beta Let_def)
  qed
qed

lemma block_events_simps [simp]:
  "block_events [] = []"
  "block_events (b # bs) = (case parse_event_block b of None \<Rightarrow> [] | Some e \<Rightarrow> [e]) @ block_events bs"
  "block_events (bs @ bs') = block_events bs @ block_events bs'"
  by (simp_all add: block_events_def map_filter_def split: option.split)

lemma feed_all_text:
  assumes "cut_blank buffer = None"
  shows "feed_all chunks buffer =
    (let (bs, r) = drain (buffer @ concat (map decode chunks)) in (block_events bs, r))"
  using assms
proof (induction chunks arbitrary: buffer)
  case Nil
  then show ?case by (simp add: drain.simps)
next
  case (Cons c cs)
  obtain bs r where d: "drain (buffer @ decode c) = (bs, r)" by (cases "drain (buffer @ decode c)")
  have feed: "feed c buffer = (block_events bs, r)"
    using d Cons.prems by (auto simp: feed_def drain.simps)
  have "cut_blank r = None" by (rule drain_rest [OF d])
  then show ?case
    using Cons.IH [of r] drain_append [of "buffer @ decode c" "concat (map decode cs)"]
    by (simp add: feed d split_beta Let_def)
qed

definition parse_text :: "text_data \<Rightarrow> sse_event list" where
  "parse_text t = (let (bs, r) = drain t in block_events bs @ flush r)"

lemma parse_sse_text: "parse_sse chunks = parse_text (concat (map decode chunks))"
  by (simp add: parse_sse_def feed_all_text parse_text_def split_beta Let_def)

section \<open>Frames\<close>

definition sse_frame :: "text_data \<Rightarrow> text_data" where
  \<comment> \<open>the text of one event as the gateway writes it\<close>
  "sse_frame d = of_text ''data: '' @ d @ [10, 10]"

lemma cut_blank_frame: "10 \<notin> set u \<Longrightarrow> cut_blank (u @ 10 # 10 # r) = Some (u, r)"
proof (induction u)
  case (Cons a u)
  then show ?case by (cases u) auto
qed simp

lemma cut_blank_None: "cut_blank s = None \<longleftrightarrow> (\<nexists>u v. s = u @ 10 # 10 # v)"
proof -
  have "cut_blank (u @ 10 # 10 # v) \<noteq> None" for u v
  proof (induction u)
    case (Cons a u)
    then show ?case by (cases u) auto
  qed simp
  then show ?thesis by (metis cut_blank_Some not_None_eq surj_pair)
qed

lemma of_text_data: "of_text ''data: '' = [100, 97, 116, 97, 58, 32]" "of_text ''data'' = [100, 97, 116, 97]"
  by (simp_all add: of_text_def)

lemma drain_frames:
  "\<forall>d\<in>set ds. 10 \<notin> set d \<Longrightarrow>
     drain (concat (map sse_frame ds)) = (map (\<lambda>d. of_text ''data: '' @ d) ds, [])"
proof (induction ds)
  case Nil
  then show ?case by (simp add: drain.simps)
next
  case (Cons d ds)
  have "cut_blank ((of_text ''data: '' @ d) @ 10 # 10 # concat (map sse_frame ds)) =
      Some (of_text ''data: '' @ d, concat (map sse_frame ds))"
    using Cons.prems by (intro cut_blank_frame) (simp add: of_text_data)
  moreover have "concat (map sse_frame (d # ds)) = (of_text ''data: '' @ d) @ 10 # 10 # concat (map sse_frame ds)"
    by (simp add: sse_frame_def)
  moreover have "drain (concat (map sse_frame ds)) = (map (\<lambda>d. of_text ''data: '' @ d) ds, [])"
    using Cons by simp
  ultimately show ?case
    by (subst drain.simps) simp
qed

lemma split_on_none: "c \<notin> set s \<Longrightarrow> split_on c s = [s]"
  by (induction s) auto

lemma split_on_append: "c \<notin> set u \<Longrightarrow> split_on c (u @ c # r) = u # split_on c r"
  by (induction u) auto

lemma strip_cr_id: "s = [] \<or> last s \<noteq> 13 \<Longrightarrow> strip_cr s = s"
  by (cases s rule: rev_cases) (auto simp: strip_cr_def)

lemma strip_cr_cr: "s \<noteq> [] \<Longrightarrow> last s \<noteq> 13 \<Longrightarrow> strip_cr (s @ [13]) = s"
  by (cases s rule: rev_cases) (auto simp: strip_cr_def)

lemma parse_data_line:
  assumes "strip_cr line = of_text ''data: '' @ d"
  shows "parse_line line s = s\<lparr> data_parts := data_parts s @ [d] \<rparr>"
  using assms by (simp add: parse_line_def Let_def of_text_data)

lemma parse_data_block:
  assumes "10 \<notin> set d" "d = [] \<or> last d \<noteq> 13"
  shows "parse_event_block (of_text ''data: '' @ d) = Some \<lparr> ev_data = d, ev_event = None, ev_id = None \<rparr>"
proof -
  have "strip_cr (of_text ''data: '' @ d) = of_text ''data: '' @ d"
    using assms(2) by (intro strip_cr_id) (auto simp: of_text_data)
  moreover have "split_on 10 (of_text ''data: '' @ d) = [of_text ''data: '' @ d]"
    using assms(1) by (intro split_on_none) (simp add: of_text_data)
  ultimately show ?thesis by (simp add: parse_event_block_def parse_data_line)
qed

lemma flush_Nil [simp]: "flush [] = []"
  by (simp add: flush_def text_strip_def)

lemma parse_frames:
  assumes "\<forall>d\<in>set ds. 10 \<notin> set d \<and> (d = [] \<or> last d \<noteq> 13)"
  shows "parse_text (concat (map sse_frame ds)) = map (\<lambda>d. \<lparr> ev_data = d, ev_event = None, ev_id = None \<rparr>) ds"
proof -
  have "block_events (map (\<lambda>d. of_text ''data: '' @ d) ds) =
      map (\<lambda>d. \<lparr> ev_data = d, ev_event = None, ev_id = None \<rparr>) ds"
    using assms by (induction ds) (auto simp: parse_data_block)
  then show ?thesis
    using assms by (simp add: parse_text_def drain_frames)
qed

section \<open>Properties\<close>

lemma drain_while_from:
  "while_option (\<lambda>(out, buffer). cut_blank buffer \<noteq> None)
     (\<lambda>(out, buffer). case cut_blank buffer of Some (block, r) \<Rightarrow> (out @ [block], r) | None \<Rightarrow> (out, buffer))
     (out, s) = Some (out @ fst (drain s), snd (drain s))"
proof (induction s arbitrary: out rule: drain.induct)
  case (1 s)
  show ?case
  proof (cases "cut_blank s")
    case None
    then show ?thesis by (subst while_option_unfold) (simp add: drain.simps [of s] del: not_None_eq)
  next
    case (Some uv)
    then obtain u v where uv: "cut_blank s = Some (u, v)" by (cases uv) auto
    show ?thesis
      by (subst while_option_unfold)
        (simp add: uv 1 [OF uv refl] drain.simps [of s] split_beta Let_def del: not_None_eq)
  qed
qed

lemma drain_content: "drain s = (bs, r) \<Longrightarrow> s = concat (map (\<lambda>b. b @ [10, 10]) bs) @ r"
proof (induction s arbitrary: bs r rule: drain.induct)
  case (1 s)
  show ?case
  proof (cases "cut_blank s")
    case None
    with 1(2) show ?thesis by (simp add: drain.simps [of s])
  next
    case (Some uv)
    then obtain u v where uv: "cut_blank s = Some (u, v)" by (cases uv) auto
    obtain bs' r' where d: "drain v = (bs', r')" by (cases "drain v")
    with 1(2) uv have "bs = u # bs'" "r = r'" by (auto simp: drain.simps [of s])
    with 1(1) [OF uv refl d] cut_blank_Some [OF uv] show ?thesis by simp
  qed
qed

text \<open>C38: The loop that takes events off the buffer ends for every buffer; it only cuts at blank lines, so
  the blocks and the rest make up the buffer again, it leaves no blank line behind, and it runs at
  most once for every two characters.\<close>

theorem drain_loop_ends:
  "\<exists>bs r. drain_while s = Some (bs, r) \<and> s = concat (map (\<lambda>b. b @ [10, 10]) bs) @ r \<and>
     cut_blank r = None \<and> 2 * length bs \<le> length s"
proof -
  obtain bs r where d: "drain s = (bs, r)" by (cases "drain s")
  have s: "s = concat (map (\<lambda>b. b @ [10, 10]) bs) @ r" by (rule drain_content [OF d])
  have "2 * length bs \<le> length (concat (map (\<lambda>b. b @ [10, 10 :: nat]) bs))" by (induction bs) auto
  then have "2 * length bs \<le> length s" using s by (metis length_append trans_le_add1)
  moreover have "drain_while s = Some (bs, r)" using drain_while_from [of "[]" s] d by (simp add: drain_while_def)
  ultimately show ?thesis using s drain_rest [OF d] by blast
qed

text \<open>Reassembly: for a stream of ASCII bytes the events do not depend on how the transport cuts
  the bytes into chunks, inside a line or inside the blank line that ends an event included.\<close>

lemma chunks_irrelevant:
  assumes "concat chunks = concat chunks'" "ascii (concat chunks)"
  shows "parse_sse chunks = parse_sse chunks'"
proof -
  have dec: "concat (map decode cs) = map unat (concat cs)" if "ascii (concat cs)" for cs
    using that by (induction cs) (auto simp: decode_ascii ascii_def)
  have "concat (map decode chunks) = concat (map decode chunks')"
    using dec [OF assms(2)] dec [of chunks'] assms by simp
  then show ?thesis by (simp add: parse_sse_text)
qed

definition bytes_of :: "string \<Rightarrow> byte list" where
  "bytes_of s = map (\<lambda>c. of_nat (of_char c)) s"

lemma chunks_irrelevant_witness:
  "parse_sse [bytes_of ''data: a'' @ [10], [10], bytes_of ''da'', bytes_of ''ta: b'' @ [10, 10]] =
   parse_sse [bytes_of ''data: a'' @ [10, 10] @ bytes_of ''data: b'' @ [10, 10]]"
  by (rule chunks_irrelevant) (simp_all add: bytes_of_def ascii_def)

text \<open>Round trip: frames as the gateway writes them, in any chunks that decode to their text, are
  read back as exactly those events, when no payload has a line feed or ends in a carriage return.\<close>

lemma frames_round_trip:
  assumes "\<forall>d\<in>set ds. 10 \<notin> set d \<and> (d = [] \<or> last d \<noteq> 13)"
    "concat (map decode chunks) = concat (map sse_frame ds)"
  shows "map ev_data (parse_sse chunks) = ds"
  using parse_frames [OF assms(1)] assms(2) by (simp add: parse_sse_text o_def)

lemma frames_round_trip_witness:
  "map ev_data (parse_sse [bytes_of ''data: a'' @ [10], [10]]) = [of_text ''a'']"
  by (rule frames_round_trip) (simp_all add: bytes_of_def of_text_def sse_frame_def decode1.simps)

text \<open>Events that end in CRLF are not told apart: a whole stream of them is one event, whose data
  is all their data joined by line feeds.\<close>

lemma crlf_events_merge:
  assumes "ds \<noteq> []" "\<forall>d\<in>set ds. d \<noteq> [] \<and> 10 \<notin> set d \<and> 13 \<notin> set d"
    "concat (map decode chunks) = concat (map (\<lambda>d. of_text ''data: '' @ d @ [13, 10, 13, 10]) ds)"
  shows "map ev_data (parse_sse chunks) = [join [10] ds]"
proof -
  let ?crlf = "\<lambda>ds. concat (map (\<lambda>d. of_text ''data: '' @ d @ [13, 10, 13, 10]) ds)"
  have fold: "fold parse_line (split_on 10 (?crlf ds)) s = s\<lparr> data_parts := data_parts s @ ds \<rparr>"
    if "\<forall>d\<in>set ds. d \<noteq> [] \<and> 10 \<notin> set d \<and> 13 \<notin> set d" for ds s
    using that
  proof (induction ds arbitrary: s)
    case Nil
    then show ?case by (simp add: parse_line_def strip_cr_def)
  next
    case (Cons d ds)
    have "split_on 10 (?crlf (d # ds)) =
        (of_text ''data: '' @ d @ [13]) # [13] # split_on 10 (?crlf ds)"
      using Cons.prems split_on_append [of 10 "of_text ''data: '' @ d @ [13]" "13 # 10 # ?crlf ds"]
      by (simp add: of_text_data)
    moreover have "last d \<noteq> 13" using Cons.prems by (metis last_in_set list.set_intros(1))
    then have "strip_cr ((of_text ''data: '' @ d) @ [13]) = of_text ''data: '' @ d"
      using Cons.prems by (intro strip_cr_cr) (auto simp: of_text_data)
    moreover have "parse_line [13] s = s" for s by (simp add: parse_line_def strip_cr_def)
    ultimately show ?case
      using Cons by (simp add: parse_data_line [of "of_text ''data: '' @ d @ [13]" d])
  qed
  have "cut_blank (?crlf ds) = None"
    using assms(2)
  proof (induction ds)
    case (Cons d ds)
    have step: "10 \<notin> set u \<Longrightarrow> u \<noteq> [] \<Longrightarrow> cut_blank r = None \<Longrightarrow> r = [] \<or> hd r \<noteq> 10 \<Longrightarrow>
        cut_blank (u @ 10 # r) = None" for u r
    proof (induction u)
      case (Cons a u)
      then show ?case by (cases u; cases r) auto
    qed simp
    have "?crlf ds = [] \<or> hd (?crlf ds) \<noteq> 10" by (cases ds) (simp_all add: of_text_data)
    moreover have "cut_blank (?crlf ds) = None" using Cons.IH Cons.prems by simp
    ultimately have "cut_blank ([13] @ 10 # ?crlf ds) = None"
      by (intro step [of "[13]" "?crlf ds"]) simp_all
    then have "cut_blank ((of_text ''data: '' @ d @ [13]) @ 10 # ([13] @ 10 # ?crlf ds)) = None"
      using Cons.prems by (intro step [of "of_text ''data: '' @ d @ [13]" "[13] @ 10 # ?crlf ds"]) (auto simp: of_text_data)
    then show ?case by simp
  qed simp
  then have "drain (?crlf ds) = ([], ?crlf ds)" by (simp add: drain.simps)
  moreover have "text_strip (?crlf ds) \<noteq> []"
    using assms(1) by (cases ds) (auto simp: text_strip_def dropWhile_eq_Nil_conv of_text_data text_space_def)
  ultimately show ?thesis
    using assms(1,2)
    by (simp add: parse_sse_text assms(3) parse_text_def flush_def parse_event_block_def fold)
qed

lemma crlf_events_merge_witness:
  "map ev_data (parse_sse [bytes_of ''data: a'' @ [13, 10, 13, 10], bytes_of ''data: b'' @ [13, 10, 13, 10]]) =
   [of_text ''a'' @ [10] @ of_text ''b'']"
proof -
  have "map ev_data (parse_sse [bytes_of ''data: a'' @ [13, 10, 13, 10], bytes_of ''data: b'' @ [13, 10, 13, 10]]) =
      [join [10] [of_text ''a'', of_text ''b'']]"
    by (rule crlf_events_merge) (simp_all add: bytes_of_def of_text_def decode1.simps)
  then show ?thesis by simp
qed

text \<open>A character cut by a chunk boundary is lost: where a two-byte character of an event's data
  falls on the boundary the event holds two U+FFFD, though the same bytes in one chunk are read as
  the character.\<close>

lemma cut_character_lost:
  assumes "0xC2 \<le> b" "b \<le> 0xDF" "cont c"
  shows "map ev_data (parse_sse [bytes_of ''data: '' @ [b, c, 10, 10]]) =
      [[(unat b - 0xC0) * 64 + low6 c]] \<and>
    map ev_data (parse_sse [bytes_of ''data: '' @ [b], [c, 10, 10]]) = [[replacement, replacement]]"
proof -
  have pre: "ascii (bytes_of ''data: '')" "map unat (bytes_of ''data: '') = of_text ''data: ''"
    by (simp_all add: bytes_of_def ascii_def of_text_def)
  have lead: "\<not> b < 0x80" using assms(1) by (simp add: word_less_nat_alt word_le_nat_alt)
  have c: "\<not> c < 0x80" "\<not> 0xC2 \<le> c" "\<not> 0xE0 \<le> c" "\<not> 0xF0 \<le> c"
    using assms(3) by (simp_all add: cont_def word_less_nat_alt word_le_nat_alt)
  have nl: "decode [10, 10] = [10, 10]" by (simp add: decode1.simps)
  have "decode [b, c, 10, 10] = [(unat b - 0xC0) * 64 + low6 c, 10, 10]"
    using assms lead nl by (simp add: decode1.simps [of b])
  moreover have "decode [b] = [replacement]" "decode [c, 10, 10] = [replacement, 10, 10]"
    using assms lead c nl by (simp_all add: decode1.simps [of b] decode1.simps [of c])
  ultimately have
    "concat (map decode [bytes_of ''data: '' @ [b, c, 10, 10]]) =
       concat (map sse_frame [[(unat b - 0xC0) * 64 + low6 c]])"
    "concat (map decode [bytes_of ''data: '' @ [b], [c, 10, 10]]) =
       concat (map sse_frame [[replacement, replacement]])"
    by (simp_all add: decode_ascii_append [OF pre(1)] pre(2) sse_frame_def del: decode.simps)
  moreover have "2 \<le> unat b - 0xC0"
    using assms(1) by (simp add: word_le_nat_alt)
  then have "(unat b - 0xC0) * 64 + low6 c \<ge> 128" by simp
  ultimately show ?thesis
    using parse_frames [of "[[(unat b - 0xC0) * 64 + low6 c]]"] parse_frames [of "[[replacement, replacement]]"]
    by (simp add: parse_sse_text replacement_def)
qed

lemma cut_character_lost_witness:
  "map ev_data (parse_sse [bytes_of ''data: '' @ [0xC3], [0xA9, 10, 10]]) = [[replacement, replacement]]"
  by (rule cut_character_lost [THEN conjunct2]) (simp_all add: cont_def)

end
