(* ===== verification/LlamaCpp.thy ===== *)
theory LlamaCpp
  imports Backends Sse
begin

text \<open>
  The llama.cpp backend, \<open>app/backends/llama_cpp.py\<close>, with the internal chat types of
  \<open>app/schemas/chat.py\<close>.  The HTTP client is outside the sources: what a request returns or raises is
  an argument, and \<open>isa t c\<close> says whether the exception type \<open>t\<close> is a subclass of httpx's \<open>c\<close>.
  Fields that are copied from a decoded body without a check keep their JSON value.
\<close>

section \<open>Internal chat types\<close>

record chat_message =
  msg_role :: json
  msg_content :: json

record chat_request =
  cr_model :: string
  cr_messages :: "chat_message list"
  cr_temperature :: "rat option"
  cr_top_p :: "rat option"
  cr_max_tokens :: "int option"
  cr_stop :: "string list option"
  cr_stream :: bool

record chat_choice =
  cc_index :: int
  cc_message :: chat_message
  cc_finish_reason :: json

record chat_usage =
  cu_prompt_tokens :: json
  cu_completion_tokens :: json
  cu_total_tokens :: json

record chat_response =
  cp_id :: json
  cp_object :: json
  cp_created :: json
  cp_model :: json
  cp_choices :: "chat_choice list"
  cp_usage :: chat_usage
  cp_system_fingerprint :: json

record chunk_choice =
  kc_index :: json
  kc_role :: json
  kc_content :: json
  kc_finish_reason :: json

record chat_chunk =
  ck_id :: string
  ck_object :: string
  ck_created :: int
  ck_model :: string
  ck_choices :: "chunk_choice list"
  ck_system_fingerprint :: json

section \<open>Python's conversions\<close>

definition py_str :: "json \<Rightarrow> string" where
  "py_str v = (case v of JStr s \<Rightarrow> s | _ \<Rightarrow> py_repr v)"

definition py_int_of :: "json \<Rightarrow> exn + int" where
  \<comment> \<open>\<open>int(v)\<close>\<close>
  "py_int_of v =
     (case v of
        JInt i \<Rightarrow> Inr i
      | JBool b \<Rightarrow> Inr (if b then 1 else 0)
      | JFloat r \<Rightarrow> Inr (if r < 0 then \<lceil>r\<rceil> else \<lfloor>r\<rfloor>)
      | JStr s \<Rightarrow> (case py_int s of None \<Rightarrow> Inl (PyError ''ValueError'') | Some i \<Rightarrow> Inr i)
      | _ \<Rightarrow> Inl (PyError ''TypeError''))"

definition as_object :: "json \<Rightarrow> exn + (string \<times> json) list" where
  \<comment> \<open>the receiver of a \<open>.get\<close>\<close>
  "as_object v = (case v of JObj d \<Rightarrow> Inr d | _ \<Rightarrow> Inl (PyError ''AttributeError''))"

definition iterate :: "json \<Rightarrow> exn + json list" where
  \<comment> \<open>what a \<open>for\<close> loop over the value goes through\<close>
  "iterate v =
     (case v of
        JList xs \<Rightarrow> Inr xs
      | JStr s \<Rightarrow> Inr (map (\<lambda>c. JStr [c]) s)
      | JObj d \<Rightarrow> Inr (map (JStr \<circ> fst) d)
      | _ \<Rightarrow> Inl (PyError ''TypeError''))"

definition json_or :: "json \<Rightarrow> json \<Rightarrow> json" where
  "json_or v w = (if json_truthy v then v else w)"

section \<open>Transport\<close>

record http_response =
  status_code :: int
  body_json :: "string + json" \<comment> \<open>the outcome of \<open>resp.json()\<close>\<close>

type_synonym http_outcome = "exn + http_response"

definition is_http :: "(string \<Rightarrow> string \<Rightarrow> bool) \<Rightarrow> exn \<Rightarrow> string \<Rightarrow> bool" where
  "is_http isa e c = (case e of PyError t \<Rightarrow> isa t c | _ \<Rightarrow> False)"

definition httpx_ok :: "(string \<Rightarrow> string \<Rightarrow> bool) \<Rightarrow> bool" where
  \<comment> \<open>httpx documents TimeoutException as a subclass of TransportError\<close>
  "httpx_ok isa \<longleftrightarrow> (\<forall>t. isa t ''TimeoutException'' \<longrightarrow> isa t ''TransportError'')"

definition type_name :: "exn \<Rightarrow> string" where
  "type_name e = (case e of PyError t \<Rightarrow> t | _ \<Rightarrow> [])"

definition classify_transport_error :: "(string \<Rightarrow> string \<Rightarrow> bool) \<Rightarrow> exn \<Rightarrow> string" where
  "classify_transport_error isa e =
     (if is_http isa e ''ConnectError'' \<or> is_http isa e ''ConnectTimeout'' then ''connection failed''
      else if is_http isa e ''ReadTimeout'' \<or> is_http isa e ''WriteTimeout'' then ''timed out''
      else if is_http isa e ''ProtocolError'' \<or> is_http isa e ''RemoteProtocolError''
      then ''protocol error''
      else type_name e)"

definition backend_error :: "err_class \<Rightarrow> string \<Rightarrow> string \<Rightarrow> exn" where
  "backend_error c detail code = Syn (raise_code c detail code)"

definition request_failure :: "(string \<Rightarrow> string \<Rightarrow> bool) \<Rightarrow> string \<Rightarrow> string \<Rightarrow> exn \<Rightarrow> exn" where
  \<comment> \<open>the except clauses around one request\<close>
  "request_failure isa timeout_msg what e =
     (if is_http isa e ''TimeoutException''
      then backend_error BackendTimeoutErrorC timeout_msg ''backend_timeout''
      else if is_http isa e ''TransportError''
      then backend_error BackendUnavailableErrorC
             (what @ '' unreachable: '' @ classify_transport_error isa e) ''backend_unavailable''
      else e)"

section \<open>The instance\<close>

definition llama_capabilities :: "backend_capability list" where
  "llama_capabilities = [CapHealth, CapModels, CapChatCompletions, CapStreaming]"

definition llama_cpp :: backend_class where
  "llama_cpp base_url timeout connect_timeout health_timeout =
     init_backend ''llama_cpp'' llama_capabilities base_url timeout connect_timeout health_timeout"

definition llama_backend_info :: "backend \<Rightarrow> backend_info" where
  "llama_backend_info b =
     \<lparr> bi_name = b_name b, bi_display_name = ''llama.cpp'', bi_base_url = b_base_url b,
       bi_capabilities = b_capabilities b, bi_timeout = b_timeout b \<rparr>"

definition backslash :: char where
  "backslash = CHR 0x5C"

definition sanitize_model_name :: "string option \<Rightarrow> string option" where
  "sanitize_model_name raw =
     (case raw of
        None \<Rightarrow> None
      | Some s \<Rightarrow>
          if s = [] then None
          else
            let t = (if backslash \<in> set s \<or> CHR ''/'' \<in> set s
                     then after_last (CHR ''/'') (map (\<lambda>c. if c = backslash then CHR ''/'' else c) s)
                     else s)
            in if t = [] then None else Some t)"

section \<open>The life of the HTTP client\<close>

datatype client_event = ClientCreated "(string \<times> string) list" | ClientClosed

record http_owner =
  ho_base_url :: string
  ho_transport :: "string option" \<comment> \<open>a transport injected by its name\<close>
  ho_client :: bool
  ho_events :: "client_event list"

datatype client_use = OpenBackend | UseClient | CloseBackend

definition ensure_client :: "http_owner \<Rightarrow> http_owner" where
  \<comment> \<open>a client over an injected transport gets no base URL\<close>
  "ensure_client b =
     (if ho_client b then b
      else b\<lparr> ho_client := True,
              ho_events := ho_events b @
                [ClientCreated (case ho_transport b of Some t \<Rightarrow> [(''transport'', t)]
                                | None \<Rightarrow> [(''base_url'', ho_base_url b)])] \<rparr>)"

definition close_client :: "http_owner \<Rightarrow> http_owner" where
  "close_client b =
     (if ho_client b then b\<lparr> ho_client := False, ho_events := ho_events b @ [ClientClosed] \<rparr> else b)"

fun client_call :: "client_use \<Rightarrow> http_owner \<Rightarrow> http_owner" where
  \<comment> \<open>every probe, discovery and completion begins with \<open>ensure_client\<close>\<close>
  "client_call OpenBackend b = ensure_client b"
| "client_call UseClient b = ensure_client b"
| "client_call CloseBackend b = close_client b"

section \<open>Model discovery\<close>

definition parse_model_item :: "json \<Rightarrow> model_info option" where
  "parse_model_item item =
     (case item of
        JObj d \<Rightarrow>
          if \<not> json_truthy (json_get d ''id'') then None
          else Some \<lparr> i_id = py_str (json_get d ''id''),
                      i_object = json_or (json_get d ''object'') (JStr ''model''),
                      i_owned_by = json_or (json_get d ''owned_by'') (JStr ''llamacpp''),
                      i_created = json_get d ''created'' \<rparr>
      | _ \<Rightarrow> None)"

definition backend_models ::
  "(string \<Rightarrow> string \<Rightarrow> bool) \<Rightarrow> http_outcome \<Rightarrow> exn + model_info list" where
  "backend_models isa got =
     (case got of
        Inl e \<Rightarrow> Inl (request_failure isa ''model discovery timed out'' ''model discovery'' e)
      | Inr resp \<Rightarrow>
          if status_code resp \<noteq> 200
          then Inl (backend_error BackendProtocolErrorC
                 (''model discovery returned HTTP '' @ show_int (status_code resp)) ''backend_protocol_error'')
          else (case body_json resp of
              Inl _ \<Rightarrow> Inl (backend_error BackendInvalidResponseErrorC
                         ''invalid JSON from /v1/models'' ''backend_invalid_response'')
            | Inr payload \<Rightarrow>
                let data = (case payload of JObj d \<Rightarrow> json_get d ''data'' | _ \<Rightarrow> JNull)
                in (case data of
                      JList items \<Rightarrow> Inr (List.map_filter parse_model_item items)
                    | _ \<Rightarrow> Inl (backend_error BackendInvalidResponseErrorC
                               ''unexpected shape from /v1/models (no data array)''
                               ''backend_invalid_response''))))"

definition runtime_model_info :: "exn + model_info list \<Rightarrow> exn + (string \<times> json) list" where
  "runtime_model_info discovered =
     (case discovered of
        Inl e \<Rightarrow> if is_Exception e then Inr [] else Inl e
      | Inr [] \<Rightarrow> Inr []
      | Inr (m # _) \<Rightarrow>
          let info = [(''runtime_model'', opt_json JStr (sanitize_model_name (Some (i_id m))))]
          in Inr (if i_created m \<noteq> JNull then dict_set ''created'' (i_created m) info else info))"

section \<open>Health\<close>

definition record_health ::
  "health_state \<Rightarrow> string \<Rightarrow> rat \<Rightarrow> json \<Rightarrow> string option \<Rightarrow> string \<Rightarrow> health_state option
     \<Rightarrow> health_result \<times> health_state option" where
  \<comment> \<open>the last state is kept for the log of transitions\<close>
  "record_health state reason elapsed version model utcnow last_state =
     (\<lparr> h_state = state, h_reachable = (state = Reachable), h_configured = True, h_reason = reason,
        h_elapsed_ms = Some elapsed, h_server_version = version, h_model = model,
        h_last_checked = Some utcnow \<rparr>,
      if last_state \<noteq> Some state then Some state else last_state)"

definition json_string :: "json \<Rightarrow> string option" where
  "json_string v = (case v of JStr s \<Rightarrow> Some s | _ \<Rightarrow> None)"

definition backend_health ::
  "(string \<Rightarrow> string \<Rightarrow> bool) \<Rightarrow> http_outcome \<Rightarrow> exn + model_info list \<Rightarrow> rat \<Rightarrow> string
     \<Rightarrow> health_state option \<Rightarrow> exn + health_result \<times> health_state option" where
  \<comment> \<open>\<open>got\<close> is the outcome of the probe, \<open>discovered\<close> that of \<open>models()\<close> after it\<close>
  "backend_health isa got discovered elapsed utcnow last_state =
     (let rec = (\<lambda>state reason. Inr (record_health state reason elapsed JNull None utcnow last_state))
      in (case got of
            Inl e \<Rightarrow>
              if is_http isa e ''TimeoutException'' then rec TimeoutState ''health probe timed out''
              else if is_http isa e ''TransportError''
              then rec Unreachable (''unreachable: '' @ classify_transport_error isa e)
              else Inl e
          | Inr resp \<Rightarrow>
              if status_code resp = 503 then rec Unreachable ''server alive but model not ready (503)''
              else if status_code resp \<noteq> 200
              then rec Unreachable (''unexpected health status '' @ show_int (status_code resp))
              else (case body_json resp of
                  Inl _ \<Rightarrow> rec Invalid ''invalid JSON from health endpoint''
                | Inr payload \<Rightarrow>
                    let status = (case payload of JObj d \<Rightarrow> Some (json_get d ''status'') | _ \<Rightarrow> None)
                    in if status = Some (JStr ''ok'')
                       then
                         let version = (case payload of JObj d \<Rightarrow> json_get d ''version'' | _ \<Rightarrow> JNull)
                         in (case runtime_model_info discovered of
                               Inl e \<Rightarrow> Inl e
                             | Inr info \<Rightarrow>
                                 Inr (record_health Reachable ''healthy'' elapsed version
                                        (json_string (json_get info ''runtime_model'')) utcnow last_state))
                       else
                         let label = (case status of Some v \<Rightarrow> v | None \<Rightarrow> payload)
                         in rec Invalid (''unexpected health payload: '' @ repr_str (take 80 (py_str label))))))"

section \<open>Completions\<close>

definition request_payload :: "bool \<Rightarrow> chat_request \<Rightarrow> (string \<times> json) list" where
  "request_payload stream r =
     (let payload = [(''model'', JStr (cr_model r)),
            (''messages'', JList (map (\<lambda>m. JObj [(''role'', msg_role m), (''content'', msg_content m)])
                                    (cr_messages r))),
            (''stream'', JBool stream)];
          payload = (case cr_temperature r of None \<Rightarrow> payload
                     | Some t \<Rightarrow> dict_set ''temperature'' (JFloat t) payload);
          payload = (case cr_top_p r of None \<Rightarrow> payload
                     | Some t \<Rightarrow> dict_set ''top_p'' (JFloat t) payload);
          payload = (case cr_max_tokens r of None \<Rightarrow> payload
                     | Some n \<Rightarrow> dict_set ''max_tokens'' (JInt n) payload)
      in (case cr_stop r of None \<Rightarrow> payload
          | Some ss \<Rightarrow> dict_set ''stop'' (JList (map JStr ss)) payload))"

definition parse_choice :: "nat \<times> json \<Rightarrow> exn + chat_choice" where
  "parse_choice = (\<lambda>(idx, choice).
     (case as_object choice of
        Inl e \<Rightarrow> Inl e
      | Inr d \<Rightarrow>
          (case as_object (get_default d ''message'' (JObj [])) of
             Inl e \<Rightarrow> Inl e
           | Inr msg \<Rightarrow>
               Inr \<lparr> cc_index = int idx,
                     cc_message = \<lparr> msg_role = get_default msg ''role'' (JStr ''assistant''),
                                    msg_content = get_default msg ''content'' (JStr []) \<rparr>,
                     cc_finish_reason = json_get d ''finish_reason'' \<rparr>)))"

definition normalize_response :: "string \<Rightarrow> json \<Rightarrow> exn + chat_response" where
  "normalize_response requested data =
     (case as_object data of
        Inl e \<Rightarrow> Inl e
      | Inr d \<Rightarrow>
          (case iterate (get_default d ''choices'' (JList [])) of
             Inl e \<Rightarrow> Inl e
           | Inr cs \<Rightarrow>
               (case map_res parse_choice (enumerate 0 cs) of
                  Inl e \<Rightarrow> Inl e
                | Inr choices \<Rightarrow>
                    (case as_object (json_or (json_get d ''usage'') (JObj [])) of
                       Inl e \<Rightarrow> Inl e
                     | Inr u \<Rightarrow>
                         Inr \<lparr> cp_id = get_default d ''id'' (JStr []),
                               cp_object = get_default d ''object'' (JStr ''chat.completion''),
                               cp_created = get_default d ''created'' (JInt 0),
                               cp_model = get_default d ''model'' (JStr requested),
                               cp_choices = choices,
                               cp_usage = \<lparr> cu_prompt_tokens = get_default u ''prompt_tokens'' (JInt 0),
                                            cu_completion_tokens = get_default u ''completion_tokens'' (JInt 0),
                                            cu_total_tokens = get_default u ''total_tokens'' (JInt 0) \<rparr>,
                               cp_system_fingerprint = json_get d ''system_fingerprint'' \<rparr>))))"

definition chat_completion ::
  "(string \<Rightarrow> string \<Rightarrow> bool) \<Rightarrow> chat_request \<Rightarrow> http_outcome \<Rightarrow> exn + chat_response" where
  \<comment> \<open>\<open>posted\<close> is the outcome of posting \<open>request_payload False r\<close>\<close>
  "chat_completion isa r posted =
     (case posted of
        Inl e \<Rightarrow> Inl (request_failure isa ''chat completion timed out'' ''chat completion'' e)
      | Inr resp \<Rightarrow>
          if status_code resp \<noteq> 200
          then Inl (backend_error BackendProtocolErrorC
                 (''chat completion returned HTTP '' @ show_int (status_code resp)) ''backend_protocol_error'')
          else (case body_json resp of
              Inl _ \<Rightarrow> Inl (backend_error BackendInvalidResponseErrorC
                         ''invalid JSON from /v1/chat/completions'' ''backend_invalid_response'')
            | Inr data \<Rightarrow> normalize_response (cr_model r) data))"

section \<open>Streams\<close>

definition parse_chunk_choice :: "nat \<times> json \<Rightarrow> chunk_choice option" where
  "parse_chunk_choice = (\<lambda>(idx, choice).
     (case choice of
        JObj d \<Rightarrow>
          let delta = (case json_or (json_get d ''delta'') (JObj []) of JObj x \<Rightarrow> x | _ \<Rightarrow> [])
          in Some \<lparr> kc_index = get_default d ''index'' (JInt (int idx)),
                    kc_role = json_get delta ''role'', kc_content = json_get delta ''content'',
                    kc_finish_reason = json_get d ''finish_reason'' \<rparr>
      | _ \<Rightarrow> None))"

definition normalize_stream_chunk :: "json \<Rightarrow> string \<Rightarrow> exn + chat_chunk option" where
  "normalize_stream_chunk payload fallback_model =
     (case payload of
        JObj d \<Rightarrow>
          (case json_get d ''choices'' of
             JList raw_choices \<Rightarrow>
               (case py_int_of (get_default d ''created'' (JInt 0)) of
                  Inl e \<Rightarrow> Inl e
                | Inr created \<Rightarrow>
                    Inr (Some \<lparr> ck_id = py_str (get_default d ''id'' (JStr [])),
                               ck_object = py_str (get_default d ''object'' (JStr ''chat.completion.chunk'')),
                               ck_created = created,
                               ck_model = py_str (get_default d ''model'' (JStr fallback_model)),
                               ck_choices = List.map_filter parse_chunk_choice (enumerate 0 raw_choices),
                               ck_system_fingerprint = json_get d ''system_fingerprint'' \<rparr>))
           | _ \<Rightarrow> Inr None)
      | _ \<Rightarrow> Inr None)"

datatype stream_end =
    Finished \<comment> \<open>the sentinel was read\<close>
  | Exhausted \<comment> \<open>the bytes ended\<close>
  | Raised exn

fun stream_events ::
  "(text_data \<Rightarrow> string + json) \<Rightarrow> string \<Rightarrow> sse_event list \<Rightarrow> chat_chunk list \<times> stream_end" where
  "stream_events loads model [] = ([], Exhausted)"
| "stream_events loads model (ev # evs) =
     (if is_done ev then ([], Finished)
      else if ev_data ev = [] then stream_events loads model evs
      else (case loads (ev_data ev) of
          Inl msg \<Rightarrow>
            ([], Raised (backend_error BackendInvalidResponseErrorC
                   (''invalid JSON in stream chunk: '' @ msg) ''backend_invalid_response''))
        | Inr payload \<Rightarrow>
            (case normalize_stream_chunk payload model of
               Inl e \<Rightarrow> ([], Raised e)
             | Inr None \<Rightarrow> stream_events loads model evs
             | Inr (Some c) \<Rightarrow> (let (cs, fin) = stream_events loads model evs in (c # cs, fin)))))"

definition stream_interrupted :: "(string \<Rightarrow> string \<Rightarrow> bool) \<Rightarrow> exn \<Rightarrow> exn" where
  \<comment> \<open>the except clauses around the loop, in their order\<close>
  "stream_interrupted isa e =
     (if exn_is e BackendInvalidResponseErrorC then e
      else if is_http isa e ''TransportError''
      then backend_error BackendUnavailableErrorC
             (''stream interrupted: '' @ classify_transport_error isa e) ''backend_unavailable''
      else if is_http isa e ''TimeoutException''
      then backend_error BackendTimeoutErrorC ''streaming chat completion timed out (read)''
             ''backend_timeout''
      else e)"

definition connect_failure :: "(string \<Rightarrow> string \<Rightarrow> bool) \<Rightarrow> exn \<Rightarrow> exn" where
  "connect_failure isa e =
     request_failure isa ''streaming chat completion timed out (connect)''
       ''streaming chat completion'' e"

record upstream =
  up_status :: int
  up_chunks :: "byte list list" \<comment> \<open>the bytes that arrive\<close>
  up_failure :: "exn option" \<comment> \<open>what the iteration raises after them\<close>

definition stream_chat_completion ::
  "(string \<Rightarrow> string \<Rightarrow> bool) \<Rightarrow> (text_data \<Rightarrow> string + json) \<Rightarrow> chat_request \<Rightarrow> exn + upstream
     \<Rightarrow> chat_chunk list \<times> exn option" where
  \<comment> \<open>the chunks a consumer that reads to the end gets, and what the generator raises after them;
    \<open>posted\<close> is the outcome of posting \<open>request_payload True r\<close>\<close>
  "stream_chat_completion isa loads r posted =
     (case posted of
        Inl e \<Rightarrow> ([], Some (connect_failure isa e))
      | Inr up \<Rightarrow>
          if up_status up \<noteq> 200
          then ([], Some (backend_error BackendProtocolErrorC
                  (''streaming chat completion returned HTTP '' @ show_int (up_status up))
                  ''backend_protocol_error''))
          else
            let (evs, buffer) = feed_all (up_chunks up) [];
                evs = (if up_failure up = None then evs @ flush buffer else evs);
                (cs, fin) = stream_events loads (cr_model r) evs
            in (case fin of
                  Finished \<Rightarrow> (cs, None)
                | Raised e \<Rightarrow> (cs, Some (stream_interrupted isa e))
                | Exhausted \<Rightarrow> (cs, map_option (stream_interrupted isa) (up_failure up))))"

section \<open>What the backend does\<close>

lemma backend_error_simps [simp]:
  "exn_is (backend_error c d k) c' = is_instance c c'"
  "is_Exception (backend_error c d k)"
  by (simp_all add: backend_error_def)

lemma request_failure_class:
  "is_http isa e ''TimeoutException'' \<or> is_http isa e ''TransportError'' \<Longrightarrow>
     exn_is (request_failure isa m w e) BackendUnavailableErrorC"
  by (auto simp: request_failure_def is_instance_BackendUnavailable)

lemma parse_model_item_id: "parse_model_item item = Some m \<Longrightarrow> i_id m \<noteq> [] \<or> \<not> (\<exists>d s. item = JObj d \<and> json_get d ''id'' = JStr s)"
  by (auto simp: parse_model_item_def py_str_def split: json.splits if_splits)

lemma stream_events_payloads:
  assumes "\<forall>ev\<in>set evs. \<not> is_done ev \<and> ev_data ev \<noteq> [] \<and>
      (\<exists>p c. loads (ev_data ev) = Inr p \<and> normalize_stream_chunk p model = Inr (Some c))"
  shows "stream_events loads model (evs @ rest) =
    (let (cs, fin) = stream_events loads model rest
     in (map (\<lambda>ev. the (projr (normalize_stream_chunk (projr (loads (ev_data ev))) model))) evs @ cs, fin))"
  using assms
proof (induction evs)
  case Nil
  then show ?case by simp
next
  case (Cons ev evs)
  then obtain p c where "loads (ev_data ev) = Inr p" "normalize_stream_chunk p model = Inr (Some c)"
    by auto
  with Cons show ?case by (simp add: split_beta Let_def)
qed

lemma stream_events_chunks:
  assumes "stream_events loads model evs = (cs, fin)" "c \<in> set cs"
  shows "\<exists>ev\<in>set evs. \<exists>p. loads (ev_data ev) = Inr p \<and> normalize_stream_chunk p model = Inr (Some c)"
  using assms
proof (induction evs arbitrary: cs)
  case (Cons ev evs)
  obtain cs' fin' where r: "stream_events loads model evs = (cs', fin')"
    by (cases "stream_events loads model evs")
  show ?case
    using Cons.prems Cons.IH r
    by (auto split: if_splits sum.splits option.splits)
qed simp

subsection \<open>One client at a time\<close>

fun client_state :: "client_event list \<Rightarrow> bool option" where
  \<comment> \<open>is a client open after these events; None when one is opened over another or closed twice\<close>
  "client_state [] = Some False"
| "client_state (e # es) =
     (case client_state es of
        None \<Rightarrow> None
      | Some up \<Rightarrow> (case e of ClientCreated _ \<Rightarrow> if up then None else Some True
                        | ClientClosed \<Rightarrow> if up then Some False else None))"

lemma client_call_state:
  "client_state (rev (ho_events b)) = Some (ho_client b) \<Longrightarrow>
     client_state (rev (ho_events (client_call u b))) = Some (ho_client (client_call u b))"
  by (cases u) (auto simp: ensure_client_def close_client_def)

text \<open>In any order of opening, use and closing the backend has one client at most, and closing it leaves
  none.  A use after the closing opens another, which only another closing would close.\<close>

lemma one_client:
  assumes "client_state (rev (ho_events b)) = Some (ho_client b)"
  shows "client_state (rev (ho_events (fold client_call us b))) = Some (ho_client (fold client_call us b))"
  using assms by (induction us arbitrary: b) (simp_all add: client_call_state del: client_call.simps)

lemma closed_client: "\<not> ho_client (client_call CloseBackend b)" "ho_client (client_call UseClient b)"
  by (simp_all add: close_client_def ensure_client_def)

section \<open>Properties\<close>


definition sample_chunk :: json where
  "sample_chunk = JObj [(''id'', JStr ''x''), (''choices'', JList [])]"

definition sample_loads :: "text_data \<Rightarrow> string + json" where
  "sample_loads t = (if t = [123, 125] then Inr sample_chunk else Inl ''bad'')"

definition sample_request :: chat_request where
  "sample_request = \<lparr> cr_model = ''m'', cr_messages = [], cr_temperature = None, cr_top_p = None,
     cr_max_tokens = None, cr_stop = None, cr_stream = True \<rparr>"


text \<open>No path leaks: the display name of a model is never empty and holds neither a slash nor a
  backslash, and it is the identifier itself when that had none.\<close>

lemma model_name_has_no_path:
  "(\<forall>t. sanitize_model_name raw = Some t \<longrightarrow> t \<noteq> [] \<and> CHR ''/'' \<notin> set t \<and> backslash \<notin> set t) \<and>
   (\<forall>s. raw = Some s \<and> s \<noteq> [] \<and> CHR ''/'' \<notin> set s \<and> backslash \<notin> set s \<longrightarrow> sanitize_model_name raw = Some s)"
proof -
  have slash: "backslash \<noteq> CHR ''/''" by (simp add: backslash_def)
  have "backslash \<notin> set (after_last (CHR ''/'') (map (\<lambda>c. if c = backslash then CHR ''/'' else c) s))" for s
  proof
    assume "backslash \<in> set (after_last (CHR ''/'') (map (\<lambda>c. if c = backslash then CHR ''/'' else c) s))"
    then have "backslash \<in> set (map (\<lambda>c. if c = backslash then CHR ''/'' else c) s)"
      by (auto simp: after_last_def dest!: set_takeWhileD)
    with slash show False by (auto split: if_splits)
  qed
  then show ?thesis
    by (auto simp: sanitize_model_name_def Let_def after_last_no_sep split: option.splits if_splits)
qed

lemma model_name_has_no_path_witness:
  "sanitize_model_name (Some (''D:'' @ [backslash] @ ''m/Foo.gguf'')) = Some ''Foo.gguf'' \<and>
   sanitize_model_name (Some ''Foo'') = Some ''Foo''"
  using model_name_has_no_path [of "Some ''Foo''"]
  by (simp add: sanitize_model_name_def after_last_def backslash_def)

text \<open>A health probe answers whatever the transport does: it raises only what is no httpx transport
  exception, and it reports the backend reachable exactly when \<open>/health\<close> returned 200 with an
  object whose status is \<open>ok\<close>.\<close>

lemma health_answers:
  assumes "httpx_ok isa" "\<forall>e. got = Inl e \<longrightarrow> is_http isa e ''TransportError''"
    "\<forall>e. discovered = Inl e \<longrightarrow> is_Exception e"
  shows "\<exists>res st. backend_health isa got discovered elapsed utcnow last_state = Inr (res, st) \<and>
    st = Some (h_state res) \<and>
    (h_reachable res \<longleftrightarrow>
       (\<exists>resp d. got = Inr resp \<and> status_code resp = 200 \<and> body_json resp = Inr (JObj d) \<and>
          json_get d ''status'' = JStr ''ok'')) \<and>
    (h_reachable res \<longleftrightarrow> h_state res = Reachable)"
proof -
  have info: "\<exists>info. runtime_model_info discovered = Inr info"
    using assms(3) by (auto simp: runtime_model_info_def Let_def split: sum.split list.split)
  show ?thesis
  proof (cases got)
    case (Inl e)
    with assms(2) show ?thesis
      by (auto simp: backend_health_def record_health_def Let_def)
  next
    case (Inr resp)
    show ?thesis
    proof (cases "status_code resp = 200 \<and> (\<exists>d. body_json resp = Inr (JObj d) \<and> json_get d ''status'' = JStr ''ok'')")
      case True
      with Inr info show ?thesis
        by (auto simp: backend_health_def record_health_def Let_def)
    next
      case False
      with Inr show ?thesis
        by (auto simp: backend_health_def record_health_def Let_def split: sum.split json.split)
    qed
  qed
qed

lemma health_answers_witness:
  "\<exists>res st. backend_health (\<lambda>t c. True) (Inl (PyError ''ConnectError'')) (Inr []) 3 ''now'' None = Inr (res, st) \<and>
     \<not> h_reachable res"
  using health_answers [of "\<lambda>t c. True" "Inl (PyError ''ConnectError'')" "Inr []" 3 "''now''" None]
  by (auto simp: httpx_ok_def is_http_def)

text \<open>A read timeout in a stream is reported as an unavailable backend: httpx's timeouts are
  transport errors and that clause comes first, so the clause for timeouts never applies.\<close>

lemma stream_timeout_is_unavailable:
  assumes "httpx_ok isa" "is_http isa e ''TimeoutException''"
  shows "exn_is (stream_interrupted isa e) BackendUnavailableErrorC \<and>
    \<not> exn_is (stream_interrupted isa e) BackendTimeoutErrorC"
proof -
  have "is_http isa e ''TransportError''" "\<not> exn_is e BackendInvalidResponseErrorC"
    using assms by (cases e; simp add: is_http_def httpx_ok_def)+
  then show ?thesis by (simp add: stream_interrupted_def is_instance_leaf)
qed

lemma stream_timeout_is_unavailable_witness:
  "\<not> exn_is (stream_interrupted (\<lambda>t c. c = ''TimeoutException'' \<or> c = ''TransportError'') (PyError ''ReadTimeout''))
      BackendTimeoutErrorC"
  by (rule stream_timeout_is_unavailable [THEN conjunct2]) (simp_all add: httpx_ok_def is_http_def)

end
