(* ===== verification/Wire.thy ===== *)
theory Wire
  imports LlamaCpp
begin

text \<open>
  What the gateway writes to a client: Python's \<open>json.dumps(payload, ensure_ascii=False)\<close>, UTF-8 and
  the event frames of \<open>app/api/chat.py\<close>, with the conversion of a chunk into the API's dictionary.
\<close>

section \<open>JSON text and UTF-8\<close>

definition esc :: "string \<Rightarrow> string" where
  "esc s = backslash # s"

definition dumps_char :: "char \<Rightarrow> string" where
  "dumps_char c =
     (let n = of_char c :: nat
      in if n = 34 \<or> n = 92 then esc [c]
         else if n = 10 then esc ''n''
         else if n = 13 then esc ''r''
         else if n = 9 then esc ''t''
         else if n = 8 then esc ''b''
         else if n = 12 then esc ''f''
         else if n < 32 then esc (''u00'' @ [hex_digit (n div 16), hex_digit (n mod 16)])
         else [c])"

definition dumps_str :: "string \<Rightarrow> string" where
  "dumps_str s = CHR 0x22 # concat (map dumps_char s) @ [CHR 0x22]"

fun dumps :: "json \<Rightarrow> string" where
  "dumps JNull = ''null''"
| "dumps (JBool b) = (if b then ''true'' else ''false'')"
| "dumps (JInt i) = show_int i"
| "dumps (JFloat r) = show_decimal r"
| "dumps (JStr s) = dumps_str s"
| "dumps (JList xs) = ''['' @ join '', '' (map dumps xs) @ '']''"
| "dumps (JObj d) = ''{'' @ join '', '' (map (\<lambda>(k, v). dumps_str k @ '': '' @ dumps v) d) @ ''}''"

definition encode1 :: "nat \<Rightarrow> byte list" where
  "encode1 c =
     (if c < 0x80 then [of_nat c]
      else if c < 0x800 then [of_nat (0xC0 + c div 64), of_nat (0x80 + c mod 64)]
      else if c < 0x10000 then
        [of_nat (0xE0 + c div 4096), of_nat (0x80 + c div 64 mod 64), of_nat (0x80 + c mod 64)]
      else [of_nat (0xF0 + c div 262144), of_nat (0x80 + c div 4096 mod 64),
            of_nat (0x80 + c div 64 mod 64), of_nat (0x80 + c mod 64)])"

definition encode :: "text_data \<Rightarrow> byte list" where
  "encode t = concat (map encode1 t)"

section \<open>Frames\<close>

definition format_sse :: "(string \<times> json) list \<Rightarrow> byte list" where
  "format_sse payload = encode (of_text ''data: '' @ of_text (dumps (JObj payload)) @ [10, 10])"

definition format_sse_done :: "byte list" where
  "format_sse_done = encode (of_text ''data: [DONE]'' @ [10, 10])"

definition chunk_choice_dict :: "chunk_choice \<Rightarrow> json" where
  "chunk_choice_dict c =
     (let delta = [];
          delta = (if kc_role c \<noteq> JNull then dict_set ''role'' (kc_role c) delta else delta);
          delta = (if kc_content c \<noteq> JNull then dict_set ''content'' (kc_content c) delta else delta)
      in JObj [(''index'', kc_index c), (''delta'', JObj delta), (''finish_reason'', kc_finish_reason c)])"

definition chunk_to_api_dict :: "chat_chunk \<Rightarrow> (string \<times> json) list" where
  "chunk_to_api_dict c =
     [(''id'', JStr (ck_id c)),
      (''object'', JStr (if ck_object c = [] then ''chat.completion.chunk'' else ck_object c)),
      (''created'', JInt (ck_created c)),
      (''model'', JStr (ck_model c)),
      (''choices'', JList (map chunk_choice_dict (ck_choices c)))] @
     (if json_truthy (ck_system_fingerprint c)
      then [(''system_fingerprint'', ck_system_fingerprint c)] else [])"

section \<open>UTF-8 round trip\<close>

lemma unat_of_nat_byte: "n < 256 \<Longrightarrow> unat (of_nat n :: byte) = n"
  by (simp add: unat_of_nat)

lemma decode_encode1:
  assumes "c < 0x800"
  shows "decode (encode1 c @ bs) = c # decode bs"
proof (cases "c < 0x80")
  case True
  then have "unat (of_nat c :: byte) = c" by (intro unat_of_nat_byte) simp
  then show ?thesis
    using True by (simp add: encode1_def decode1.simps word_less_nat_alt)
next
  case False
  let ?b = "of_nat (0xC0 + c div 64) :: byte" and ?c = "of_nat (0x80 + c mod 64) :: byte"
  have d: "2 \<le> c div 64" "c div 64 < 32" using assms False by auto
  have b: "unat ?b = 0xC0 + c div 64" by (rule unat_of_nat_byte) (use d in simp)
  have "c mod 64 < 64" by simp
  then have c: "unat ?c = 0x80 + c mod 64" by (intro unat_of_nat_byte) linarith
  have "\<not> ?b < 0x80" "0xC2 \<le> ?b" "?b \<le> 0xDF"
    unfolding word_less_nat_alt word_le_nat_alt b using d by simp_all
  moreover have "cont ?c"
    unfolding cont_def word_le_nat_alt c using \<open>c mod 64 < 64\<close> by simp
  ultimately have "decode1 ?b (?c # bs) = (c div 64 * 64 + c mod 64, 1)"
    by (simp add: decode1.simps b low6_def c del: of_nat_add)
  then have "decode (?b # ?c # bs) = c # decode bs" by simp
  then show ?thesis
    using assms False by (simp add: encode1_def del: of_nat_add)
qed

lemma decode_encode_append:
  "(\<And>c. c \<in> set t \<Longrightarrow> c < 0x800) \<Longrightarrow> decode (encode t @ bs) = t @ decode bs"
proof (induction t)
  case (Cons c t)
  have "decode (encode (c # t) @ bs) = decode (encode1 c @ (encode t @ bs))"
    by (simp add: encode_def)
  also have "\<dots> = c # decode (encode t @ bs)"
    using Cons.prems by (intro decode_encode1) simp
  also have "\<dots> = c # t @ decode bs" using Cons by simp
  finally show ?case by simp
qed (simp add: encode_def)

lemma decode_encode: "(\<And>c. c \<in> set t \<Longrightarrow> c < 0x800) \<Longrightarrow> decode (encode t) = t"
  using decode_encode_append [of t "[]"] by simp

lemma of_text_small: "c \<in> set (of_text s) \<Longrightarrow> c < 0x800"
proof -
  assume "c \<in> set (of_text s)"
  then obtain x where "c = of_char x" by (auto simp: of_text_def)
  then have "c < 256" by simp
  then show ?thesis by simp
qed

section \<open>No line ends in JSON text\<close>

definition plain :: "string \<Rightarrow> bool" where
  \<comment> \<open>no control character\<close>
  "plain s \<longleftrightarrow> (\<forall>c\<in>set s. 32 \<le> (of_char c :: nat))"

lemma plain_simps [simp]:
  "plain []" "plain (s @ t) \<longleftrightarrow> plain s \<and> plain t"
  "plain (c # s) \<longleftrightarrow> 32 \<le> (of_char c :: nat) \<and> plain s"
  by (auto simp: plain_def)

lemma plain_concat: "(\<And>s. s \<in> set ss \<Longrightarrow> plain s) \<Longrightarrow> plain (concat ss)"
  by (induction ss) auto

lemma plain_join: "plain sep \<Longrightarrow> (\<And>s. s \<in> set ss \<Longrightarrow> plain s) \<Longrightarrow> plain (join sep ss)"
  by (induction sep ss rule: join.induct) auto

lemma plain_show_nat: "plain (show_nat n)"
proof (induction n rule: show_nat.induct)
  case (1 n)
  have "32 \<le> (of_char (char_of (48 + k) :: char) :: nat)" if "k < 10" for k :: nat
    using that by simp
  with 1 show ?case by (subst show_nat.simps) simp
qed

lemma plain_show_int: "plain (show_int i)"
  by (simp add: show_int_def plain_show_nat)

lemma plain_show_frac: "0 \<le> r \<Longrightarrow> r < 1 \<Longrightarrow> plain (show_frac n r)"
proof (induction n arbitrary: r)
  case (Suc n)
  let ?d = "nat \<lfloor>10 * r\<rfloor>"
  have "\<lfloor>10 * r\<rfloor> < 10" using Suc.prems(2) by (simp add: floor_less_iff)
  moreover have "0 \<le> \<lfloor>10 * r\<rfloor>" using Suc.prems(1) by simp
  moreover have "i < 10 \<Longrightarrow> 0 \<le> i \<Longrightarrow> nat i < 10 \<and> of_nat (nat i) = (of_int i :: rat)" for i
    by simp
  ultimately have d: "?d < 10" "of_nat ?d = (of_int \<lfloor>10 * r\<rfloor> :: rat)" by blast+
  have "0 \<le> 10 * r - of_nat ?d" "10 * r - of_nat ?d < 1"
    unfolding d(2) by linarith+
  then have "plain (show_frac n (10 * r - of_nat ?d))" by (rule Suc.IH)
  with d(1) show ?case by (simp add: Let_def)
qed simp

lemma plain_show_decimal: "plain (show_decimal r)"
proof -
  have "0 \<le> \<bar>r\<bar> - of_int \<lfloor>\<bar>r\<bar>\<rfloor>" "\<bar>r\<bar> - of_int \<lfloor>\<bar>r\<bar>\<rfloor> < 1" by linarith+
  then show ?thesis
    by (simp add: show_decimal_def Let_def plain_show_int plain_show_frac)
qed

lemma hex_digit_plain: "k < 16 \<Longrightarrow> 32 \<le> (of_char (hex_digit k) :: nat)"
  by (auto simp: hex_digit_def)

lemma plain_dumps_char: "plain (dumps_char c)"
  by (auto simp: dumps_char_def esc_def backslash_def Let_def hex_digit_plain)

lemma plain_dumps_str: "plain (dumps_str s)"
  by (auto simp: dumps_str_def intro!: plain_concat plain_dumps_char)

lemma plain_dumps: "plain (dumps j)"
proof (induction j)
  case (JList xs)
  then show ?case by (auto intro!: plain_join)
next
  case (JObj d)
  then have "plain (dumps v)" if "(k, v) \<in> set d" for k v
    using that by (metis snds.intros snd_conv)
  then show ?case by (auto simp: plain_dumps_str intro!: plain_join)
qed (simp_all add: plain_show_int plain_show_decimal plain_dumps_str)

section \<open>What a client reads\<close>

lemma dumps_obj_ends: "dumps (JObj d) \<noteq> []" "last (of_text (dumps (JObj d))) = 125"
  by (simp_all add: of_text_def)

lemma dumps_frame_ok: "10 \<notin> set (of_text (dumps (JObj d))) \<and> last (of_text (dumps (JObj d))) \<noteq> 13"
proof -
  have "\<forall>n\<in>set (of_text (dumps (JObj d))). 32 \<le> n"
    using plain_dumps [of "JObj d"] by (auto simp: plain_def of_text_def)
  then show ?thesis using dumps_obj_ends(2) [of d] by force
qed

lemma decode_format_sse: "decode (format_sse p @ bs) = sse_frame (of_text (dumps (JObj p))) @ decode bs"
proof -
  have "c < 0x800" if "c \<in> set (of_text ''data: '' @ of_text (dumps (JObj p)) @ [10, 10])" for c
    using that of_text_small by auto
  then show ?thesis
    unfolding format_sse_def by (subst decode_encode_append) (auto simp: sse_frame_def)
qed

lemma decode_done: "decode (format_sse_done @ bs) = sse_frame (of_text ''[DONE]'') @ decode bs"
proof -
  have "c < 0x800" if "c \<in> set (of_text ''data: [DONE]'' @ [10, 10])" for c
    using that of_text_small by auto
  then show ?thesis
    unfolding format_sse_done_def
    by (subst decode_encode_append) (auto simp: sse_frame_def of_text_def)
qed

lemma decode_frames:
  "concat (map decode (map format_sse ps @ [format_sse_done])) =
     concat (map sse_frame (map (\<lambda>p. of_text (dumps (JObj p))) ps @ [of_text ''[DONE]'']))"
  using decode_format_sse [of _ "[]"] decode_done [of "[]"] by (induction ps) auto

end
