(* ===== verification/Chat.thy ===== *)
theory Chat
  imports Router Usage Wire
begin

text \<open>
  The data plane of \<open>app/api/chat.py\<close>: listing models, the checks before a completion and the two
  ways a completion is made, with the request schema of \<open>app/api/chat_schemas.py\<close>.  A handler is a
  function of what its environment does (the entry into the admission controller, the backend, the
  clocks, an interruption of the stream) to its result, the new store and the trace of its
  actions.  A count that is no integer is recorded as unknown.
\<close>

section \<open>Requests\<close>

record api_message =
  am_role :: string
  am_content :: string

record api_request =
  ar_model :: string
  ar_messages :: "api_message list"
  ar_temperature :: "rat option"
  ar_top_p :: "rat option"
  ar_max_tokens :: "int option"
  ar_stop :: "string list option"
  ar_stream :: bool

definition in_range :: "rat option \<Rightarrow> rat \<Rightarrow> rat \<Rightarrow> bool" where
  "in_range x lo hi = (case x of None \<Rightarrow> True | Some v \<Rightarrow> lo \<le> v \<and> v \<le> hi)"

definition valid_message :: "api_message \<Rightarrow> bool" where
  "valid_message m \<longleftrightarrow>
     am_role m \<in> {''system'', ''user'', ''assistant''} \<and> py_strip (am_content m) \<noteq> []"

definition valid_request :: "api_request \<Rightarrow> bool" where
  \<comment> \<open>the constraints of the request schema on fields of the declared types\<close>
  "valid_request r \<longleftrightarrow>
     ar_model r \<noteq> [] \<and> ar_messages r \<noteq> [] \<and> list_all valid_message (ar_messages r) \<and>
     in_range (ar_temperature r) 0 2 \<and> in_range (ar_top_p r) 0 1 \<and>
     (case ar_max_tokens r of None \<Rightarrow> True | Some n \<Rightarrow> n \<ge> 1)"

section \<open>What the application holds\<close>

record 'b app =
  app_backend :: "'b option"
  app_router :: "'b routing_service option"
  app_has_admission :: bool
  app_usage :: "usage_service option"
  app_db :: "store option"

definition not_wired :: "string \<Rightarrow> string \<Rightarrow> exn" where
  "not_wired msg code = Syn (raise_status SynErrorC msg code 503)"

definition get_app_backend :: "'b app \<Rightarrow> exn + 'b" where
  "get_app_backend a =
     (case app_backend a of
        None \<Rightarrow> Inl (not_wired ''inference backend not available'' ''backend_not_wired'')
      | Some b \<Rightarrow> Inr b)"

definition get_admission :: "'b app \<Rightarrow> exn + unit" where
  "get_admission a =
     (if app_has_admission a then Inr ()
      else Inl (not_wired ''admission controller not available'' ''admission_not_wired''))"

definition get_router :: "'b app \<Rightarrow> exn + 'b routing_service" where
  "get_router a =
     (case app_router a of
        Some rs \<Rightarrow> Inr rs
      | None \<Rightarrow>
          (case app_backend a of
             None \<Rightarrow> Inl (not_wired ''routing is not available'' ''routing_not_wired'')
           | Some b \<Rightarrow>
               Inr \<lparr> rs_models = None, rs_backends = None, rs_passthrough = True,
                     rs_default = Some (Some b) \<rparr>))"

definition get_db_session_for_usage :: "'b app \<Rightarrow> exn + store" where
  "get_db_session_for_usage a =
     (case app_db a of
        None \<Rightarrow> Inl (not_wired ''database unavailable for usage tracking'' ''usage_unavailable'')
      | Some s \<Rightarrow> Inr s)"

definition check_capability :: "backend_capability list \<Rightarrow> backend_capability \<Rightarrow> exn + unit" where
  "check_capability caps c =
     (if c \<notin> set caps
      then Inl (Syn (raise_status SynErrorC (''backend does not support '' @ capability_value c)
                       ''capability_not_supported'' 501))
      else Inr ())"

definition enforce_model_access :: "principal \<Rightarrow> string \<Rightarrow> exn + unit" where
  "enforce_model_access p model_id =
     (if \<not> can_use_model p model_id then Inl (forbidden_error model_id) else Inr ())"

definition stream_not_supported :: exn where
  "stream_not_supported =
     Syn (new_error SynErrorC (Some ''streaming is not supported by this backend'')
            (Some ''stream_not_supported'') (Some 400) None (Some ''stream''))"

definition internal_request :: "string \<Rightarrow> api_request \<Rightarrow> chat_request" where
  "internal_request model r =
     \<lparr> cr_model = model,
       cr_messages = map (\<lambda>m. \<lparr> msg_role = JStr (am_role m), msg_content = JStr (am_content m) \<rparr>)
                       (ar_messages r),
       cr_temperature = ar_temperature r, cr_top_p = ar_top_p r, cr_max_tokens = ar_max_tokens r,
       cr_stop = ar_stop r, cr_stream = ar_stream r \<rparr>"

definition validate_and_normalize_request ::
  "api_request \<Rightarrow> string set \<Rightarrow> principal \<Rightarrow> backend_capability list \<Rightarrow> exn + chat_request" where
  "validate_and_normalize_request r available p caps =
     (if ar_model r \<notin> available
      then Inl (Syn (new_error SynErrorC (Some (''model '' @ quoted (ar_model r) @ '' not found''))
                  (Some ''model_not_found'') (Some 404) None (Some ''model'')))
      else (case enforce_model_access p (ar_model r) of
          Inl e \<Rightarrow> Inl e
        | Inr _ \<Rightarrow>
            if ar_stream r \<and> CapStreaming \<notin> set caps then Inl stream_not_supported
            else Inr (internal_request (ar_model r) r)))"

definition get_available_models :: "exn + model_info list \<Rightarrow> exn + string set" where
  "get_available_models discovered =
     (case discovered of
        Inl e \<Rightarrow> Inl (discovery_error ''model validation'' e)
      | Inr ms \<Rightarrow> Inr (i_id ` set ms))"

definition chat_list_models ::
  "('b \<Rightarrow> exn + model_info list) \<Rightarrow> (model_info \<Rightarrow> exn + model_info) \<Rightarrow> 'b app \<Rightarrow> principal
     \<Rightarrow> exn + model_info list" where
  "chat_list_models discovered mk a p =
     (case get_router a of
        Inl e \<Rightarrow> Inl e
      | Inr rs \<Rightarrow>
          (case list_models discovered mk rs p of
             Inl e \<Rightarrow> Inl e
           | Inr ms \<Rightarrow> map_res mk ms))"

section \<open>The checks before a completion\<close>

record 'b prepared =
  pp_backend :: 'b
  pp_request :: chat_request
  pp_canonical :: string
  pp_backend_id :: "string option"

definition usage_precheck ::
  "'b app \<Rightarrow> api_key \<Rightarrow> client \<Rightarrow> time \<Rightarrow> datetime \<Rightarrow> datetime \<Rightarrow> rate_limiter
     \<Rightarrow> (exn + unit) \<times> rate_limiter" where
  "usage_precheck a k c tick now1 now2 rl =
     (case app_usage a of
        None \<Rightarrow> (Inr (), rl)
      | Some sv \<Rightarrow>
          (case get_db_session_for_usage a of
             Inl e \<Rightarrow> (Inl e, rl)
           | Inr s \<Rightarrow>
               (case precheck sv s k c tick now1 now2 rl of
                  (Inl e, rl') \<Rightarrow> (Inl e, rl')
                | (Inr _, rl') \<Rightarrow> (Inr (), rl'))))"

definition choose_backend ::
  "('b \<Rightarrow> backend_capability list) \<Rightarrow> ('b \<Rightarrow> exn + model_info list) \<Rightarrow> 'b app \<Rightarrow> api_request
     \<Rightarrow> principal \<Rightarrow> exn + 'b prepared" where
  "choose_backend caps discovered a r p =
     (case get_router a of
        Inl e \<Rightarrow> Inl e
      | Inr rs \<Rightarrow>
          if configured rs then
            (case route discovered rs (ar_model r) p of
               Inl e \<Rightarrow> Inl e
             | Inr d \<Rightarrow>
                 (case check_capability (caps (rd_backend d)) CapChatCompletions of
                    Inl e \<Rightarrow> Inl e
                  | Inr _ \<Rightarrow>
                      if ar_stream r \<and> CapStreaming \<notin> set (caps (rd_backend d))
                      then Inl stream_not_supported
                      else Inr \<lparr> pp_backend = rd_backend d,
                                 pp_request = internal_request (rd_backend_model d) r,
                                 pp_canonical = rd_canonical_model d,
                                 pp_backend_id = Some (rd_backend_id d) \<rparr>))
          else
            (case get_app_backend a of
               Inl e \<Rightarrow> Inl e
             | Inr b \<Rightarrow>
                 (case check_capability (caps b) CapChatCompletions of
                    Inl e \<Rightarrow> Inl e
                  | Inr _ \<Rightarrow>
                      (case get_available_models (discovered b) of
                         Inl e \<Rightarrow> Inl e
                       | Inr available \<Rightarrow>
                           (case validate_and_normalize_request r available p (caps b) of
                              Inl e \<Rightarrow> Inl e
                            | Inr req \<Rightarrow>
                                Inr \<lparr> pp_backend = b, pp_request = req, pp_canonical = ar_model r,
                                      pp_backend_id = None \<rparr>)))))"

definition prepare_completion ::
  "('b \<Rightarrow> backend_capability list) \<Rightarrow> ('b \<Rightarrow> exn + model_info list) \<Rightarrow> 'b app \<Rightarrow> api_request
     \<Rightarrow> principal \<times> api_key \<times> client \<Rightarrow> time \<Rightarrow> datetime \<Rightarrow> datetime \<Rightarrow> rate_limiter
     \<Rightarrow> (exn + 'b prepared) \<times> rate_limiter" where
  "prepare_completion caps discovered a r auth tick now1 now2 rl =
     (case auth of (p, k, c) \<Rightarrow>
       (case usage_precheck a k c tick now1 now2 rl of
          (Inl e, rl') \<Rightarrow> (Inl e, rl')
        | (Inr _, rl') \<Rightarrow> (choose_backend caps discovered a r p, rl')))"

section \<open>What a completion does\<close>

datatype action =
    SlotTaken
  | BackendCalled
  | Sent "byte list"
  | SlotReleased
  | Recorded usage_args

record request_env =
  en_slot :: "exn option" \<comment> \<open>what entering the admission controller raises\<close>
  en_request_id :: string
  en_record_id :: string
  en_started_at :: datetime
  en_completed_at :: datetime
  en_admission_started :: time
  en_admission_completed :: time
  en_backend_started :: time
  en_backend_completed :: time
  en_first_chunk :: time
  en_stream_completed :: time
  en_now :: time
  en_unix_time :: rat

definition elapsed_ms :: "time \<Rightarrow> time \<Rightarrow> int" where
  "elapsed_ms a b = py_round ((b - a) * 1000)"

definition model_name :: "string \<Rightarrow> chat_request \<Rightarrow> string" where
  "model_name canonical r = (if canonical = [] then cr_model r else canonical)"

definition token_count :: "json \<Rightarrow> int option" where
  "token_count v = (case v of JInt n \<Rightarrow> Some n | _ \<Rightarrow> None)"

definition store_usage ::
  "'b app \<Rightarrow> string \<Rightarrow> api_key \<Rightarrow> client \<Rightarrow> usage_args \<Rightarrow> store option" where
  \<comment> \<open>the database after the record is written; a failure is only logged\<close>
  "store_usage a rid k c args =
     (case get_db_session_for_usage a of
        Inl _ \<Rightarrow> app_db a
      | Inr s \<Rightarrow> (case record_usage rid (Some k) (Some c) args s of Inl _ \<Rightarrow> Some s | Inr (_, s') \<Rightarrow> Some s'))"

definition finish_usage ::
  "'b app \<Rightarrow> string \<Rightarrow> api_key \<Rightarrow> client \<Rightarrow> usage_args \<Rightarrow> action list \<times> store option" where
  "finish_usage a rid k c args =
     (case app_usage a of
        None \<Rightarrow> ([], app_db a)
      | Some _ \<Rightarrow> ([Recorded args], store_usage a rid k c args))"

subsection \<open>Without streaming\<close>

definition backend_failure_code :: "exn \<Rightarrow> string option" where
  \<comment> \<open>the chain of except clauses on the backend's errors\<close>
  "backend_failure_code e =
     (if exn_is e BackendTimeoutErrorC then Some ''backend_timeout''
      else if exn_is e BackendProtocolErrorC then Some ''backend_protocol_error''
      else if exn_is e BackendInvalidResponseErrorC then Some ''backend_invalid_response''
      else if exn_is e BackendUnavailableErrorC then Some ''backend_unavailable''
      else None)"

definition completion_error :: "exn \<Rightarrow> exn" where
  "completion_error e =
     (if exn_is e BackendTimeoutErrorC
      then Syn (raise_status SynErrorC (''chat completion timed out: '' @ exn_detail e) ''backend_timeout'' 502)
      else if exn_is e BackendProtocolErrorC
      then Syn (raise_status SynErrorC (''chat completion protocol error: '' @ exn_detail e)
                  ''backend_protocol_error'' 502)
      else if exn_is e BackendInvalidResponseErrorC
      then Syn (raise_status SynErrorC (''chat completion invalid response: '' @ exn_detail e)
                  ''backend_invalid_response'' 502)
      else if exn_is e BackendUnavailableErrorC
      then Syn (raise_status SynErrorC (''chat completion unavailable: '' @ exn_detail e)
                  ''backend_unavailable'' 502)
      else e)"

fun exn_code :: "exn \<Rightarrow> string" where
  "exn_code (Syn e) = e_code e"
| "exn_code _ = []"

definition completion_outcome ::
  "exn option \<Rightarrow> exn + chat_response \<Rightarrow> string \<times> string option \<times> (exn + chat_response)" where
  \<comment> \<open>outcome, error code and result of the nested try blocks\<close>
  "completion_outcome slot answer =
     (case slot of
        None \<Rightarrow>
          (case answer of
             Inr resp \<Rightarrow> (completed, None, Inr resp)
           | Inl e \<Rightarrow> (failed, backend_failure_code e, Inl (completion_error e)))
      | Some e \<Rightarrow>
          if exn_is e QueueFullErrorC then (rejected, Some (str_or (Some (exn_code e)) ''queue_full''), Inl e)
          else if exn_is e QueueTimeoutErrorC
          then (timed_out, Some (str_or (Some (exn_code e)) ''queue_timeout''), Inl e)
          else (failed, None, Inl e))"

definition completion_args ::
  "request_env \<Rightarrow> string \<Rightarrow> chat_request \<Rightarrow> string option \<Rightarrow> exn + chat_response \<Rightarrow> usage_args" where
  "completion_args en canonical r backend_id answer =
     (let (outcome, error_code, result) = completion_outcome (en_slot en) answer;
          entered = (en_slot en = None);
          resp = (if entered then (case answer of Inr x \<Rightarrow> Some x | Inl _ \<Rightarrow> None) else None);
          answered = entered \<and> (case answer of Inr _ \<Rightarrow> True | Inl e \<Rightarrow> backend_failure_code e \<noteq> None);
          tokens = (\<lambda>f. case resp of None \<Rightarrow> None | Some x \<Rightarrow> token_count (f (cp_usage x)))
      in \<lparr> a_request_id = en_request_id en, a_model = model_name canonical r, a_streaming = False,
           a_started_at = en_started_at en, a_completed_at = en_completed_at en,
           a_outcome = outcome,
           a_prompt_tokens = tokens cu_prompt_tokens,
           a_completion_tokens = tokens cu_completion_tokens,
           a_total_tokens = tokens cu_total_tokens,
           a_queue_wait_ms =
             (if entered then Some (elapsed_ms (en_admission_started en) (en_admission_completed en)) else None),
           a_error_code = error_code,
           a_backend_latency_ms =
             (if answered then Some (elapsed_ms (en_backend_started en) (en_backend_completed en)) else None),
           a_ttft_ms = None, a_stream_duration_ms = None,
           a_total_duration_ms = Some (elapsed_ms (en_admission_started en) (en_now en)),
           a_backend_id = backend_id \<rparr>)"

definition api_response :: "request_env \<Rightarrow> string \<Rightarrow> chat_request \<Rightarrow> chat_response \<Rightarrow> chat_response" where
  "api_response en canonical r resp =
     resp\<lparr> cp_id := json_or (cp_id resp) (JStr (''chatcmpl-'' @ show_int \<lfloor>en_unix_time en * 1000\<rfloor>)),
           cp_created := json_or (cp_created resp) (JInt \<lfloor>en_unix_time en\<rfloor>),
           cp_model := JStr (model_name canonical r) \<rparr>"

definition non_streaming_completion ::
  "'b app \<Rightarrow> request_env \<Rightarrow> (chat_response \<Rightarrow> exn + chat_response) \<Rightarrow> api_key \<Rightarrow> client \<Rightarrow> 'b prepared
     \<Rightarrow> exn + chat_response \<Rightarrow> (exn + chat_response) \<times> action list \<times> store option" where
  \<comment> \<open>\<open>answer\<close> is the outcome of the backend's \<open>chat_completion\<close>, \<open>mk\<close> the response schema\<close>
  "non_streaming_completion a en mk k c pp answer =
     (case get_admission a of
        Inl e \<Rightarrow> (Inl e, [], app_db a)
      | Inr _ \<Rightarrow>
          let (outcome, error_code, result) = completion_outcome (en_slot en) answer;
              held = (if en_slot en = None then [SlotTaken, BackendCalled, SlotReleased] else []);
              (rec, db) = finish_usage a (en_record_id en) k c
                (completion_args en (pp_canonical pp) (pp_request pp) (pp_backend_id pp) answer)
          in ((case result of
                 Inl e \<Rightarrow> Inl e
               | Inr resp \<Rightarrow> mk (api_response en (pp_canonical pp) (pp_request pp) resp)),
              held @ rec, db))"

subsection \<open>With streaming\<close>

definition chunk_frame :: "string \<Rightarrow> chat_chunk \<Rightarrow> byte list" where
  "chunk_frame canonical ck =
     (let d = chunk_to_api_dict ck
      in format_sse (if canonical = [] then d else dict_set ''model'' (JStr canonical) d))"

definition stream_body ::
  "string \<Rightarrow> chat_chunk list \<Rightarrow> exn option \<Rightarrow> (nat \<times> exn) option \<Rightarrow> byte list list \<times> exn option" where
  \<comment> \<open>what the generator yields and how its body ends; an interruption \<open>(n, x)\<close> raises \<open>x\<close> where the
    generator is suspended after \<open>n\<close> yields\<close>
  "stream_body canonical chunks failure interrupt =
     (let yields = map (chunk_frame canonical) chunks @ (if failure = None then [format_sse_done] else [])
      in (case interrupt of
            Some (n, x) \<Rightarrow> if n \<le> length yields then (take n yields, Some x) else (yields, failure)
          | None \<Rightarrow> (yields, failure)))"

definition stream_except :: "exn option \<Rightarrow> string \<times> string option \<times> exn option" where
  \<comment> \<open>outcome, error code and what leaves the try block\<close>
  "stream_except raised =
     (case raised of
        None \<Rightarrow> (completed, None, None)
      | Some e \<Rightarrow>
          (case backend_failure_code e of
             Some code \<Rightarrow> (failed, Some code, None)
           | None \<Rightarrow>
               if e = CancelledError then (cancelled, None, Some e)
               else if is_Exception e then (failed, None, None)
               else (failed, None, Some e)))"

definition stream_outcome :: "exn option \<Rightarrow> string \<times> string option \<times> exn option" where
  \<comment> \<open>with the correction of the finally block\<close>
  "stream_outcome raised =
     (let (outcome, code, leaves) = stream_except raised
      in if raised \<noteq> None \<and> outcome = failed \<and> code = None then (cancelled, code, leaves)
         else (outcome, code, leaves))"

definition stream_completed_ts :: "request_env \<Rightarrow> exn option \<Rightarrow> time option" where
  \<comment> \<open>set on every way out but a BaseException that no clause catches\<close>
  "stream_completed_ts en raised =
     (case raised of
        None \<Rightarrow> Some (en_stream_completed en)
      | Some e \<Rightarrow> if is_Exception e \<or> e = CancelledError then Some (en_stream_completed en) else None)"

definition stream_args ::
  "request_env \<Rightarrow> string \<Rightarrow> chat_request \<Rightarrow> string option \<Rightarrow> bool \<Rightarrow> exn option \<Rightarrow> usage_args" where
  \<comment> \<open>\<open>first\<close> says that a chunk arrived\<close>
  "stream_args en canonical r backend_id first raised =
     (let (outcome, error_code, leaves) = stream_outcome raised;
          entered = (en_slot en = None);
          finished = stream_completed_ts en raised;
          now_mono = (case finished of Some t \<Rightarrow> if t = 0 then en_now en else t | None \<Rightarrow> en_now en)
      in \<lparr> a_request_id = en_request_id en, a_model = model_name canonical r, a_streaming = True,
           a_started_at = en_started_at en, a_completed_at = en_completed_at en,
           a_outcome = outcome,
           a_prompt_tokens = None, a_completion_tokens = None, a_total_tokens = None,
           a_queue_wait_ms =
             (if entered then Some (elapsed_ms (en_admission_started en) (en_admission_completed en)) else None),
           a_error_code = error_code,
           a_backend_latency_ms = None,
           a_ttft_ms = (if first then Some (elapsed_ms (en_backend_started en) (en_first_chunk en)) else None),
           a_stream_duration_ms =
             (if first then map_option (elapsed_ms (en_first_chunk en)) finished else None),
           a_total_duration_ms = Some (elapsed_ms (en_admission_started en) now_mono),
           a_backend_id = backend_id \<rparr>)"

definition stream_generator ::
  "'b app \<Rightarrow> request_env \<Rightarrow> api_key \<Rightarrow> client \<Rightarrow> 'b prepared \<Rightarrow> chat_chunk list \<times> exn option
     \<Rightarrow> (nat \<times> exn) option \<Rightarrow> exn option \<times> action list \<times> store option" where
  \<comment> \<open>what leaves the generator, its actions and the store; \<open>answer\<close> is what the backend streams\<close>
  "stream_generator a en k c pp answer interrupt =
     (let (sent, raised) = (case en_slot en of
            None \<Rightarrow> stream_body (pp_canonical pp) (fst answer) (snd answer) interrupt
          | Some e \<Rightarrow> ([], Some e));
          (outcome, error_code, leaves) = stream_outcome raised;
          first = (sent \<noteq> [] \<and> fst answer \<noteq> []);
          held = (if en_slot en = None
                  then [SlotTaken, BackendCalled] @ map Sent sent @ [SlotReleased] else []);
          (rec, db) = finish_usage a (en_record_id en) k c
            (stream_args en (pp_canonical pp) (pp_request pp) (pp_backend_id pp) first raised)
      in (leaves, held @ rec, db))"

subsection \<open>The line in the log\<close>

definition log_value :: "('a \<Rightarrow> string) \<Rightarrow> 'a option \<Rightarrow> string" where
  "log_value f v = (case v of None \<Rightarrow> ''-'' | Some x \<Rightarrow> f x)"

definition log_request_completion ::
  "string \<Rightarrow> string option \<Rightarrow> string \<Rightarrow> bool \<Rightarrow> string \<Rightarrow> string option \<Rightarrow> int option \<Rightarrow> int option
     \<Rightarrow> int option \<Rightarrow> int option \<Rightarrow> int option \<Rightarrow> int option \<Rightarrow> int option \<Rightarrow> int option \<Rightarrow> string" where
  "log_request_completion request_id client_id model streaming outcome error_code queue_wait_ms
     backend_latency_ms ttft_ms stream_duration_ms total_duration_ms prompt_tokens completion_tokens total_tokens =
     ''request completed (request_id='' @ request_id @ '', client='' @ str_or client_id ''-'' @
     '', model='' @ model @ '', streaming='' @ (if streaming then ''True'' else ''False'') @
     '', outcome='' @ outcome @ '', error='' @ str_or error_code ''-'' @
     '', queue_wait='' @ log_value show_int queue_wait_ms @ '', backend='' @ log_value show_int backend_latency_ms @
     '', ttft='' @ log_value show_int ttft_ms @ '', stream_dur='' @ log_value show_int stream_duration_ms @
     '', total='' @ log_value show_int total_duration_ms @ '', prompt_tok='' @ log_value show_int prompt_tokens @
     '', compl_tok='' @ log_value show_int completion_tokens @ '', total_tok='' @ log_value show_int total_tokens @ '')''"

definition completion_log_line :: "'b app \<Rightarrow> client \<Rightarrow> usage_args \<Rightarrow> string" where
  \<comment> \<open>with the arguments of the two calls: without a usage service the handler that does not stream has
    neither read the times nor the tokens\<close>
  "completion_log_line a c args =
     (let known = (\<lambda>v. if app_usage a \<noteq> None \<or> a_streaming args then v else None)
      in log_request_completion (a_request_id args) (Some (c_id c)) (a_model args) (a_streaming args)
           (a_outcome args) (a_error_code args) (known (a_queue_wait_ms args)) (known (a_backend_latency_ms args))
           (known (a_ttft_ms args)) (known (a_stream_duration_ms args)) (known (a_total_duration_ms args))
           (known (a_prompt_tokens args)) (known (a_completion_tokens args)) (known (a_total_tokens args)))"

datatype chat_result =
    JsonResult "exn + chat_response" "action list" "store option"
  | StreamResult "exn option" "action list" "store option"
  | Refused exn

definition create_chat_completion ::
  "('b \<Rightarrow> backend_capability list) \<Rightarrow> ('b \<Rightarrow> exn + model_info list) \<Rightarrow> 'b app \<Rightarrow> api_request
     \<Rightarrow> principal \<times> api_key \<times> client \<Rightarrow> time \<Rightarrow> datetime \<Rightarrow> datetime \<Rightarrow> request_env
     \<Rightarrow> (chat_response \<Rightarrow> exn + chat_response) \<Rightarrow> ('b \<Rightarrow> chat_request \<Rightarrow> exn + chat_response)
     \<Rightarrow> ('b \<Rightarrow> chat_request \<Rightarrow> chat_chunk list \<times> exn option) \<Rightarrow> (nat \<times> exn) option \<Rightarrow> rate_limiter
     \<Rightarrow> chat_result \<times> rate_limiter" where
  "create_chat_completion caps discovered a r auth tick now1 now2 en mk complete_chat stream_chat interrupt rl =
     (case prepare_completion caps discovered a r auth tick now1 now2 rl of
        (Inl e, rl') \<Rightarrow> (Refused e, rl')
      | (Inr pp, rl') \<Rightarrow>
          (case auth of (p, k, c) \<Rightarrow>
             if \<not> cr_stream (pp_request pp)
             then (case non_streaming_completion a en mk k c pp (complete_chat (pp_backend pp) (pp_request pp)) of
                     (res, trace, db) \<Rightarrow> (JsonResult res trace db, rl'))
             else (case get_admission a of
                     Inl e \<Rightarrow> (Refused e, rl')
                   | Inr _ \<Rightarrow>
                       (case stream_generator a en k c pp (stream_chat (pp_backend pp) (pp_request pp)) interrupt of
                          (leaves, trace, db) \<Rightarrow> (StreamResult leaves trace db, rl')))))"

section \<open>Lemmas\<close>

text \<open>The line in the log shows the columns of the record that is stored.\<close>

lemma log_line_of_record:
  assumes "app_usage a \<noteq> None" "record_usage rid (Some k) (Some c) args s = Inr (r, s')"
  shows "completion_log_line a c args =
    log_request_completion (r_request_id r) (r_client_id r) (r_model r) (r_streaming r = 1) (r_status r)
      (r_error_code r) (r_queue_wait_ms r) (r_backend_latency_ms r) (r_ttft_ms r) (r_stream_duration_ms r)
      (r_total_duration_ms r) (r_prompt_tokens r) (r_completion_tokens r) (r_total_tokens r)"
  using assms by (auto simp: completion_log_line_def record_usage_def Let_def split: sum.splits)

lemma finish_usage_trace:
  "fst (finish_usage a rid k c args) = (if app_usage a = None then [] else [Recorded args])"
  by (simp add: finish_usage_def split: option.split)

lemma non_streaming_wired:
  assumes "app_has_admission a"
  shows "non_streaming_completion a en mk k c pp answer =
    ((case snd (snd (completion_outcome (en_slot en) answer)) of
        Inl e \<Rightarrow> Inl e
      | Inr resp \<Rightarrow> mk (api_response en (pp_canonical pp) (pp_request pp) resp)),
     (if en_slot en = None then [SlotTaken, BackendCalled, SlotReleased] else []) @
       fst (finish_usage a (en_record_id en) k c
         (completion_args en (pp_canonical pp) (pp_request pp) (pp_backend_id pp) answer)),
     snd (finish_usage a (en_record_id en) k c
         (completion_args en (pp_canonical pp) (pp_request pp) (pp_backend_id pp) answer)))"
  using assms by (simp add: non_streaming_completion_def get_admission_def split_beta Let_def)

definition stream_run ::
  "request_env \<Rightarrow> 'b prepared \<Rightarrow> chat_chunk list \<times> exn option \<Rightarrow> (nat \<times> exn) option
     \<Rightarrow> byte list list \<times> exn option" where
  "stream_run en pp answer interrupt =
     (case en_slot en of
        None \<Rightarrow> stream_body (pp_canonical pp) (fst answer) (snd answer) interrupt
      | Some e \<Rightarrow> ([], Some e))"

lemma stream_generator_eq:
  "stream_generator a en k c pp answer interrupt =
     (let (sent, raised) = stream_run en pp answer interrupt;
          args = stream_args en (pp_canonical pp) (pp_request pp) (pp_backend_id pp)
                   (sent \<noteq> [] \<and> fst answer \<noteq> []) raised
      in (snd (snd (stream_outcome raised)),
          (if en_slot en = None then [SlotTaken, BackendCalled] @ map Sent sent @ [SlotReleased] else []) @
            fst (finish_usage a (en_record_id en) k c args),
          snd (finish_usage a (en_record_id en) k c args)))"
  by (simp add: stream_generator_def stream_run_def split_beta Let_def)

lemma backend_failure_code_Some:
  "backend_failure_code e \<noteq> None \<longleftrightarrow> exn_is e BackendUnavailableErrorC"
  by (cases e) (auto simp: backend_failure_code_def is_instance_BackendUnavailable is_instance_leaf)

lemma completion_args_outcome [simp]:
  "a_outcome (completion_args en canonical r bid answer) = fst (completion_outcome (en_slot en) answer)"
  "a_error_code (completion_args en canonical r bid answer) = fst (snd (completion_outcome (en_slot en) answer))"
  by (simp_all add: completion_args_def split_beta Let_def)

lemma stream_args_outcome [simp]:
  "a_outcome (stream_args en canonical r bid first raised) = fst (stream_outcome raised)"
  "a_error_code (stream_args en canonical r bid first raised) = fst (snd (stream_outcome raised))"
  by (simp_all add: stream_args_def split_beta Let_def)

lemma backend_failure_code_Exception: "backend_failure_code e \<noteq> None \<Longrightarrow> is_Exception e"
  by (cases e) (simp_all add: backend_failure_code_def)

lemma stream_outcome_cases:
  "stream_outcome raised =
     (case raised of
        None \<Rightarrow> (completed, None, None)
      | Some e \<Rightarrow>
          (case backend_failure_code e of
             Some code \<Rightarrow> (failed, Some code, None)
           | None \<Rightarrow> (cancelled, None, if is_Exception e then None else Some e)))"
proof (cases raised)
  case (Some e)
  have "backend_failure_code CancelledError = None" "\<not> is_Exception CancelledError"
    by (simp_all add: backend_failure_code_def)
  with Some show ?thesis
    by (cases "backend_failure_code e"; cases "e = CancelledError"; cases "is_Exception e")
      (simp_all add: stream_outcome_def stream_except_def)
qed (simp add: stream_outcome_def stream_except_def)

section \<open>The slot\<close>

definition held_actions :: "action list \<Rightarrow> bool" where
  \<comment> \<open>a slot is taken once, everything that uses the backend or the client happens while it is
    held, and it is released once\<close>
  "held_actions tr \<longleftrightarrow>
     (\<exists>mid rest. tr = SlotTaken # mid @ SlotReleased # rest \<and>
        (\<forall>x\<in>set mid. x = BackendCalled \<or> (\<exists>b. x = Sent b)) \<and>
        (\<forall>x\<in>set rest. \<exists>args. x = Recorded args))"

definition unheld_actions :: "action list \<Rightarrow> bool" where
  "unheld_actions tr \<longleftrightarrow> (\<forall>x\<in>set tr. \<exists>args. x = Recorded args)"

lemma finish_usage_recorded: "x \<in> set (fst (finish_usage a rid k c args)) \<Longrightarrow> \<exists>args. x = Recorded args"
  by (auto simp: finish_usage_trace split: if_splits)

lemma held_actionsI:
  assumes "tr = SlotTaken # mid @ SlotReleased # rest"
    "\<forall>x\<in>set mid. x = BackendCalled \<or> (\<exists>b. x = Sent b)" "\<forall>x\<in>set rest. \<exists>args. x = Recorded args"
  shows "held_actions tr"
  using assms unfolding held_actions_def by blast

lemma stream_trace:
  assumes "fst (snd (stream_generator a en k c pp answer interrupt)) = tr"
  shows "if en_slot en = None then held_actions tr else unheld_actions tr"
proof -
  obtain sent raised where r: "stream_run en pp answer interrupt = (sent, raised)"
    by (cases "stream_run en pp answer interrupt")
  let ?u = "fst (finish_usage a (en_record_id en) k c
      (stream_args en (pp_canonical pp) (pp_request pp) (pp_backend_id pp) (sent \<noteq> [] \<and> fst answer \<noteq> []) raised))"
  have u: "\<forall>x\<in>set ?u. \<exists>args. x = Recorded args" using finish_usage_recorded by blast
  have "tr = (if en_slot en = None then SlotTaken # (BackendCalled # map Sent sent) @ SlotReleased # ?u else ?u)"
    using assms by (auto simp: stream_generator_eq r Let_def)
  with u show ?thesis
    by (cases "en_slot en") (auto simp: unheld_actions_def intro!: held_actionsI [OF _ _ u])
qed

lemma completion_trace:
  assumes "app_has_admission a" "fst (snd (non_streaming_completion a en mk k c pp answer)) = tr"
  shows "if en_slot en = None then held_actions tr else unheld_actions tr"
proof -
  let ?u = "fst (finish_usage a (en_record_id en) k c
      (completion_args en (pp_canonical pp) (pp_request pp) (pp_backend_id pp) answer))"
  have u: "\<forall>x\<in>set ?u. \<exists>args. x = Recorded args" using finish_usage_recorded by blast
  have "tr = (if en_slot en = None then SlotTaken # [BackendCalled] @ SlotReleased # ?u else ?u)"
    using assms(2) by (auto simp: non_streaming_wired [OF assms(1)])
  with u show ?thesis
    by (cases "en_slot en") (auto simp: unheld_actions_def intro!: held_actionsI [OF _ _ u])
qed

fun result_trace :: "chat_result \<Rightarrow> action list" where
  "result_trace (JsonResult _ tr _) = tr"
| "result_trace (StreamResult _ tr _) = tr"
| "result_trace (Refused _) = []"

lemma completion_trace_cases:
  assumes "fst (create_chat_completion caps discovered a r auth tick now1 now2 en mk complete_chat stream_chat interrupt rl) = res"
  shows "held_actions (result_trace res) \<or> unheld_actions (result_trace res)"
proof -
  have 1: "held_actions tr \<or> unheld_actions tr"
    if "non_streaming_completion a en mk k c pp answer = (x, tr, db)" for k c pp answer x tr db
  proof (cases "app_has_admission a")
    case True
    with that completion_trace [of a en mk k c pp answer tr] show ?thesis by (auto split: if_splits)
  next
    case False
    with that show ?thesis by (auto simp: non_streaming_completion_def get_admission_def unheld_actions_def)
  qed
  have 2: "held_actions tr \<or> unheld_actions tr"
    if "stream_generator a en k c pp answer interrupt = (x, tr, db)" for k c pp answer x tr db
    using that stream_trace [of a en k c pp answer interrupt tr] by (auto split: if_splits)
  have 3: "unheld_actions []" by (simp add: unheld_actions_def)
  from assms show ?thesis
    unfolding create_chat_completion_def
    by (auto simp: 3 split: prod.splits sum.splits if_splits dest: 1 2)
qed

end
