(* ===== verification/Serving.thy ===== *)
theory Serving
  imports Chat Admission_Safety
begin

text \<open>
  A completion on the running gateway: its slot and the admission controller, interleaved with the
  steps of all other requests.  The contract between the two is the locale \<open>slot_pool\<close>; the
  controller of \<open>app/core/admission.py\<close> is its interpretation.
\<close>

section \<open>The contract of a pool of slots\<close>

locale slot_pool =
  fixes ok :: "'s \<Rightarrow> bool"
    and holds :: "'c \<Rightarrow> 's \<Rightarrow> bool"
    and enter :: "'c \<Rightarrow> 's \<Rightarrow> 's \<Rightarrow> bool"
    and quit :: "'c \<Rightarrow> 's \<Rightarrow> 's option"
    and others :: "'c \<Rightarrow> 's \<Rightarrow> 's \<Rightarrow> bool"
  assumes enter_ok: "ok s \<Longrightarrow> enter c s s' \<Longrightarrow> ok s' \<and> holds c s'"
    and quit_total: "ok s \<Longrightarrow> holds c s \<Longrightarrow> \<exists>s'. quit c s = Some s'"
    and quit_ok: "ok s \<Longrightarrow> holds c s \<Longrightarrow> quit c s = Some s' \<Longrightarrow> ok s' \<and> \<not> holds c s'"
    and others_ok: "ok s \<Longrightarrow> others c s s' \<Longrightarrow> ok s' \<and> (holds c s' \<longleftrightarrow> holds c s)"
begin

inductive served :: "'c \<Rightarrow> bool list \<Rightarrow> 's \<Rightarrow> 's \<Rightarrow> bool" for c where
  \<comment> \<open>a client entering (True) and quitting (False), among the steps of the others\<close>
  nothing: "served c [] s s"
| elsewhere: "others c s s' \<Longrightarrow> served c bs s' s'' \<Longrightarrow> served c bs s s''"
| entered: "enter c s s' \<Longrightarrow> served c bs s' s'' \<Longrightarrow> served c (True # bs) s s''"
| left: "quit c s = Some s' \<Longrightarrow> served c bs s' s'' \<Longrightarrow> served c (False # bs) s s''"

fun bracketed :: "bool \<Rightarrow> bool list \<Rightarrow> bool" where
  \<comment> \<open>each slot is taken when none is held and given back before the next\<close>
  "bracketed h [] = True"
| "bracketed h (b # bs) = (h \<noteq> b \<and> bracketed b bs)"

lemma served_holds:
  assumes "served c bs s s'" "ok s" "bracketed (holds c s) bs"
  shows "ok s' \<and> (holds c s' \<longleftrightarrow> (if bs = [] then holds c s else last bs))"
  using assms
proof (induction rule: served.induct)
  case (elsewhere s s1 bs s')
  then show ?case using others_ok [of s c s1] by auto
next
  case (entered s s1 bs s')
  then show ?case using enter_ok [of s c s1] by (auto split: if_splits)
next
  case (left s s1 bs s')
  then have "holds c s" by simp
  with left show ?case using quit_ok [of s c s1] by (auto split: if_splits)
qed simp

text \<open>A client that enters and quits in turn can always quit, and holds nothing when its last
  action was to quit.\<close>

lemma can_quit:
  assumes "served c (bs @ [True]) s s'" "ok s" "bracketed (holds c s) (bs @ [True])"
  shows "\<exists>s''. quit c s' = Some s''"
  using served_holds [OF assms] quit_total by auto

end

section \<open>The controller is such a pool\<close>

fun adm_who :: "adm_event \<Rightarrow> cid" where
  "adm_who (Arrive c _) = c"
| "adm_who (Resume c) = c"
| "adm_who (Timeout c) = c"
| "adm_who (CancelWait c) = c"
| "adm_who (ResumeSem c) = c"
| "adm_who (CancelSem c) = c"
| "adm_who (Leave c) = c"

definition adm_enter :: "cid \<Rightarrow> admission \<Rightarrow> admission \<Rightarrow> bool" where
  "adm_enter c s s' \<longleftrightarrow> (\<exists>e. adm_who e = c \<and> adm_step s e (Some Entered) s')"

definition adm_others :: "cid \<Rightarrow> admission \<Rightarrow> admission \<Rightarrow> bool" where
  \<comment> \<open>a step of another call, or one of this call that does not let it in\<close>
  "adm_others c s s' \<longleftrightarrow>
     (\<exists>e r. adm_step s e r s' \<and> (adm_who e \<noteq> c \<or> r \<noteq> Some Entered \<and> e \<noteq> Leave c))"

lemma take_slot_holders:
  "take_slot c s = (r, s') \<Longrightarrow> holders s' = (if r = Entered then holders s @ [c] else holders s)"
  by (auto simp: take_slot_def split: prod.splits bool.splits)

lemma adm_step_holders:
  assumes "adm_step s e r s'"
  shows "set (holders s') - {adm_who e} = set (holders s) - {adm_who e}"
    and "r = Some Entered \<Longrightarrow> adm_who e \<in> set (holders s')"
    and "r \<noteq> Some Entered \<Longrightarrow> \<forall>c. e \<noteq> Leave c \<Longrightarrow> holders s' = holders s"
  using assms
  by (induction rule: adm_step.induct)
    (auto simp: acquire_def resume_queued_def timeout_queued_def cancel_queued_def resume_sem_def
      cancel_sem_def leave_eq drop_waiting_def remove_queued_entry_def Let_def
      dest!: take_slot_holders dest: notin_set_remove1 split: if_splits)

interpretation slots: slot_pool adm_inv "\<lambda>c s. c \<in> set (holders s)" adm_enter leave adm_others
proof unfold_locales
  fix s s' c
  show "adm_inv s \<Longrightarrow> adm_enter c s s' \<Longrightarrow> adm_inv s' \<and> c \<in> set (holders s')"
    using adm_step_inv adm_step_holders(2) by (fastforce simp: adm_enter_def)
  show "adm_inv s \<Longrightarrow> c \<in> set (holders s) \<Longrightarrow> \<exists>s'. leave c s = Some s'" by (rule leave_total)
  assume inv: "adm_inv s"
  show "adm_inv s' \<and> c \<notin> set (holders s')" if "c \<in> set (holders s)" "leave c s = Some s'"
    using leave_inv [OF inv that] inv that
    by (auto simp: leave_eq adm_inv_def parked_def split: if_splits)
  show "adm_inv s' \<and> (c \<in> set (holders s') \<longleftrightarrow> c \<in> set (holders s))" if others: "adm_others c s s'"
  proof -
    obtain e r where e: "adm_step s e r s'" "adm_who e \<noteq> c \<or> r \<noteq> Some Entered \<and> e \<noteq> Leave c"
      using others unfolding adm_others_def by blast
    have "c \<in> set (holders s') \<longleftrightarrow> c \<in> set (holders s)"
    proof (cases "adm_who e = c")
      case True
      then have "\<forall>d. e \<noteq> Leave d" using e(2) by auto
      with True e adm_step_holders(3) show ?thesis by auto
    next
      case False
      with adm_step_holders(1) [OF e(1)] show ?thesis by blast
    qed
    with adm_step_inv [OF e(1) inv] show ?thesis by simp
  qed
qed

section \<open>A request's actions on the controller\<close>

fun slot_moves :: "action list \<Rightarrow> bool list" where
  "slot_moves [] = []"
| "slot_moves (x # xs) =
     (case x of SlotTaken \<Rightarrow> True # slot_moves xs | SlotReleased \<Rightarrow> False # slot_moves xs
      | _ \<Rightarrow> slot_moves xs)"

definition served_by_controller :: "cid \<Rightarrow> action list \<Rightarrow> admission \<Rightarrow> admission \<Rightarrow> bool" where
  \<comment> \<open>call \<open>c\<close> does the actions, in any interleaving with steps of the controller\<close>
  "served_by_controller c tr = slots.served c (slot_moves tr)"

lemma slot_moves_append [simp]: "slot_moves (xs @ ys) = slot_moves xs @ slot_moves ys"
  by (induction xs) (auto split: action.split)

lemma slot_moves_none:
  "\<forall>x\<in>set xs. x \<noteq> SlotTaken \<and> x \<noteq> SlotReleased \<Longrightarrow> slot_moves xs = []"
  by (induction xs) (auto split: action.split)

lemma slot_moves_held:
  assumes "held_actions tr"
  shows "slot_moves tr = [True, False]"
proof -
  obtain mid rest where tr: "tr = SlotTaken # mid @ SlotReleased # rest"
    and mid: "\<forall>x\<in>set mid. x = BackendCalled \<or> (\<exists>b. x = Sent b)"
    and rest: "\<forall>x\<in>set rest. \<exists>args. x = Recorded args"
    using assms unfolding held_actions_def by blast
  have "slot_moves mid = []" "slot_moves rest = []"
    using mid rest by (force intro!: slot_moves_none)+
  then show ?thesis by (simp add: tr)
qed

lemma slot_moves_unheld: "unheld_actions tr \<Longrightarrow> slot_moves tr = []"
  by (rule slot_moves_none) (force simp: unheld_actions_def)

lemma handler_moves:
  assumes "fst (create_chat_completion caps discovered a r auth tick now1 now2 en mk complete_chat stream_chat
    interrupt rl) = res"
  shows "slot_moves (result_trace res) \<in> {[], [True, False]}"
  using completion_trace_cases [OF assms] slot_moves_held slot_moves_unheld by blast


section \<open>What the client reads\<close>

fun sent_bytes :: "action list \<Rightarrow> byte list list" where
  "sent_bytes [] = []"
| "sent_bytes (x # xs) = (case x of Sent b \<Rightarrow> b # sent_bytes xs | _ \<Rightarrow> sent_bytes xs)"

lemma sent_bytes_append [simp]: "sent_bytes (xs @ ys) = sent_bytes xs @ sent_bytes ys"
  by (induction xs) (auto split: action.split)

lemma sent_bytes_Sent [simp]: "sent_bytes (map Sent bs) = bs"
  by (induction bs) auto

lemma sent_bytes_recorded [simp]: "sent_bytes (fst (finish_usage a rid k c args)) = []"
  by (simp add: finish_usage_trace)

lemma stream_sent_bytes:
  "sent_bytes (fst (snd (stream_generator a en k c pp answer interrupt))) =
     (if en_slot en = None then fst (stream_run en pp answer interrupt) else [])"
  by (simp add: stream_generator_eq split_beta Let_def)

definition chunk_payload :: "string \<Rightarrow> chat_chunk \<Rightarrow> (string \<times> json) list" where
  "chunk_payload canonical ck =
     (if canonical = [] then chunk_to_api_dict ck
      else dict_set ''model'' (JStr canonical) (chunk_to_api_dict ck))"

lemma chunk_frame_payload: "chunk_frame canonical ck = format_sse (chunk_payload canonical ck)"
  by (simp add: chunk_frame_def chunk_payload_def Let_def)

lemma decode_sent_frames:
  "concat (map decode (map (chunk_frame canonical) cks @ (if b then [format_sse_done] else []))) =
     concat (map sse_frame (map (\<lambda>ck. of_text (dumps (JObj (chunk_payload canonical ck)))) cks @
       (if b then [of_text ''[DONE]''] else [])))"
  using decode_format_sse [of _ "[]"] decode_done [of "[]"]
  by (induction cks) (auto simp: chunk_frame_payload)

lemma read_sent_frames:
  "map ev_data (parse_sse (map (chunk_frame canonical) cks @ (if b then [format_sse_done] else []))) =
     map (\<lambda>ck. of_text (dumps (JObj (chunk_payload canonical ck)))) cks @
       (if b then [of_text ''[DONE]''] else [])"
proof -
  let ?ds = "map (\<lambda>ck. of_text (dumps (JObj (chunk_payload canonical ck)))) cks @
       (if b then [of_text ''[DONE]''] else [])"
  have "\<forall>d\<in>set ?ds. 10 \<notin> set d \<and> (d = [] \<or> last d \<noteq> 13)"
    using dumps_frame_ok by (auto simp: of_text_def)
  then show ?thesis
    by (simp only: parse_sse_text decode_sent_frames parse_frames) (simp add: o_def)
qed

section \<open>The gate\<close>

lemma route_may_use:
  assumes "route discovered rs n p = Inr d" "configured rs"
  shows "can_use_model p (rd_canonical_model d)"
proof -
  obtain mr where mr: "rs_models rs = Some mr"
    using assms by (cases "rs_models rs") (simp_all add: route_def configured_def)
  obtain br where br: "rs_backends rs = Some br"
    using assms mr by (cases "rs_backends rs") (simp_all add: route_def configured_def)
  from assms(1) show ?thesis
    unfolding route_configured [OF assms(2) mr br] by (auto split: sum.splits prod.splits if_splits)
qed

lemma check_capability_Inr: "check_capability cs c = Inr x \<longleftrightarrow> c \<in> set cs"
  by (simp add: check_capability_def)

lemma validated_request:
  "validate_and_normalize_request r available p cs = Inr q \<Longrightarrow>
     q = internal_request (ar_model r) r \<and> can_use_model p (ar_model r) \<and>
     (ar_stream r \<longrightarrow> CapStreaming \<in> set cs)"
  by (simp add: validate_and_normalize_request_def enforce_model_access_def split: if_splits)

lemma chosen_backend:
  assumes "choose_backend caps discovered a r p = Inr pp"
  shows "can_use_model p (pp_canonical pp) \<and> CapChatCompletions \<in> set (caps (pp_backend pp)) \<and>
    (ar_stream r \<longrightarrow> CapStreaming \<in> set (caps (pp_backend pp))) \<and>
    (\<exists>m. pp_request pp = internal_request m r)"
proof -
  obtain rs where rs: "get_router a = Inr rs"
    using assms by (cases "get_router a") (simp_all add: choose_backend_def)
  show ?thesis
  proof (cases "configured rs")
    case True
    then obtain d where d: "route discovered rs (ar_model r) p = Inr d"
      using assms rs by (cases "route discovered rs (ar_model r) p") (simp_all add: choose_backend_def)
    with assms rs True route_may_use [OF d True] show ?thesis
      by (auto simp: choose_backend_def check_capability_Inr split: sum.splits if_splits)
  next
    case False
    then obtain b where b: "get_app_backend a = Inr b"
      using assms rs by (cases "get_app_backend a") (simp_all add: choose_backend_def)
    obtain x where x: "check_capability (caps b) CapChatCompletions = Inr x"
      using assms rs False b by (cases "check_capability (caps b) CapChatCompletions") (simp_all add: choose_backend_def)
    obtain av where av: "get_available_models (discovered b) = Inr av"
      using assms rs False b x by (cases "get_available_models (discovered b)") (simp_all add: choose_backend_def)
    obtain q where q: "validate_and_normalize_request r av p (caps b) = Inr q"
      using assms rs False b x av
      by (cases "validate_and_normalize_request r av p (caps b)") (simp_all add: choose_backend_def)
    have "pp = \<lparr> pp_backend = b, pp_request = q, pp_canonical = ar_model r, pp_backend_id = None \<rparr>"
      using assms rs False b x av q by (simp add: choose_backend_def)
    with validated_request [OF q] x show ?thesis by (auto simp: check_capability_Inr)
  qed
qed

section \<open>Accounting\<close>

definition recorded :: "action list \<Rightarrow> usage_args list" where
  "recorded tr = concat (map (\<lambda>x. case x of Recorded args \<Rightarrow> [args] | _ \<Rightarrow> []) tr)"

lemma recorded_append [simp]: "recorded (xs @ ys) = recorded xs @ recorded ys"
  by (simp add: recorded_def)

lemma recorded_Sent [simp]: "recorded (map Sent bs) = []"
  by (simp add: recorded_def)

lemma recorded_Cons [simp]:
  "recorded [] = []" "recorded (Recorded args # xs) = args # recorded xs"
  "recorded (SlotTaken # xs) = recorded xs" "recorded (SlotReleased # xs) = recorded xs"
  "recorded (BackendCalled # xs) = recorded xs"
  by (simp_all add: recorded_def)

lemma completion_error_code:
  "exn_is e BackendUnavailableErrorC \<Longrightarrow>
     \<exists>x. completion_error e = Syn x \<and> e_status x = 502 \<and> backend_failure_code e = Some (e_code x)"
  by (simp add: completion_error_def backend_failure_code_def)

lemma queue_errors_apart: "\<not> (exn_is e QueueFullErrorC \<and> exn_is e QueueTimeoutErrorC)"
  by (cases e) (auto simp: is_instance_leaf)

lemma completion_outcome_split:
  "let oc = fst (completion_outcome slot answer)
   in (oc = completed \<longleftrightarrow> slot = None \<and> (\<exists>resp. answer = Inr resp)) \<and>
      (oc = rejected \<longleftrightarrow> (\<exists>e. slot = Some e \<and> exn_is e QueueFullErrorC)) \<and>
      (oc = timed_out \<longleftrightarrow> (\<exists>e. slot = Some e \<and> exn_is e QueueTimeoutErrorC)) \<and>
      oc \<in> {completed, rejected, timed_out, failed}"
proof (cases slot)
  case None
  then show ?thesis by (cases answer) (simp_all add: completion_outcome_def outcome_distinct [symmetric])
next
  case (Some e)
  then show ?thesis
    using queue_errors_apart [of e]
    by (auto simp: completion_outcome_def outcome_distinct [symmetric] Let_def)
qed

lemma completion_tokens:
  "a_total_tokens (completion_args en canonical r bid answer) \<noteq> None \<Longrightarrow>
     fst (completion_outcome (en_slot en) answer) = completed"
  by (auto simp: completion_args_def completion_outcome_def Let_def split: option.splits sum.splits prod.splits if_splits)

lemma stream_outcome_split:
  "(fst (stream_outcome raised) = completed \<longleftrightarrow> raised = None) \<and>
   (fst (stream_outcome raised) = failed \<longleftrightarrow>
      (\<exists>e. raised = Some e \<and> exn_is e BackendUnavailableErrorC \<and>
         fst (snd (stream_outcome raised)) = backend_failure_code e)) \<and>
   fst (stream_outcome raised) \<in> {completed, failed, cancelled} \<and>
   (\<forall>e. snd (snd (stream_outcome raised)) = Some e \<longrightarrow>
      \<not> is_Exception e \<and> fst (stream_outcome raised) = cancelled)"
proof (cases raised)
  case (Some e)
  then show ?thesis
    using backend_failure_code_Some [of e]
    by (cases "backend_failure_code e") (auto simp: stream_outcome_cases outcome_distinct [symmetric])
qed (simp add: stream_outcome_cases)

lemma stream_run_normal:
  "stream_run en pp answer interrupt = (sent, None) \<Longrightarrow>
     en_slot en = None \<and> last sent = format_sse_done"
  by (auto simp: stream_run_def stream_body_def Let_def split: option.splits if_splits prod.splits)

section \<open>Properties\<close>

text \<open>C11: The gate before a completion: a request is let through only when the limits of its key and
  client admit it, the principal may use the model under its canonical id, and the chosen backend
  can answer chat completions and, for a streamed request, stream; the messages reach the backend
  unchanged and in order.\<close>

theorem completion_gate:
  assumes "prepare_completion caps discovered a r (p, k, c) tick now1 now2 rl = (Inr pp, rl')"
  shows "(case app_usage a of None \<Rightarrow> rl' = rl
      | Some sv \<Rightarrow> \<exists>s q. app_db a = Some s \<and> precheck sv s k c tick now1 now2 rl = (Inr q, rl')) \<and>
    can_use_model p (pp_canonical pp) \<and> CapChatCompletions \<in> set (caps (pp_backend pp)) \<and>
    (cr_stream (pp_request pp) \<longleftrightarrow> ar_stream r) \<and> (ar_stream r \<longrightarrow> CapStreaming \<in> set (caps (pp_backend pp))) \<and>
    map (\<lambda>m. (msg_role m, msg_content m)) (cr_messages (pp_request pp)) =
      map (\<lambda>m. (JStr (am_role m), JStr (am_content m))) (ar_messages r)"
proof -
  have pre: "usage_precheck a k c tick now1 now2 rl = (Inr (), rl')"
    and choice: "choose_backend caps discovered a r p = Inr pp"
    using assms by (auto simp: prepare_completion_def split: prod.splits sum.splits)
  have "case app_usage a of None \<Rightarrow> rl' = rl
      | Some sv \<Rightarrow> \<exists>s q. app_db a = Some s \<and> precheck sv s k c tick now1 now2 rl = (Inr q, rl')"
    using pre
    by (auto simp: usage_precheck_def get_db_session_for_usage_def split: option.splits prod.splits sum.splits)
  with chosen_backend [OF choice] show ?thesis by (auto simp: internal_request_def)
qed

text \<open>C8: A slot never outlives its request: whatever the backend, the clocks and an interruption do,
  and however the other requests interleave, a completion that starts without a slot can always
  give back the one it took, holds none when it is done, and keeps the controller's invariant.\<close>

theorem completion_returns_slot:
  assumes "fst (create_chat_completion caps discovered a r auth tick now1 now2 en mk complete_chat stream_chat
      interrupt rl) = res"
    "adm_inv s" "c \<notin> set (holders s)" "served_by_controller c (result_trace res) s s'"
  shows "adm_inv s' \<and> c \<notin> set (holders s') \<and>
    (\<forall>tr tr'. result_trace res = tr @ SlotReleased # tr' \<longrightarrow>
      (\<forall>s1. served_by_controller c tr s s1 \<longrightarrow> (\<exists>s2. leave c s1 = Some s2)))"
proof -
  consider "slot_moves (result_trace res) = []" | "slot_moves (result_trace res) = [True, False]"
    using handler_moves [OF assms(1)] by auto
  then show ?thesis
  proof cases
    case 1
    then have "slots.served c [] s s'" using assms(4) by (simp add: served_by_controller_def)
    from slots.served_holds [OF this assms(2)] assms(3) 1 show ?thesis
      by (auto simp: served_by_controller_def)
  next
    case 2
    then have "slots.served c [True, False] s s'" using assms(4) by (simp add: served_by_controller_def)
    from slots.served_holds [OF this assms(2)] assms(3)
    have "adm_inv s'" "c \<notin> set (holders s')" by simp_all
    moreover have "\<exists>s2. leave c s1 = Some s2"
      if tr: "result_trace res = tr @ SlotReleased # tr'" and s1: "served_by_controller c tr s s1" for tr tr' s1
    proof -
      have "slot_moves tr @ False # slot_moves tr' = [True, False]" using 2 tr by simp
      then have "slot_moves tr = [True]" by (cases "slot_moves tr") (auto simp: append_eq_Cons_conv)
      with s1 slots.can_quit [of c "[]" s s1] assms(2,3) show ?thesis
        by (simp add: served_by_controller_def)
    qed
    ultimately show ?thesis by blast
  qed
qed

text \<open>C13: Every completion that is not streamed is accounted for exactly once, with the outcome that
  happened: completed when the backend answered, rejected when the queue was full, timed out when
  the wait in it was too long, failed otherwise; a typed backend error reaches the client as a 502
  with the recorded code, and tokens are only recorded for an answer.\<close>

theorem completion_accounted:
  assumes "app_has_admission a" "app_usage a = Some sv"
    "non_streaming_completion a en mk k c pp answer = (res, tr, db)"
  shows "\<exists>args. recorded tr = [args] \<and> db = store_usage a (en_record_id en) k c args \<and>
    (a_outcome args = completed \<longleftrightarrow> en_slot en = None \<and> (\<exists>resp. answer = Inr resp)) \<and>
    (a_outcome args = rejected \<longleftrightarrow> (\<exists>e. en_slot en = Some e \<and> exn_is e QueueFullErrorC)) \<and>
    (a_outcome args = timed_out \<longleftrightarrow> (\<exists>e. en_slot en = Some e \<and> exn_is e QueueTimeoutErrorC)) \<and>
    (a_outcome args \<in> {completed, rejected, timed_out, failed}) \<and>
    (\<forall>e. en_slot en = None \<and> answer = Inl e \<and> exn_is e BackendUnavailableErrorC \<longrightarrow>
       (\<exists>x. res = Inl (Syn x) \<and> e_status x = 502 \<and> a_error_code args = Some (e_code x))) \<and>
    (a_total_tokens args \<noteq> None \<longrightarrow> a_outcome args = completed)"
proof -
  let ?args = "completion_args en (pp_canonical pp) (pp_request pp) (pp_backend_id pp) answer"
  let ?o = "completion_outcome (en_slot en) answer"
  have run: "recorded tr = [?args]" "db = store_usage a (en_record_id en) k c ?args"
    "res = (case snd (snd ?o) of Inl e \<Rightarrow> Inl e
        | Inr resp \<Rightarrow> mk (api_response en (pp_canonical pp) (pp_request pp) resp))"
    using assms(3) unfolding non_streaming_wired [OF assms(1)]
    by (auto simp: finish_usage_def assms(2) recorded_def)
  have failure: "\<exists>x. res = Inl (Syn x) \<and> e_status x = 502 \<and> a_error_code ?args = Some (e_code x)"
    if "en_slot en = None" "answer = Inl e" "exn_is e BackendUnavailableErrorC" for e
    using that completion_error_code [OF that(3)] run(3) by (auto simp: completion_outcome_def)
  show ?thesis
  proof (intro exI [of _ ?args] conjI allI impI)
    note split = completion_outcome_split [of "en_slot en" answer, unfolded Let_def]
    from split show "a_outcome ?args = completed \<longleftrightarrow> en_slot en = None \<and> (\<exists>resp. answer = Inr resp)"
      unfolding completion_args_outcome by (rule conjunct1)
    from split show "a_outcome ?args = rejected \<longleftrightarrow> (\<exists>e. en_slot en = Some e \<and> exn_is e QueueFullErrorC)"
      unfolding completion_args_outcome by (elim conjE)
    from split show "a_outcome ?args = timed_out \<longleftrightarrow> (\<exists>e. en_slot en = Some e \<and> exn_is e QueueTimeoutErrorC)"
      unfolding completion_args_outcome by (elim conjE)
    from split show "a_outcome ?args \<in> {completed, rejected, timed_out, failed}"
      unfolding completion_args_outcome by (elim conjE)
    show "a_outcome ?args = completed" if "a_total_tokens ?args \<noteq> None"
      using completion_tokens [OF that] unfolding completion_args_outcome .
  qed (use run(1,2) failure in blast)+
qed



text \<open>C15: What a client of a stream reads: as many events as the backend had chunks, each the JSON of
  one chunk under the canonical model name, in order, and the sentinel exactly when the backend's
  stream ended without an error.\<close>

theorem stream_client_view:
  assumes "en_slot en = None" "stream_generator a en k c pp (cks, failure) None = (leaves, tr, db)"
  shows "map ev_data (parse_sse (sent_bytes tr)) =
    map (\<lambda>ck. of_text (dumps (JObj (chunk_payload (pp_canonical pp) ck)))) cks @
      (if failure = None then [of_text ''[DONE]''] else [])"
proof -
  have "sent_bytes tr = map (chunk_frame (pp_canonical pp)) cks @ (if failure = None then [format_sse_done] else [])"
    using stream_sent_bytes [of a en k c pp "(cks, failure)" None] assms
    by (simp add: stream_run_def stream_body_def)
  then show ?thesis by (simp only: read_sent_frames)
qed

text \<open>A full queue and a wait in it that is too long are reported to a client of a stream as
  nothing at all: where the other path raises the error and records it as rejected or timed out, a
  stream sends no byte, raises nothing and is recorded as cancelled without a code.\<close>

lemma queue_errors_vanish:
  assumes "app_has_admission a" "app_usage a = Some sv" "en_slot en = Some e"
    "e = Syn queue_full_error \<or> e = Syn (queue_timeout_error adm)"
  shows "(\<exists>args. stream_generator a en k c pp cks interrupt =
      (None, [Recorded args], store_usage a (en_record_id en) k c args) \<and>
      a_outcome args = cancelled \<and> a_error_code args = None) \<and>
    (\<exists>args. non_streaming_completion a en mk k c pp answer =
      (Inl e, [Recorded args], store_usage a (en_record_id en) k c args) \<and>
      a_outcome args \<in> {rejected, timed_out} \<and> a_error_code args \<in> {Some ''queue_full'', Some ''queue_timeout''})"
proof -
  have e: "exn_is e QueueFullErrorC \<and> exn_code e = ''queue_full'' \<or>
      \<not> exn_is e QueueFullErrorC \<and> exn_is e QueueTimeoutErrorC \<and> exn_code e = ''queue_timeout''"
    "backend_failure_code e = None" "is_Exception e"
    using assms(4)
    by (auto simp: queue_full_error_def queue_timeout_error_def backend_failure_code_def is_instance_leaf
        is_instance_BackendUnavailable)
  have "stream_outcome (Some e) = (cancelled, None, None)" using e by (simp add: stream_outcome_cases)
  moreover have "completion_outcome (Some e) answer \<in>
      {(rejected, Some ''queue_full'', Inl e), (timed_out, Some ''queue_timeout'', Inl e)}"
    using e(1) by (auto simp: completion_outcome_def)
  ultimately show ?thesis
    by (auto simp: stream_generator_eq stream_run_def non_streaming_wired [OF assms(1)] finish_usage_def
        assms(2,3) Let_def)
qed


section \<open>Instances\<close>

definition sample_app :: "unit app" where
  "sample_app = \<lparr> app_backend = Some (), app_router = None, app_has_admission = True,
     app_usage = Some sample_service, app_db = Some empty_store \<rparr>"

definition sample_env :: "exn option \<Rightarrow> request_env" where
  "sample_env slot = \<lparr> en_slot = slot, en_request_id = ''r'', en_record_id = ''u1'', en_started_at = 10,
     en_completed_at = 20, en_admission_started = 1, en_admission_completed = 2, en_backend_started = 2,
     en_backend_completed = 3, en_first_chunk = 3, en_stream_completed = 4, en_now = 5, en_unix_time = 6 \<rparr>"

definition sample_request :: "bool \<Rightarrow> api_request" where
  "sample_request streamed = \<lparr> ar_model = ''m'', ar_messages = [\<lparr> am_role = ''user'', am_content = ''hi'' \<rparr>],
     ar_temperature = None, ar_top_p = None, ar_max_tokens = None, ar_stop = None, ar_stream = streamed \<rparr>"

definition sample_prepared :: "unit prepared" where
  "sample_prepared = \<lparr> pp_backend = (), pp_request = internal_request ''m'' (sample_request True),
     pp_canonical = ''m'', pp_backend_id = None \<rparr>"

definition sample_chunk :: chat_chunk where
  "sample_chunk = \<lparr> ck_id = ''1'', ck_object = [], ck_created = 0, ck_model = ''x'', ck_choices = [],
     ck_system_fingerprint = JNull \<rparr>"

abbreviation sample_models_of :: "unit \<Rightarrow> exn + model_info list" where
  "sample_models_of \<equiv> \<lambda>_. Inr [\<lparr> i_id = ''m'', i_object = JNull, i_owned_by = JNull, i_created = JNull \<rparr>]"

abbreviation sample_prepare :: "api_request \<Rightarrow> (exn + unit prepared) \<times> rate_limiter" where
  "sample_prepare r \<equiv> prepare_completion (\<lambda>_. [CapChatCompletions, CapStreaming]) sample_models_of
     (sample_app\<lparr> app_usage := None \<rparr>) r (sample_principal (Some [''m'']), sample_key, sample_client)
     0 50 50 (new_limiter 60)"

lemma sample_prepared_eq: "sample_prepare (sample_request True) = (Inr sample_prepared, new_limiter 60)"
  by (simp add: prepare_completion_def usage_precheck_def choose_backend_def get_router_def configured_def
      get_app_backend_def check_capability_def get_available_models_def validate_and_normalize_request_def
      enforce_model_access_def can_use_model_def sample_app_def sample_principal_def sample_request_def
      sample_prepared_def)

theorem completion_gate_witness:
  "\<exists>pp rl. sample_prepare (sample_request True) = (Inr pp, rl) \<and> cr_stream (pp_request pp) \<and>
     can_use_model (sample_principal (Some [''m''])) (pp_canonical pp)"
  using completion_gate [OF sample_prepared_eq] sample_prepared_eq by (auto simp: sample_request_def)

abbreviation sample_run :: "unit itself \<Rightarrow> chat_result" where
  "sample_run _ \<equiv> fst (create_chat_completion (\<lambda>_. [CapChatCompletions, CapStreaming]) sample_models_of
     (sample_app\<lparr> app_usage := None \<rparr>) (sample_request True)
     (sample_principal (Some [''m'']), sample_key, sample_client) 0 50 50 (sample_env None) Inr
     (\<lambda>_ _. Inl CancelledError) (\<lambda>_ _. ([sample_chunk], None)) (Some (1, GeneratorExit)) (new_limiter 60))"

lemma sample_run_trace:
  "result_trace (sample_run TYPE(unit)) =
     [SlotTaken, BackendCalled, Sent (chunk_frame ''m'' sample_chunk), SlotReleased]"
  unfolding create_chat_completion_def sample_prepared_eq
  by (simp add: sample_prepared_def internal_request_def sample_request_def get_admission_def sample_app_def
      stream_generator_def sample_env_def stream_body_def finish_usage_def stream_outcome_def stream_except_def
      backend_failure_code_def)

theorem completion_returns_slot_witness:
  "\<exists>s1 s2. adm_run (new_admission 1 1 30) [Arrive 0 0] = Some s1 \<and> holders s1 = [0] \<and>
     adm_run s1 [Leave 0] = Some s2 \<and> adm_inv s2 \<and> 0 \<notin> set (holders s2)"
proof -
  obtain s1 s2 where run: "adm_exec (new_admission 1 1 30) (Arrive 0 0) = Some (Some Entered, s1)"
      "holders s1 = [0]" "leave 0 s1 = Some s2"
    by (auto simp: new_admission_def known_def acquire_def take_slot_def sem_acquire_def sem_locked_def leave_eq)
  have "adm_enter 0 (new_admission 1 1 30) s1"
    using adm_exec_step [OF run(1)] unfolding adm_enter_def by (intro exI [of _ "Arrive 0 0"]) simp
  then have "slots.served 0 [True, False] (new_admission 1 1 30) s2"
    using run(3) by (blast intro: slots.served.intros)
  then have "served_by_controller 0 (result_trace (sample_run TYPE(unit))) (new_admission 1 1 30) s2"
    unfolding served_by_controller_def sample_run_trace by simp
  from completion_returns_slot [OF refl adm_inv_new _ this]
  have "adm_inv s2 \<and> 0 \<notin> set (holders s2)" by (simp add: new_admission_def)
  with run show ?thesis by auto
qed

theorem completion_accounted_witness:
  "\<exists>res tr db args. non_streaming_completion sample_app (sample_env None) Inr sample_key sample_client
       sample_prepared (Inl (Syn (raise_status BackendTimeoutErrorC ''slow'' ''x'' 504))) = (res, tr, db) \<and>
     recorded tr = [args] \<and> a_outcome args = failed \<and> a_error_code args = Some ''backend_timeout''"
proof -
  let ?e = "Syn (raise_status BackendTimeoutErrorC ''slow'' ''x'' 504)"
  obtain res tr db where run: "non_streaming_completion sample_app (sample_env None) Inr sample_key sample_client
       sample_prepared (Inl ?e) = (res, tr, db)"
    by (metis prod_cases3)
  have app: "app_has_admission sample_app" "app_usage sample_app = Some sample_service"
    by (simp_all add: sample_app_def)
  have res: "res = Inl (completion_error ?e)"
    using run unfolding non_streaming_wired [OF app(1)] by (simp add: sample_env_def completion_outcome_def)
  have en: "en_slot (sample_env None) = None" "exn_is ?e BackendUnavailableErrorC"
    by (simp_all add: sample_env_def is_instance_BackendUnavailable)
  from completion_accounted [OF app run] obtain args x where args: "recorded tr = [args]"
    "a_outcome args \<in> {completed, rejected, timed_out, failed}"
    "a_outcome args \<noteq> completed" "a_outcome args \<noteq> rejected" "a_outcome args \<noteq> timed_out"
    and x: "res = Inl (Syn x)" "a_error_code args = Some (e_code x)"
    using en by auto
  from x res have "a_error_code args = Some ''backend_timeout''" by (auto simp: completion_error_def)
  with args run show ?thesis by auto
qed


theorem stream_client_view_witness:
  "\<exists>leaves tr db. stream_generator sample_app (sample_env None) sample_key sample_client sample_prepared
       ([sample_chunk], None) None = (leaves, tr, db) \<and>
     map ev_data (parse_sse (sent_bytes tr)) =
       [of_text (dumps (JObj (chunk_payload ''m'' sample_chunk))), of_text ''[DONE]'']"
proof -
  obtain leaves tr db where run: "stream_generator sample_app (sample_env None) sample_key sample_client
       sample_prepared ([sample_chunk], None) None = (leaves, tr, db)"
    by (metis prod_cases3)
  have "en_slot (sample_env None) = None" by (simp add: sample_env_def)
  from stream_client_view [OF this run] run show ?thesis by (simp add: sample_prepared_def)
qed

lemma queue_errors_vanish_witness:
  "\<exists>args db. stream_generator sample_app (sample_env (Some (Syn queue_full_error))) sample_key sample_client
       sample_prepared ([sample_chunk], None) None = (None, [Recorded args], db) \<and> a_outcome args = cancelled"
proof -
  let ?en = "sample_env (Some (Syn queue_full_error))"
  have "app_has_admission sample_app" "app_usage sample_app = Some sample_service"
      "en_slot ?en = Some (Syn queue_full_error)"
    by (simp_all add: sample_app_def sample_env_def)
  from queue_errors_vanish [OF this, of undefined sample_key sample_client sample_prepared "([sample_chunk], None)" None]
  show ?thesis by blast
qed

end
