(* ===== verification/Edge.thy ===== *)
theory Edge
  imports Errors
begin

text \<open>
  What every request passes on its way in and out: the request id (\<open>app/core/request_id.py\<close>), the
  limit on body sizes (\<open>app/core/request_size.py\<close>), the secret of the management plane
  (\<open>app/core/admin_auth.py\<close>), the translation of errors into responses and the CORS settings
  (\<open>app/main.py\<close>, \<open>app/config.py\<close>), and the handlers of the root logger (\<open>app/logging.py\<close>).
  A middleware is a function of the next application.
\<close>

record response =
  rsp_status :: int
  rsp_headers :: "(string \<times> string) list" \<comment> \<open>by lower case names\<close>
  rsp_payload :: json

section \<open>Request ids\<close>

definition sanitize :: "string option \<Rightarrow> string option" where
  "sanitize value =
     (case value of
        None \<Rightarrow> None
      | Some v \<Rightarrow>
          if v = [] then None
          else
            let v = py_strip v
            in if v = [] \<or> length v > 64 \<or> list_ex py_space v then None else Some v)"

definition request_id_dispatch ::
  "string option \<Rightarrow> string \<Rightarrow> (string \<Rightarrow> 'st \<Rightarrow> (exn + response) \<times> 'st) \<Rightarrow> string option \<Rightarrow> 'st
     \<Rightarrow> (exn + response) \<times> string option \<times> 'st" where
  \<comment> \<open>the header, a new UUID, the next application as a function of the bound id and of what it may
    change, and the context variable, before and after\<close>
  "request_id_dispatch incoming fresh call_next bound st =
     (let request_id = (case sanitize incoming of Some v \<Rightarrow> v | None \<Rightarrow> fresh);
          (result, st') = call_next request_id st
      in (case result of
            Inl e \<Rightarrow> (Inl e, if is_Exception e then bound else Some request_id, st')
          | Inr r \<Rightarrow>
              (Inr (r\<lparr> rsp_headers := dict_set ''x-request-id'' request_id (rsp_headers r) \<rparr>), bound, st')))"

section \<open>Errors as responses\<close>

definition error_envelope :: "syn_error \<Rightarrow> string \<Rightarrow> json \<Rightarrow> string option \<Rightarrow> json" where
  "error_envelope e type param request_id =
     JObj [(''error'', JObj [(''message'', JStr (e_detail e)), (''type'', JStr type),
                             (''param'', param), (''code'', JStr (e_code e))]),
           (''request_id'', opt_json JStr request_id)]"

definition set_default :: "'k \<Rightarrow> 'v \<Rightarrow> ('k \<times> 'v) list \<Rightarrow> ('k \<times> 'v) list" where
  "set_default k v d = (if k \<in> set (keys_of d) then d else d @ [(k, v)])"

definition json_response :: "int \<Rightarrow> json \<Rightarrow> response" where
  "json_response status payload = \<lparr> rsp_status = status, rsp_headers = [], rsp_payload = payload \<rparr>"

definition syn_error_handler :: "string \<Rightarrow> string option \<Rightarrow> syn_error \<Rightarrow> response" where
  "syn_error_handler path request_id e =
     (if starts_with ''/v1/'' path
      then
        let error_type = (if e_status e \<in> {400, 404, 422} then ''invalid_request_error'' else ''server_error'')
        in json_response (e_status e) (error_envelope e error_type (opt_json JStr (e_param e)) request_id)
      else json_response (e_status e)
             (JObj (set_default ''request_id'' (opt_json JStr request_id) (to_dict e))))"

definition not_found_handler :: "string \<Rightarrow> string option \<Rightarrow> syn_error \<Rightarrow> response" where
  "not_found_handler path request_id e =
     (if starts_with ''/v1/'' path
      then json_response 404 (error_envelope e ''invalid_request_error'' JNull request_id)
      else json_response 404 (JObj (to_dict e)))"

definition handle_error :: "string \<Rightarrow> string option \<Rightarrow> syn_error \<Rightarrow> response" where
  \<comment> \<open>the handler registered for the first class along the method resolution order\<close>
  "handle_error path request_id e =
     (case List.find (\<lambda>c. c = SynErrorC \<or> c = NotFoundErrorC) (mro (e_class e)) of
        Some NotFoundErrorC \<Rightarrow> not_found_handler path request_id e
      | _ \<Rightarrow> syn_error_handler path request_id e)"

record validation_detail =
  vd_loc :: "string list" \<comment> \<open>each part as \<open>str\<close> shows it\<close>
  vd_msg :: "string option"
  vd_json :: json

definition validation_error_handler ::
  "string \<Rightarrow> string option \<Rightarrow> validation_detail list \<Rightarrow> response" where
  "validation_error_handler path request_id errors =
     (if starts_with ''/v1/'' path
      then
        let loc = (case errors of [] \<Rightarrow> [] | e # _ \<Rightarrow> join ''.'' (vd_loc e));
            msg = (case errors of [] \<Rightarrow> ''validation error''
                   | e # _ \<Rightarrow> (case vd_msg e of None \<Rightarrow> ''validation error'' | Some m \<Rightarrow> m));
            detail = (if loc \<noteq> [] then loc @ '': '' @ msg else msg)
        in json_response 422
             (JObj [(''error'', JObj [(''message'', JStr detail), (''type'', JStr ''invalid_request_error''),
                                      (''param'', if loc = [] then JNull else JStr loc),
                                      (''code'', JStr ''validation_error'')]),
                    (''request_id'', opt_json JStr request_id)])
      else json_response 422
             (JObj [(''detail'', JList (map vd_json errors)), (''request_id'', opt_json JStr request_id)]))"

section \<open>The limit on bodies\<close>

definition too_large :: "int \<Rightarrow> int \<Rightarrow> syn_error" where
  "too_large n limit =
     raise_code RequestBodyTooLargeErrorC
       (''request body too large: '' @ show_int n @ '' bytes exceeds limit '' @ show_int limit)
       ''request_body_too_large''"

definition request_size_dispatch ::
  "int \<Rightarrow> string option \<Rightarrow> string \<Rightarrow> string option \<Rightarrow> ('st \<Rightarrow> (exn + response) \<times> 'st) \<Rightarrow> 'st
     \<Rightarrow> (exn + response) \<times> 'st" where
  "request_size_dispatch limit content_length path request_id call_next st =
     (case content_length of
        None \<Rightarrow> call_next st
      | Some cl \<Rightarrow>
          let n = (case py_int cl of None \<Rightarrow> 0 | Some n \<Rightarrow> n)
          in if n > limit
             then
               let e = too_large n limit
               in (Inr (json_response 413
                     (if starts_with ''/v1/'' path
                      then error_envelope e ''invalid_request_error'' JNull request_id
                      else JObj (set_default ''request_id'' (opt_json JStr request_id) (to_dict e)))), st)
             else call_next st)"

section \<open>The management plane\<close>

definition compare_digest :: "string \<Rightarrow> string \<Rightarrow> exn + bool" where
  \<comment> \<open>\<open>hmac.compare_digest\<close> on strings: both must be ASCII\<close>
  "compare_digest a b =
     (if \<exists>c\<in>set (a @ b). (of_char c :: nat) \<ge> 128 then Inl (PyError ''TypeError'') else Inr (a = b))"

definition admin_error :: "string \<Rightarrow> exn" where
  "admin_error msg = Syn (raise_detail AdminAuthErrorC msg)"

definition provided_secret :: "string option \<Rightarrow> string option \<Rightarrow> string option" where
  "provided_secret x_admin_secret authorization =
     (if str_or x_admin_secret [] \<noteq> [] then x_admin_secret
      else (case authorization of
          None \<Rightarrow> None
        | Some a \<Rightarrow>
            (case split_ws1 a of
               [scheme, rest] \<Rightarrow> if py_lower scheme = ''bearer'' then Some (py_strip rest) else None
             | _ \<Rightarrow> None)))"

definition require_admin :: "string \<Rightarrow> string option \<Rightarrow> string option \<Rightarrow> exn + unit" where
  "require_admin expected x_admin_secret authorization =
     (if expected = [] then Inl (admin_error ''admin plane is not configured'')
      else (case provided_secret x_admin_secret authorization of
          None \<Rightarrow> Inl (admin_error ''admin authentication required'')
        | Some p \<Rightarrow>
            if p = [] then Inl (admin_error ''admin authentication required'')
            else (case compare_digest p expected of
                Inl e \<Rightarrow> Inl e
              | Inr same \<Rightarrow> if \<not> same then Inl (admin_error ''invalid admin credentials'') else Inr ())))"

section \<open>CORS\<close>

definition validate_cors :: "string \<Rightarrow> string + string" where
  \<comment> \<open>the field validator; a ValueError is its message, its quoted value left out\<close>
  "validate_cors value =
     (if py_strip value = ''*'' then Inl ''wildcard''
      else if py_strip value \<noteq> []
      then (case List.find
                   (\<lambda>p. p \<noteq> [] \<and> (p = ''*'' \<or> \<not> (starts_with ''http://'' p \<or> starts_with ''https://'' p)))
                   (map py_strip (split_on (CHR '','') value)) of
              Some p \<Rightarrow> Inl (if p = ''*'' then ''wildcard'' else ''scheme'')
            | None \<Rightarrow> Inr value)
      else Inr value)"

definition cors_origins_list :: "string \<Rightarrow> string list" where
  "cors_origins_list value =
     (if py_strip value = [] then []
      else filter (\<lambda>p. p \<noteq> []) (map py_strip (split_on (CHR '','') value)))"

section \<open>Logging\<close>

record log_handler =
  lh_configured :: bool
  lh_level :: string

definition setup_logging :: "string \<Rightarrow> log_handler list \<Rightarrow> log_handler list" where
  \<comment> \<open>the loop over the handlers has no effect\<close>
  "setup_logging level handlers = handlers @ [\<lparr> lh_configured = True, lh_level = level \<rparr>]"

definition log_request_id :: "string option \<Rightarrow> string" where
  "log_request_id request_id = str_or request_id ''-''"

section \<open>Lemmas\<close>

lemma mro_unfold: "mro c = c # (case class_parent c of None \<Rightarrow> [] | Some p \<Rightarrow> mro p)"
  by (rule mro.simps)

lemma sanitize_Some:
  assumes "sanitize value = Some v"
  shows "v \<noteq> []" "length v \<le> 64" "\<not> list_ex py_space v" "\<exists>u. value = Some u \<and> v = py_strip u"
  using assms by (auto simp: sanitize_def Let_def split: option.splits if_splits)

lemma handler_of:
  "handle_error path rid e =
     (if is_instance (e_class e) NotFoundErrorC then not_found_handler path rid e
      else syn_error_handler path rid e)"
  by (cases "e_class e") (simp_all add: handle_error_def is_instance_def mro_unfold)

section \<open>Properties\<close>

text \<open>The id that is bound while a request is handled is the one the response carries: the
  caller's own where it is printable on one line and at most 64 characters long, a new UUID
  otherwise; either way it is not empty and has no white space, so it cannot inject a header, and
  the context variable is back to its old value.\<close>

lemma request_id_bound:
  assumes "fresh \<noteq> []" "length fresh \<le> 64" "\<not> list_ex py_space fresh"
    "request_id_dispatch incoming fresh call_next bound st = (Inr r, bound', st')"
  shows "\<exists>rid r0. call_next rid st = (Inr r0, st') \<and> map_of (rsp_headers r) ''x-request-id'' = Some rid \<and>
    rsp_status r = rsp_status r0 \<and> rsp_payload r = rsp_payload r0 \<and>
    rid \<noteq> [] \<and> length rid \<le> 64 \<and> \<not> list_ex py_space rid \<and> bound' = bound \<and>
    (rid = fresh \<or> (\<exists>u. incoming = Some u \<and> rid = py_strip u))"
proof -
  let ?rid = "case sanitize incoming of Some v \<Rightarrow> v | None \<Rightarrow> fresh"
  obtain r0 where r0: "call_next ?rid st = (Inr r0, st')" and bound: "bound' = bound"
    and r: "r = r0\<lparr> rsp_headers := dict_set ''x-request-id'' ?rid (rsp_headers r0) \<rparr>"
    using assms(4) by (auto simp: request_id_dispatch_def Let_def split: sum.splits prod.splits)
  have "?rid \<noteq> [] \<and> length ?rid \<le> 64 \<and> \<not> list_ex py_space ?rid \<and>
      (?rid = fresh \<or> (\<exists>u. incoming = Some u \<and> ?rid = py_strip u))"
    using assms(1-3) sanitize_Some [of incoming] by (cases "sanitize incoming") auto
  with r0 bound r show ?thesis by (intro exI [of _ ?rid] exI [of _ r0]) simp
qed

lemma request_id_bound_witness:
  "\<exists>r. request_id_dispatch (Some '' abc '') ''0000'' (\<lambda>rid st. (Inr (json_response 200 (JStr rid)), st)) None () =
       (Inr r, None, ()) \<and>
     map_of (rsp_headers r) ''x-request-id'' = Some ''abc'' \<and> rsp_payload r = JStr ''abc''"
proof -
  let ?call = "\<lambda>rid st. (Inr (json_response 200 (JStr rid)) :: exn + response, st)"
  have s: "sanitize (Some '' abc '') = Some ''abc''" by (simp add: sanitize_def py_defs Let_def)
  obtain r where r: "request_id_dispatch (Some '' abc '') ''0000'' ?call None () = (Inr r, None, ())"
    by (simp add: request_id_dispatch_def s Let_def)
  have "''0000'' \<noteq> []" "length ''0000'' \<le> 64" "\<not> list_ex py_space ''0000''"
    by (simp_all add: py_space_def)
  from request_id_bound [OF this r] obtain rid where "map_of (rsp_headers r) ''x-request-id'' = Some rid"
      "rsp_payload r = JStr rid"
    by (auto simp: json_response_def)
  moreover have "map_of (rsp_headers r) ''x-request-id'' = Some ''abc''"
    using r by (auto simp: request_id_dispatch_def s Let_def)
  ultimately show ?thesis using r by auto
qed

text \<open>Errors as responses: on the data plane every error of the taxonomy becomes an envelope with
  exactly its message and code, under its own status (404 for a not found error); the type is
  \<open>invalid_request_error\<close> for the statuses 400, 404 and 422 only, so a refused key, model, queue or
  quota (401, 403, 429) reaches the client as a \<open>server_error\<close>.\<close>

lemma error_response_data_plane:
  assumes "starts_with ''/v1/'' path"
  shows "let nf = is_instance (e_class e) NotFoundErrorC; status = (if nf then 404 else e_status e) in
    handle_error path rid e =
      json_response status (error_envelope e
        (if status \<in> {400, 404, 422} then ''invalid_request_error'' else ''server_error'')
        (if nf then JNull else opt_json JStr (e_param e)) rid)"
  using assms by (simp add: handler_of not_found_handler_def syn_error_handler_def Let_def)

lemma error_response_data_plane_witness:
  "handle_error ''/v1/models'' None (raise_detail RevokedApiKeyErrorC ''x'') =
     json_response 401 (error_envelope (raise_detail RevokedApiKeyErrorC ''x'') ''server_error'' JNull None)"
proof -
  have "starts_with ''/v1/'' ''/v1/models''" by (simp add: starts_with_def)
  from error_response_data_plane [OF this, of "raise_detail RevokedApiKeyErrorC ''x''" None]
  show ?thesis by (simp add: is_instance_leaf new_error_def)
qed

text \<open>The limit on bodies: a request is stopped exactly when its declared length is a number
  above the limit, with a 413 under the code \<open>request_body_too_large\<close>; in every other case, a
  missing or malformed length included, the answer is the next application's.\<close>

lemma body_limit:
  assumes "0 < limit"
  shows "request_size_dispatch limit cl path rid call_next st =
    (case Option.bind cl py_int of
       None \<Rightarrow> call_next st
     | Some n \<Rightarrow>
         if n \<le> limit then call_next st
         else (Inr (json_response 413
           (if starts_with ''/v1/'' path then error_envelope (too_large n limit) ''invalid_request_error'' JNull rid
            else JObj [(''code'', JStr ''request_body_too_large''), (''detail'', JStr (e_detail (too_large n limit))),
                       (''request_id'', opt_json JStr rid)])), st))"
  using assms
  by (cases cl)
    (auto simp: request_size_dispatch_def too_large_def to_dict_def set_default_def Let_def new_error_def
      split: option.split)

lemma body_limit_witness:
  "(0::int) < 10 \<and> request_size_dispatch 10 (Some ''12x'') ''/'' None (Pair (Inl CancelledError)) () = (Inl CancelledError, ())"
proof -
  have "py_int ''12x'' = None" by (simp add: py_int_def py_defs is_digit_def)
  with body_limit [of 10 "Some ''12x''" "''/''" None "Pair (Inl CancelledError)" "()"] show ?thesis by simp
qed

text \<open>The management plane is closed unless a secret is configured, and open exactly to a caller
  who sends that secret, in the header \<open>X-Admin-Secret\<close> or else as a bearer token; everyone else is
  refused with a 401, except where a secret that is not ASCII makes the comparison itself raise a
  TypeError, which nothing translates.\<close>

lemma admin_gate:
  "case require_admin expected x auth of
     Inr _ \<Rightarrow> expected \<noteq> [] \<and> provided_secret x auth = Some expected
   | Inl (Syn e) \<Rightarrow> \<not> (expected \<noteq> [] \<and> provided_secret x auth = Some expected) \<and> e_status e = 401
   | Inl e \<Rightarrow> e = PyError ''TypeError'' \<and> expected \<noteq> [] \<and>
       (\<exists>p c. provided_secret x auth = Some p \<and> c \<in> set (p @ expected) \<and> 128 \<le> (of_char c :: nat))"
  by (cases "provided_secret x auth")
    (auto simp: require_admin_def admin_error_def compare_digest_def new_error_def)

text \<open>Accepted CORS settings allow no wildcard: every origin the middleware is given starts with
  \<open>http://\<close> or \<open>https://\<close>.\<close>

lemma cors_origins_explicit:
  assumes "validate_cors value = Inr v" "origin \<in> set (cors_origins_list v)"
  shows "origin \<noteq> ''*'' \<and> (starts_with ''http://'' origin \<or> starts_with ''https://'' origin)"
proof (cases "py_strip value = []")
  case True
  with assms show ?thesis by (auto simp: validate_cors_def cors_origins_list_def)
next
  case False
  then have "List.find (\<lambda>p. p \<noteq> [] \<and> (p = ''*'' \<or> \<not> (starts_with ''http://'' p \<or> starts_with ''https://'' p)))
      (map py_strip (split_on (CHR '','') value)) = None" and "v = value"
    using assms(1) by (auto simp: validate_cors_def split: if_splits option.splits)
  with assms(2) False show ?thesis
    by (auto simp: find_None_iff cors_origins_list_def)
qed

lemma cors_origins_explicit_witness:
  "validate_cors ''https://a.b, http://c'' = Inr ''https://a.b, http://c'' \<and>
   ''http://c'' \<in> set (cors_origins_list ''https://a.b, http://c'') \<and> ''http://c'' \<noteq> ''*''"
proof -
  have "validate_cors ''https://a.b, http://c'' = Inr ''https://a.b, http://c''"
    "''http://c'' \<in> set (cors_origins_list ''https://a.b, http://c'')"
    by (simp_all add: validate_cors_def cors_origins_list_def py_defs)
  with cors_origins_explicit [OF this] show ?thesis by blast
qed

text \<open>Configuring the logger again is not idempotent: after \<open>n\<close> calls the root logger has \<open>n\<close>
  handlers more, each of which writes every record.\<close>

lemma logging_handlers_stack:
  "length ((setup_logging level ^^ n) handlers) = length handlers + n \<and>
   length (filter lh_configured ((setup_logging level ^^ n) handlers)) = length (filter lh_configured handlers) + n"
  by (induction n) (simp_all add: setup_logging_def)

end
