(* ===== verification/Observability.thy ===== *)
theory Observability
  imports Usage "HOL-Library.Multiset"
begin

text \<open>
  The read-only aggregation of \<open>app/services/observability.py\<close>: outcome counts, token sums,
  latency statistics with interpolated percentiles, the recent requests and the breakdowns of a
  period.  The three breakdowns of the source differ in the field they group by, which is an
  argument of \<open>breakdown\<close> here.
\<close>

record latency_stats =
  ls_count :: int
  ls_avg_ms :: "int option"
  ls_p50_ms :: "int option"
  ls_p95_ms :: "int option"
  ls_max_ms :: "int option"

record outcome_summary =
  os_completed :: int
  os_failed :: int
  os_cancelled :: int
  os_timed_out :: int
  os_rejected :: int

record token_summary =
  ts_prompt :: int
  ts_completion :: int
  ts_total :: int
  ts_unknown :: int

record obs_summary =
  ob_requests :: outcome_summary
  ob_tokens :: token_summary
  ob_latency :: latency_stats
  ob_active :: int
  ob_queued :: int

record recent_request =
  rr_request_id :: string
  rr_client_id :: "string option"
  rr_model :: string
  rr_streaming :: bool
  rr_status :: string
  rr_error_code :: "string option"
  rr_started_at :: datetime
  rr_completed_at :: "datetime option"
  rr_total_duration_ms :: "int option"
  rr_ttft_ms :: "int option"
  rr_total_tokens :: "int option"
  rr_queue_wait_ms :: "int option"

record 'k breakdown_row =
  br_key :: 'k
  br_requests :: int
  br_completed :: int
  br_failed :: int
  br_cancelled :: int
  br_total_tokens :: int

section \<open>Percentiles\<close>

definition percentile :: "int list \<Rightarrow> rat \<Rightarrow> int" where
  \<comment> \<open>\<open>_percentile\<close>, exact where the source computes in floats\<close>
  "percentile xs p =
     (let n = length xs
      in if n = 0 then 0
         else if n = 1 then xs ! 0
         else
           let k = of_nat (n - 1) * p; f = \<lfloor>k\<rfloor>; c = \<lceil>k\<rceil>
           in if f = c then xs ! nat \<lfloor>k\<rfloor>
              else
                let d0 = of_int (xs ! nat f) * (of_int c - k);
                    d1 = of_int (xs ! nat c) * (k - of_int f)
                in py_round (d0 + d1))"

definition known_values :: "int option list \<Rightarrow> int list" where
  "known_values values = map the (filter (\<lambda>v. v \<noteq> None) values)"

definition latency_of :: "int option list \<Rightarrow> latency_stats" where
  "latency_of values =
     (let clean = sort (known_values values)
      in if clean = []
         then \<lparr> ls_count = 0, ls_avg_ms = None, ls_p50_ms = None, ls_p95_ms = None, ls_max_ms = None \<rparr>
         else \<lparr> ls_count = int (length clean),
                ls_avg_ms = Some (py_round (of_int (sum_list clean) / of_nat (length clean))),
                ls_p50_ms = Some (percentile clean (1 / 2)),
                ls_p95_ms = Some (percentile clean (19 / 20)),
                ls_max_ms = Some (last clean) \<rparr>)"

definition compute_latency :: "usage_record list \<Rightarrow> latency_stats" where
  "compute_latency rows = latency_of (map Some (known_values (map r_total_duration_ms rows)))"

section \<open>The service\<close>

definition today_range :: "datetime \<Rightarrow> datetime \<times> datetime" where
  "today_range now = (day_start now, day_start now + day_us)"

definition period :: "datetime option \<Rightarrow> datetime option \<Rightarrow> datetime \<Rightarrow> datetime \<times> datetime" where
  "period since until now =
     (case (since, until) of (Some a, Some b) \<Rightarrow> (a, b) | _ \<Rightarrow> today_range now)"

definition rows_in :: "datetime \<times> datetime \<Rightarrow> store \<Rightarrow> usage_record list" where
  "rows_in = (\<lambda>(a, b) s. filter (\<lambda>r. a \<le> r_started_at r \<and> r_started_at r < b) (usage_records s))"

definition outcomes_of :: "usage_record list \<Rightarrow> outcome_summary" where
  "outcomes_of rows =
     \<lparr> os_completed = count_if (\<lambda>r. r_status r = completed) rows,
       os_failed = count_if (\<lambda>r. r_status r = failed) rows,
       os_cancelled = count_if (\<lambda>r. r_status r = cancelled) rows,
       os_timed_out = count_if (\<lambda>r. r_status r = timed_out) rows,
       os_rejected = count_if (\<lambda>r. r_status r = rejected) rows \<rparr>"

definition tokens_of :: "usage_record list \<Rightarrow> token_summary" where
  "tokens_of rows =
     \<lparr> ts_prompt = sum_some r_prompt_tokens rows, ts_completion = sum_some r_completion_tokens rows,
       ts_total = sum_some r_total_tokens rows, ts_unknown = count_if unknown_usage rows \<rparr>"

definition obs_summary_of ::
  "datetime option \<Rightarrow> datetime option \<Rightarrow> datetime \<Rightarrow> int \<Rightarrow> int \<Rightarrow> store \<Rightarrow> obs_summary" where
  "obs_summary_of since until now active queued s =
     (let rows = rows_in (period since until now) s
      in \<lparr> ob_requests = outcomes_of rows, ob_tokens = tokens_of rows,
           ob_latency = compute_latency rows, ob_active = active, ob_queued = queued \<rparr>)"

definition latency_map ::
  "datetime option \<Rightarrow> datetime option \<Rightarrow> datetime \<Rightarrow> store \<Rightarrow> (string \<times> latency_stats) list" where
  "latency_map since until now s =
     (let rows = rows_in (period since until now) s
      in [(''total_duration_ms'', latency_of (map r_total_duration_ms rows)),
          (''queue_wait_ms'', latency_of (map r_queue_wait_ms rows)),
          (''backend_latency_ms'', latency_of (map r_backend_latency_ms rows)),
          (''ttft_ms'', latency_of (map r_ttft_ms rows)),
          (''stream_duration_ms'', latency_of (map r_stream_duration_ms rows))])"

definition recent_of :: "usage_record \<Rightarrow> recent_request" where
  "recent_of r =
     \<lparr> rr_request_id = r_request_id r, rr_client_id = r_client_id r, rr_model = r_model r,
       rr_streaming = (r_streaming r \<noteq> 0), rr_status = r_status r, rr_error_code = r_error_code r,
       rr_started_at = r_started_at r, rr_completed_at = r_completed_at r,
       rr_total_duration_ms = r_total_duration_ms r, rr_ttft_ms = r_ttft_ms r,
       rr_total_tokens = r_total_tokens r, rr_queue_wait_ms = r_queue_wait_ms r \<rparr>"

definition sql_limit :: "int \<Rightarrow> 'a list \<Rightarrow> 'a list" where
  \<comment> \<open>SQLite's \<open>LIMIT n\<close>: a negative number is no limit\<close>
  "sql_limit n xs = (if n < 0 then xs else take (nat n) xs)"

definition recent_requests ::
  "int \<Rightarrow> datetime option \<Rightarrow> datetime option \<Rightarrow> datetime \<Rightarrow> store \<Rightarrow> recent_request list" where
  \<comment> \<open>rows of the same start are in an order the database chooses; here in that of insertion\<close>
  "recent_requests limit since until now s =
     map recent_of (sql_limit (min limit 200)
       (sort_key (\<lambda>r. - r_started_at r) (rows_in (period since until now) s)))"

fun group_rows :: "('a \<Rightarrow> 'k) \<Rightarrow> 'a list \<Rightarrow> ('k \<times> 'a list) list \<Rightarrow> ('k \<times> 'a list) list" where
  \<comment> \<open>\<open>by.setdefault(key(r), []).append(r)\<close>\<close>
  "group_rows key [] by_key = by_key"
| "group_rows key (r # rs) by_key =
     group_rows key rs
       (dict_set (key r) ((case map_of by_key (key r) of None \<Rightarrow> [] | Some l \<Rightarrow> l) @ [r]) by_key)"

definition breakdown_of :: "'k \<times> usage_record list \<Rightarrow> 'k breakdown_row" where
  "breakdown_of = (\<lambda>(k, records).
     \<lparr> br_key = k, br_requests = int (length records),
       br_completed = count_if (\<lambda>r. r_status r = completed) records,
       br_failed = count_if (\<lambda>r. r_status r = failed) records,
       br_cancelled = count_if (\<lambda>r. r_status r = cancelled) records,
       br_total_tokens = sum_some r_total_tokens records \<rparr>)"

definition breakdown ::
  "(usage_record \<Rightarrow> 'k) \<Rightarrow> datetime option \<Rightarrow> datetime option \<Rightarrow> datetime \<Rightarrow> store \<Rightarrow> 'k breakdown_row list" where
  "breakdown key since until now s =
     map breakdown_of
       (sort_key (\<lambda>(k, records). - int (length records))
          (group_rows key (rows_in (period since until now) s) []))"

definition client_breakdown ::
  "datetime option \<Rightarrow> datetime option \<Rightarrow> datetime \<Rightarrow> store \<Rightarrow> string option breakdown_row list" where
  "client_breakdown = breakdown r_client_id"

definition model_breakdown ::
  "datetime option \<Rightarrow> datetime option \<Rightarrow> datetime \<Rightarrow> store \<Rightarrow> string breakdown_row list" where
  "model_breakdown = breakdown r_model"

definition backend_breakdown ::
  "datetime option \<Rightarrow> datetime option \<Rightarrow> datetime \<Rightarrow> store \<Rightarrow> string option breakdown_row list" where
  "backend_breakdown = breakdown r_backend_id"

section \<open>Groups\<close>

lemma sum_dict_append:
  fixes g :: "'a list \<Rightarrow> int"
  assumes g: "\<And>l r. g (l @ [r]) = g l + h r" "g [] = 0" and "distinct (keys_of d)"
  shows "sum_list (map (g \<circ> snd) (dict_set k ((case map_of d k of None \<Rightarrow> [] | Some l \<Rightarrow> l) @ [r]) d)) =
    sum_list (map (g \<circ> snd) d) + h r"
  using assms(3)
proof (induction d)
  case Nil
  show ?case using g(1) [of "[]" r] g(2) by simp
next
  case (Cons x d)
  obtain k' l where x: "x = (k', l)" by (cases x)
  show ?case
  proof (cases "k' = k")
    case True
    then show ?thesis by (simp add: x g)
  next
    case False
    with Cons show ?thesis by (simp add: x)
  qed
qed

lemma distinct_group_rows: "distinct (keys_of d) \<Longrightarrow> distinct (keys_of (group_rows key rs d))"
  by (induction key rs d rule: group_rows.induct) (simp_all add: distinct_dict_set)

lemma sum_group_rows:
  fixes g :: "'a list \<Rightarrow> int"
  assumes "\<And>l r. g (l @ [r]) = g l + h r" "g [] = 0" and "distinct (keys_of d)"
  shows "sum_list (map (g \<circ> snd) (group_rows key rs d)) = sum_list (map (g \<circ> snd) d) + sum_list (map h rs)"
  using assms(3)
proof (induction rs arbitrary: d)
  case (Cons r rs)
  show ?case
    unfolding group_rows.simps Cons.IH [OF distinct_dict_set [OF Cons.prems]]
      sum_dict_append [of g h, OF assms(1,2) Cons.prems]
    by (simp add: o_def)
qed simp

lemma group_rows_elem:
  "map_of (group_rows key rs d) k =
     (if k \<in> set (keys_of d) \<or> k \<in> key ` set rs
      then Some ((case map_of d k of None \<Rightarrow> [] | Some l \<Rightarrow> l) @ filter (\<lambda>r. key r = k) rs) else None)"
proof (induction rs arbitrary: d)
  case Nil
  show ?case by (cases "map_of d k") (auto simp: map_of_eq_None_iff dest: map_of_SomeD intro: rev_image_eqI)
next
  case (Cons r rs)
  show ?case by (auto simp: Cons.IH keys_of_dict_set split: option.splits)
qed

lemma group_elem:
  assumes "(k, l) \<in> set (group_rows key rs [])"
  shows "l = filter (\<lambda>r. key r = k) rs \<and> k \<in> key ` set rs"
proof -
  have "map_of (group_rows key rs []) k = Some l"
    using assms distinct_group_rows [of "[]" key rs] by (simp add: map_of_is_SomeI)
  then show ?thesis by (auto simp: group_rows_elem split: if_splits)
qed

lemma group_keys: "set (keys_of (group_rows key rs [])) = key ` set rs"
proof -
  have "k \<in> set (keys_of (group_rows key rs [])) \<longleftrightarrow> map_of (group_rows key rs []) k \<noteq> None" for k
    by (simp add: map_of_eq_None_iff)
  then have "k \<in> set (keys_of (group_rows key rs [])) \<longleftrightarrow> k \<in> key ` set rs" for k
    by (simp add: group_rows_elem)
  then show ?thesis by (rule set_eqI)
qed

section \<open>Interpolation\<close>

definition interpolate :: "int list \<Rightarrow> rat \<Rightarrow> rat" where
  \<comment> \<open>the value at position \<open>k\<close> on the line through the sorted values\<close>
  "interpolate xs k =
     (if \<lfloor>k\<rfloor> = \<lceil>k\<rceil> then of_int (xs ! nat \<lfloor>k\<rfloor>)
      else of_int (xs ! nat \<lfloor>k\<rfloor>) * (of_int \<lceil>k\<rceil> - k) + of_int (xs ! nat \<lceil>k\<rceil>) * (k - of_int \<lfloor>k\<rfloor>))"

lemma percentile_interpolate:
  "xs \<noteq> [] \<Longrightarrow> percentile xs p = py_round (interpolate xs (of_nat (length xs - 1) * p))"
  by (cases xs) (auto simp: percentile_def interpolate_def Let_def)

lemma interpolate_between:
  assumes "sorted xs" "0 \<le> k" "k \<le> of_nat (length xs - 1)" "xs \<noteq> []"
  shows "of_int (xs ! nat \<lfloor>k\<rfloor>) \<le> interpolate xs k" "interpolate xs k \<le> of_int (xs ! nat \<lceil>k\<rceil>)"
proof -
  have len: "nat \<lceil>k\<rceil> < length xs"
  proof -
    have "\<lceil>k\<rceil> \<le> int (length xs - 1)" using assms(3) by (simp add: ceiling_le_iff)
    with assms(4) show ?thesis by (cases xs) auto
  qed
  have "nat \<lfloor>k\<rfloor> \<le> nat \<lceil>k\<rceil>" by linarith
  then have le: "xs ! nat \<lfloor>k\<rfloor> \<le> xs ! nat \<lceil>k\<rceil>" using assms(1) len by (simp add: sorted_nth_mono)
  show "of_int (xs ! nat \<lfloor>k\<rfloor>) \<le> interpolate xs k" "interpolate xs k \<le> of_int (xs ! nat \<lceil>k\<rceil>)"
  proof -
    let ?a = "of_int (xs ! nat \<lfloor>k\<rfloor>) :: rat" and ?b = "of_int (xs ! nat \<lceil>k\<rceil>) :: rat"
    let ?t = "k - of_int \<lfloor>k\<rfloor>"
    have ab: "?a \<le> ?b" using le by simp
    have "?a \<le> interpolate xs k \<and> interpolate xs k \<le> ?b"
    proof (cases "\<lfloor>k\<rfloor> = \<lceil>k\<rceil>")
      case True
      then show ?thesis by (simp add: interpolate_def)
    next
      case False
      then have c: "\<lceil>k\<rceil> = \<lfloor>k\<rfloor> + 1" unfolding ceiling_altdef by (simp split: if_splits)
      have eq: "interpolate xs k = ?a + (?b - ?a) * ?t"
        using False by (simp add: interpolate_def c algebra_simps)
      have t: "0 \<le> ?t" "?t \<le> 1" by linarith+
      define x where "x = (?b - ?a) * ?t"
      have "0 \<le> x" using ab t by (simp add: x_def)
      moreover have "x \<le> (?b - ?a) * 1" unfolding x_def using ab t by (intro mult_left_mono) auto
      ultimately show ?thesis unfolding eq x_def [symmetric] by simp
    qed
    then show "?a \<le> interpolate xs k" "interpolate xs k \<le> ?b" by auto
  qed
qed

lemma interpolate_mono:
  assumes "sorted xs" "xs \<noteq> []" "0 \<le> j" "j \<le> k" "k \<le> of_nat (length xs - 1)"
  shows "interpolate xs j \<le> interpolate xs k"
proof (cases "\<lceil>j\<rceil> \<le> \<lfloor>k\<rfloor>")
  case True
  have "nat \<lfloor>k\<rfloor> < length xs"
  proof -
    have "\<lfloor>k\<rfloor> \<le> int (length xs - 1)" using assms(5) by (simp add: floor_le_iff)
    with assms(2) show ?thesis by (cases xs) auto
  qed
  then have "xs ! nat \<lceil>j\<rceil> \<le> xs ! nat \<lfloor>k\<rfloor>" using True assms(1) by (intro sorted_nth_mono) auto
  then have "(of_int (xs ! nat \<lceil>j\<rceil>) :: rat) \<le> of_int (xs ! nat \<lfloor>k\<rfloor>)" by simp
  with interpolate_between(2) [of xs j] interpolate_between(1) [of xs k] assms show ?thesis by linarith
next
  case False
  have "\<lfloor>j\<rfloor> \<le> \<lfloor>k\<rfloor>" using assms(4) by (rule floor_mono)
  with False have f: "\<lfloor>j\<rfloor> = \<lfloor>k\<rfloor>" and j: "\<lfloor>j\<rfloor> \<noteq> \<lceil>j\<rceil>" by linarith+
  have cj: "\<lceil>j\<rceil> = \<lfloor>j\<rfloor> + 1" using j unfolding ceiling_altdef by (simp split: if_splits)
  have jk: "of_int \<lfloor>k\<rfloor> \<noteq> k"
  proof
    assume eq: "of_int \<lfloor>k\<rfloor> = k"
    have "k = of_int \<lfloor>j\<rfloor>" unfolding f by (rule eq [symmetric])
    moreover have "of_int \<lfloor>j\<rfloor> \<le> j" by simp
    ultimately have "j = of_int \<lfloor>j\<rfloor>" using assms(4) by linarith
    then have "\<lceil>j\<rceil> = \<lfloor>j\<rfloor>" by (metis ceiling_of_int)
    with j show False by simp
  qed
  then have ck: "\<lceil>k\<rceil> = \<lfloor>k\<rfloor> + 1" unfolding ceiling_altdef by (simp split: if_splits)
  let ?a = "of_int (xs ! nat \<lfloor>k\<rfloor>) :: rat" and ?b = "of_int (xs ! nat \<lceil>k\<rceil>) :: rat"
  have len: "nat \<lceil>k\<rceil> < length xs"
  proof -
    have "\<lceil>k\<rceil> \<le> int (length xs - 1)" using assms(5) by (simp add: ceiling_le_iff)
    with assms(2) show ?thesis by (cases xs) auto
  qed
  have "nat \<lfloor>k\<rfloor> \<le> nat \<lceil>k\<rceil>" by linarith
  then have "?a \<le> ?b" using assms(1) len by (simp add: sorted_nth_mono)
  then have "(?b - ?a) * (j - of_int \<lfloor>k\<rfloor>) \<le> (?b - ?a) * (k - of_int \<lfloor>k\<rfloor>)"
    using assms(4) by (intro mult_left_mono) auto
  moreover have "interpolate xs j = ?a + (?b - ?a) * (j - of_int \<lfloor>k\<rfloor>)"
    using j by (simp add: interpolate_def cj ck f algebra_simps)
  moreover have "interpolate xs k = ?a + (?b - ?a) * (k - of_int \<lfloor>k\<rfloor>)"
    using ck by (simp add: interpolate_def algebra_simps)
  ultimately show ?thesis by linarith
qed

lemma percentile_mono:
  assumes "sorted xs" "xs \<noteq> []" "0 \<le> p" "p \<le> q" "q \<le> 1"
  shows "percentile xs p \<le> percentile xs q"
proof -
  let ?n = "of_nat (length xs - 1) :: rat"
  have "0 \<le> ?n * p" using assms(3) by simp
  moreover have "?n * p \<le> ?n * q" using assms(4) by (intro mult_left_mono) auto
  moreover have "?n * q \<le> ?n * 1" using assms(5) by (intro mult_left_mono) auto
  ultimately show ?thesis
    unfolding percentile_interpolate [OF assms(2)] using assms(1,2)
    by (intro py_round_mono interpolate_mono) auto
qed

lemma percentile_ends:
  assumes "xs \<noteq> []"
  shows "percentile xs 0 = xs ! 0" "percentile xs 1 = last xs"
proof -
  have "nat (int (length xs - 1)) = length xs - 1" by simp
  then show "percentile xs 0 = xs ! 0" "percentile xs 1 = last xs"
    using assms by (simp_all add: percentile_interpolate interpolate_def last_conv_nth)
qed

lemma known_values_Some [simp]: "known_values (map Some xs) = xs"
  by (induction xs) (simp_all add: known_values_def)

lemma sorted_le_last: "sorted xs \<Longrightarrow> x \<in> set xs \<Longrightarrow> x \<le> last xs"
  by (induction xs) auto

lemma sorted_nth0_le: "sorted xs \<Longrightarrow> x \<in> set xs \<Longrightarrow> xs ! 0 \<le> x"
  by (cases xs) auto

lemma percentiles_in_order:
  assumes "vs \<noteq> []"
  shows "percentile (sort vs) (1 / 2) \<le> percentile (sort vs) (19 / 20)"
    "percentile (sort vs) (19 / 20) \<le> last (sort vs)" "sort vs ! 0 \<le> percentile (sort vs) (1 / 2)"
    "last (sort vs) = Max (set vs)" "sort vs ! 0 = Min (set vs)"
proof -
  have ne: "sort vs \<noteq> []" using assms by (metis set_empty set_sort)
  have s: "sorted (sort vs)" by simp
  have "percentile (sort vs) 0 \<le> percentile (sort vs) (1 / 2)"
    "percentile (sort vs) (19 / 20) \<le> percentile (sort vs) 1"
    "percentile (sort vs) (1 / 2) \<le> percentile (sort vs) (19 / 20)"
    by (rule percentile_mono [OF s ne]; simp)+
  then show "percentile (sort vs) (1 / 2) \<le> percentile (sort vs) (19 / 20)"
    "percentile (sort vs) (19 / 20) \<le> last (sort vs)" "sort vs ! 0 \<le> percentile (sort vs) (1 / 2)"
    unfolding percentile_ends [OF ne] by blast+
  have "last (sort vs) \<in> set vs" "sort vs ! 0 \<in> set vs"
    using ne by (metis last_in_set set_sort, metis length_greater_0_conv nth_mem set_sort)
  moreover have "\<forall>x\<in>set vs. x \<le> last (sort vs)" "\<forall>x\<in>set vs. sort vs ! 0 \<le> x"
    using sorted_le_last [OF s] sorted_nth0_le [OF s] by simp_all
  ultimately show "last (sort vs) = Max (set vs)" "sort vs ! 0 = Min (set vs)"
    by (auto intro!: Max_eqI [symmetric] Min_eqI [symmetric])
qed

lemma sort_key_groups_sum:
  fixes f :: "'b \<Rightarrow> int"
  shows "sum_list (map f (sort_key g xs)) = sum_list (map f xs)"
proof -
  have "mset (map f (sort_key g xs)) = mset (map f xs)" by simp
  then show ?thesis by (metis sum_mset_sum_list)
qed

lemma breakdown_sum:
  fixes h :: "usage_record \<Rightarrow> int"
  assumes "\<And>k l. f (breakdown_of (k, l)) = sum_list (map h l)"
  shows "sum_list (map f (breakdown key since until now s)) = sum_list (map h (rows_in (period since until now) s))"
proof -
  have f: "(\<lambda>g. f (breakdown_of g)) = (\<lambda>l. sum_list (map h l)) \<circ> snd"
    using assms by (auto simp: fun_eq_iff)
  show ?thesis
    using sum_group_rows [of "\<lambda>l. sum_list (map h l)" h "[]" key]
    by (simp add: breakdown_def sort_key_groups_sum f [unfolded o_def] o_def)
qed

lemma sum_some_alt: "sum_some f l = sum_list (map (\<lambda>r. case f r of None \<Rightarrow> 0 | Some n \<Rightarrow> n) l)"
  by (induction l) (auto simp: sum_some_def split: option.splits)

lemma three_outcomes:
  "count_if (\<lambda>r. r_status r = completed) l + count_if (\<lambda>r. r_status r = failed) l +
     count_if (\<lambda>r. r_status r = cancelled) l \<le> int (length l)"
  by (induction l) (auto simp: outcome_distinct [symmetric])

lemma breakdown_row:
  assumes "b \<in> set (breakdown key since until now s)"
  shows "br_requests b = count_if (\<lambda>r. key r = br_key b) (rows_in (period since until now) s) \<and>
    br_requests b > 0 \<and> br_completed b + br_failed b + br_cancelled b \<le> br_requests b"
proof -
  obtain k l where b: "b = breakdown_of (k, l)" "(k, l) \<in> set (group_rows key (rows_in (period since until now) s) [])"
    using assms by (auto simp: breakdown_def)
  from group_elem [OF b(2)] three_outcomes [of l] show ?thesis
    by (auto simp: b(1) breakdown_of_def count_if_def filter_empty_conv)
qed

lemma breakdown_keys:
  "distinct (map br_key (breakdown key since until now s)) \<and>
   set (map br_key (breakdown key since until now s)) = key ` set (rows_in (period since until now) s)"
proof -
  let ?groups = "group_rows key (rows_in (period since until now) s) []"
  have keys: "map br_key (breakdown key since until now s) =
      map fst (sort_key (\<lambda>(k, records). - int (length records)) ?groups)"
    by (simp add: breakdown_def breakdown_of_def split_beta o_def)
  have "mset (map br_key (breakdown key since until now s)) = mset (map fst ?groups)"
    unfolding keys by simp
  from mset_eq_imp_distinct_iff [OF this] mset_eq_setD [OF this] show ?thesis
    using distinct_group_rows [of "[]" key] group_keys [of key] by simp
qed

lemma breakdown_sorted: "sorted (rev (map br_requests (breakdown key since until now s)))"
proof -
  have "sorted (map (\<lambda>(k, records). - int (length records))
      (sort_key (\<lambda>(k, records). - int (length records)) (group_rows key (rows_in (period since until now) s) [])))"
    by (rule sorted_sort_key)
  then show ?thesis
    by (simp add: breakdown_def sorted_wrt_rev sorted_wrt_map breakdown_of_def split_beta)
qed

section \<open>Properties\<close>

text \<open>Latency statistics are in order: where there is a known value, the smallest is at most the
  median, the median at most the 95th percentile, that at most the maximum, and the maximum is
  attained; unknown values change nothing, and without a known value nothing is reported.\<close>

lemma latency_in_order:
  "let l = latency_of values; vs = known_values values in
     ls_count l = int (length vs) \<and> latency_of (map Some vs) = l \<and>
     (if vs = [] then ls_avg_ms l = None \<and> ls_p50_ms l = None \<and> ls_p95_ms l = None \<and> ls_max_ms l = None
      else \<exists>a b. ls_p50_ms l = Some a \<and> ls_p95_ms l = Some b \<and> ls_max_ms l = Some (Max (set vs)) \<and>
        Min (set vs) \<le> a \<and> a \<le> b \<and> b \<le> Max (set vs))"
proof (cases "known_values values = []")
  case True
  then show ?thesis by (simp add: latency_of_def)
next
  case False
  then have "sort (known_values values) \<noteq> []" by (metis set_empty set_sort)
  with False percentiles_in_order [OF False] show ?thesis by (simp add: latency_of_def Let_def)
qed

text \<open>A breakdown divides the period's records: every key that occurs has exactly one row, the
  row counts exactly the records with that key, the rows' requests and tokens add up to those of
  the period, and the rows are ordered by falling counts.\<close>

lemma breakdown_partition:
  "let rows = rows_in (period since until now) s; out = breakdown key since until now s in
     distinct (map br_key out) \<and> set (map br_key out) = key ` set rows \<and>
     list_all (\<lambda>b. br_requests b = count_if (\<lambda>r. key r = br_key b) rows \<and> br_requests b > 0 \<and>
        br_completed b + br_failed b + br_cancelled b \<le> br_requests b) out \<and>
     sum_list (map br_requests out) = int (length rows) \<and>
     sum_list (map br_total_tokens out) = ts_total (ob_tokens (obs_summary_of since until now a q s)) \<and>
     sorted (rev (map br_requests out))"
proof -
  have "sum_list (map br_requests (breakdown key since until now s)) =
      int (length (rows_in (period since until now) s))"
    using breakdown_sum [of br_requests "\<lambda>_. 1" key since until now s]
    by (simp add: breakdown_of_def sum_list_triv)
  moreover have "sum_list (map br_total_tokens (breakdown key since until now s)) =
      sum_some r_total_tokens (rows_in (period since until now) s)"
    unfolding sum_some_alt by (rule breakdown_sum) (simp add: breakdown_of_def sum_some_alt)
  ultimately show ?thesis
    using breakdown_keys [of key since until now s] breakdown_row [of _ key since until now s]
      breakdown_sorted [of key since until now s]
    by (simp add: Let_def list_all_iff obs_summary_of_def tokens_of_def) (metis (no_types))
qed

text \<open>The recent requests are the newest ones: at most 200 and, for a limit that is not negative,
  at most that many, the newest first, and no request of the period that is left out is newer than
  one that is shown.\<close>

lemma recent_newest:
  assumes "0 \<le> limit"
  shows "let rows = sort_key (\<lambda>r. - r_started_at r) (rows_in (period since until now) s);
      out = recent_requests limit since until now s; n = length out in
    out = map recent_of (take n rows) \<and> int n = min (min limit 200) (int (length rows)) \<and>
    sorted (rev (map rr_started_at out)) \<and>
    mset rows = mset (rows_in (period since until now) s) \<and>
    list_all (\<lambda>r. list_all (\<lambda>x. r_started_at r \<le> rr_started_at x) out) (drop n rows)"
proof -
  let ?rows = "sort_key (\<lambda>r. - r_started_at r) (rows_in (period since until now) s)"
  let ?n = "nat (min limit 200)"
  have out: "recent_requests limit since until now s = map recent_of (take ?n ?rows)"
    using assms by (auto simp: recent_requests_def sql_limit_def min_def)
  have "sorted (map (\<lambda>r. - r_started_at r) ?rows)" by (rule sorted_sort_key)
  then have sorted: "sorted_wrt (\<lambda>x y. r_started_at y \<le> r_started_at x) (take ?n ?rows @ drop ?n ?rows)"
    by (simp add: sorted_wrt_map)
  then have 1: "sorted (rev (map rr_started_at (recent_requests limit since until now s)))"
    unfolding out sorted_wrt_append by (simp add: sorted_wrt_rev sorted_wrt_map recent_of_def)
  have len: "drop (length (take ?n ?rows)) ?rows = drop ?n ?rows" by (cases "?n \<le> length ?rows") auto
  have 2: "list_all (\<lambda>r. list_all (\<lambda>x. r_started_at r \<le> rr_started_at x)
      (recent_requests limit since until now s)) (drop ?n ?rows)"
    using sorted unfolding out sorted_wrt_append by (auto simp: list_all_iff recent_of_def)
  show ?thesis
    using 1 2 len assms unfolding Let_def out by (auto simp: min_def)
qed

lemma recent_newest_witness:
  "\<exists>r s. record_usage ''1'' (Some sample_key) None (sample_args completed) empty_store = Inr (r, s) \<and>
     recent_requests 5 None None 50 s = [recent_of r]"
proof -
  obtain r s where rs: "record_usage ''1'' (Some sample_key) None (sample_args completed) empty_store = Inr (r, s)"
    "usage_records s = [r]" "r_started_at r = 10"
    by (simp add: record_usage_def insert_usage_def empty_store_def Let_def sample_args_def)
  then have rows: "rows_in (period None None 50) s = [r]"
    by (simp add: rows_in_def period_def today_range_def day_start_def day_us_def)
  from recent_newest [of 5 None None 50 s] have "recent_requests 5 None None 50 s = [recent_of r]"
    by (simp add: rows Let_def) (metis One_nat_def nat_int of_nat_1 take0 take_Suc_Cons list.simps(8,9))
  with rs show ?thesis by blast
qed

end
