(* ===== verification/AdminApi.thy ===== *)
theory AdminApi
  imports Auth Edge Observability
begin

text \<open>
  The management routes of \<open>app/api/admin.py\<close> on users, clients, keys, usage, limits and the
  observability data, with the schemas of \<open>app/api/admin_schemas.py\<close>.  Every route is behind
  \<open>require_admin\<close> (\<open>guarded\<close>) and opens a session on the database; a route that writes returns the
  new database.
\<close>

section \<open>Schemas\<close>

definition valid_name :: "string \<Rightarrow> bool" where
  "valid_name n \<longleftrightarrow> 1 \<le> length n \<and> length n \<le> 255"

record user_out =
  uo_id :: string
  uo_name :: string
  uo_status :: string
  uo_created_at :: datetime
  uo_updated_at :: datetime

record client_create =
  cl_user_id :: string
  cl_name :: string
  cl_description :: "string option"
  cl_allowed_models :: "string list option"

definition valid_client_create :: "client_create \<Rightarrow> bool" where
  "valid_client_create b \<longleftrightarrow> cl_user_id b \<noteq> [] \<and> valid_name (cl_name b)"

record client_out =
  co_id :: string
  co_user_id :: string
  co_name :: string
  co_description :: "string option"
  co_status :: string
  co_allowed_models :: "string list"
  co_created_at :: datetime
  co_updated_at :: datetime

record api_key_create =
  kc_client_id :: string
  kc_name :: string
  kc_expires_at :: "datetime option"

definition valid_api_key_create :: "api_key_create \<Rightarrow> bool" where
  "valid_api_key_create b \<longleftrightarrow> kc_client_id b \<noteq> [] \<and> valid_name (kc_name b)"

record api_key_create_out =
  kco_id :: string
  kco_name :: string
  kco_key_prefix :: string
  kco_key :: string
  kco_client_id :: string
  kco_created_at :: datetime
  kco_expires_at :: "datetime option"

record api_key_rotate_out = api_key_create_out +
  kro_rotated_from :: "string option"

record api_key_out =
  ko_id :: string
  ko_name :: string
  ko_key_prefix :: string
  ko_client_id :: string
  ko_created_at :: datetime
  ko_expires_at :: "datetime option"
  ko_revoked_at :: "datetime option"
  ko_last_used_at :: "datetime option"

record client_policy_out =
  po_id :: string
  po_name :: string
  po_rpm :: "int option"
  po_rpd :: "int option"
  po_tpd :: "int option"

record client_policy_update =
  pu_rpm :: "int option option" \<comment> \<open>None: not in \<open>model_fields_set\<close>\<close>
  pu_rpd :: "int option option"
  pu_tpd :: "int option option"

definition valid_policy_update :: "client_policy_update \<Rightarrow> bool" where
  "valid_policy_update b \<longleftrightarrow>
     (\<forall>v \<in> {pu_rpm b, pu_rpd b, pu_tpd b}. case v of Some (Some n) \<Rightarrow> 0 \<le> n | _ \<Rightarrow> True)"

section \<open>Guards\<close>

definition guarded ::
  "string \<Rightarrow> string option \<Rightarrow> string option \<Rightarrow> (exn + 'a) \<Rightarrow> exn + 'a" where
  \<comment> \<open>the router's dependency on \<open>require_admin\<close>\<close>
  "guarded expected x_admin_secret authorization answer =
     (case require_admin expected x_admin_secret authorization of Inl e \<Rightarrow> Inl e | Inr _ \<Rightarrow> answer)"

definition with_session :: "store option \<Rightarrow> (store \<Rightarrow> exn + 'a) \<Rightarrow> exn + 'a" where
  "with_session db f = (case get_db_session db of Inl e \<Rightarrow> Inl e | Inr s \<Rightarrow> f s)"

section \<open>Users and clients\<close>

definition user_out_of :: "user \<Rightarrow> user_out" where
  "user_out_of u =
     \<lparr> uo_id = u_id u, uo_name = u_name u, uo_status = u_status u,
       uo_created_at = u_created_at u, uo_updated_at = u_updated_at u \<rparr>"

definition create_user_route :: "string \<Rightarrow> string \<Rightarrow> datetime \<Rightarrow> store option \<Rightarrow> exn + user_out \<times> store" where
  "create_user_route name uid now db =
     with_session db (\<lambda>s. case create_user name uid now s of
         Inl e \<Rightarrow> Inl e | Inr (u, s') \<Rightarrow> Inr (user_out_of u, s'))"

definition list_users_route :: "store option \<Rightarrow> exn + user_out list" where
  "list_users_route db = with_session db (\<lambda>s. Inr (map user_out_of (list_users s)))"

definition client_out_of :: "store \<Rightarrow> client \<Rightarrow> client_out" where
  "client_out_of s c =
     \<lparr> co_id = c_id c, co_user_id = c_user_id c, co_name = c_name c, co_description = c_description c,
       co_status = c_status c, co_allowed_models = get_client_allowed_models (c_id c) s,
       co_created_at = c_created_at c, co_updated_at = c_updated_at c \<rparr>"

definition create_client_route ::
  "client_create \<Rightarrow> string \<Rightarrow> datetime \<Rightarrow> store option \<Rightarrow> exn + client_out \<times> store" where
  "create_client_route b cid now db =
     with_session db (\<lambda>s.
       case create_client (cl_user_id b) (cl_name b) (cl_description b) (cl_allowed_models b) cid now s of
         Inl e \<Rightarrow> Inl e | Inr (c, s') \<Rightarrow> Inr (client_out_of s' c, s'))"

definition list_clients_route :: "string option \<Rightarrow> store option \<Rightarrow> exn + client_out list" where
  "list_clients_route user_id db =
     with_session db (\<lambda>s. Inr (map (client_out_of s) (list_clients user_id s)))"

section \<open>Keys\<close>

definition api_key_out_of :: "api_key \<Rightarrow> api_key_out" where
  "api_key_out_of k =
     \<lparr> ko_id = k_id k, ko_name = k_name k, ko_key_prefix = k_prefix k, ko_client_id = k_client_id k,
       ko_created_at = k_created_at k, ko_expires_at = k_expires_at k,
       ko_revoked_at = k_revoked_at k, ko_last_used_at = k_last_used_at k \<rparr>"

definition create_api_key_route ::
  "(string \<Rightarrow> string) \<Rightarrow> rng \<Rightarrow> api_key_create \<Rightarrow> string \<Rightarrow> datetime \<Rightarrow> store option
     \<Rightarrow> exn + api_key_create_out \<times> store" where
  "create_api_key_route h r b kid now db =
     with_session db (\<lambda>s.
       case create_api_key h r (kc_client_id b) (kc_name b) (kc_expires_at b) kid now s of
         Inl e \<Rightarrow> Inl e
       | Inr ((k, full_token), s') \<Rightarrow>
           Inr (\<lparr> kco_id = k_id k, kco_name = k_name k, kco_key_prefix = k_prefix k, kco_key = full_token,
                  kco_client_id = k_client_id k, kco_created_at = k_created_at k,
                  kco_expires_at = k_expires_at k \<rparr>, s'))"

definition list_api_keys_route :: "string option \<Rightarrow> store option \<Rightarrow> exn + api_key_out list" where
  "list_api_keys_route client_id db =
     with_session db (\<lambda>s. Inr (map api_key_out_of (list_api_keys client_id s)))"

definition revoke_api_key_route :: "string \<Rightarrow> datetime \<Rightarrow> store option \<Rightarrow> exn + api_key_out \<times> store" where
  "revoke_api_key_route api_key_id now db =
     with_session db (\<lambda>s. case revoke_api_key api_key_id now s of
         Inl e \<Rightarrow> Inl e | Inr (k, s') \<Rightarrow> Inr (api_key_out_of k, s'))"

definition rotate_api_key_route ::
  "(string \<Rightarrow> string) \<Rightarrow> rng \<Rightarrow> string \<Rightarrow> bool \<Rightarrow> string \<Rightarrow> datetime \<Rightarrow> store option
     \<Rightarrow> exn + api_key_rotate_out \<times> store" where
  "rotate_api_key_route h r api_key_id revoke_old kid now db =
     with_session db (\<lambda>s. case rotate_api_key h r api_key_id revoke_old kid now s of
         Inl e \<Rightarrow> Inl e
       | Inr ((k, full_token, old), s') \<Rightarrow>
           Inr (\<lparr> kco_id = k_id k, kco_name = k_name k, kco_key_prefix = k_prefix k, kco_key = full_token,
                  kco_client_id = k_client_id k, kco_created_at = k_created_at k,
                  kco_expires_at = k_expires_at k, kro_rotated_from = map_option k_id old \<rparr>, s'))"

section \<open>Usage and limits\<close>

definition not_available :: "string \<Rightarrow> string \<Rightarrow> exn" where
  "not_available what code = Syn (raise_status SynErrorC (what @ '' service not available'') code 503)"

definition get_usage_service :: "usage_service option \<Rightarrow> exn + usage_service" where
  "get_usage_service sv =
     (case sv of None \<Rightarrow> Inl (not_available ''usage'' ''usage_unavailable'') | Some x \<Rightarrow> Inr x)"

definition client_not_found :: "string \<Rightarrow> exn" where
  "client_not_found i = Syn (raise_code NotFoundErrorC (''client '' @ quoted i @ '' not found'') ''client_not_found'')"

definition key_not_found :: "string \<Rightarrow> exn" where
  "key_not_found i = Syn (raise_code NotFoundErrorC (''api key '' @ quoted i @ '' not found'') ''api_key_not_found'')"

definition get_usage_summary ::
  "usage_service option \<Rightarrow> string option \<Rightarrow> string option \<Rightarrow> datetime \<Rightarrow> store option \<Rightarrow> exn + usage_summary" where
  "get_usage_summary sv client_id api_key_id now db =
     (case get_usage_service sv of
        Inl e \<Rightarrow> Inl e
      | Inr _ \<Rightarrow> with_session db (\<lambda>s. Inr (summarize api_key_id client_id None None now s)))"

text \<open>With both filters, the client's is not applied.\<close>

lemma usage_summary_by_key_alone:
  "get_usage_summary sv (Some c) (Some k) now db = get_usage_summary sv None (Some k) now db"
proof -
  have "summarize (Some k) (Some c) u v now s = summarize (Some k) None u v now s" for u v s
    by (simp add: summarize_def)
  then show ?thesis unfolding get_usage_summary_def by (cases "get_usage_service sv") simp_all
qed

definition get_client_usage ::
  "usage_service option \<Rightarrow> string \<Rightarrow> datetime \<Rightarrow> store option \<Rightarrow> exn + usage_summary" where
  "get_client_usage sv client_id now db =
     (case get_usage_service sv of
        Inl e \<Rightarrow> Inl e
      | Inr _ \<Rightarrow>
          with_session db (\<lambda>s. case one_or_none (clients_with_id client_id s) of
              Inl e \<Rightarrow> Inl e
            | Inr None \<Rightarrow> Inl (client_not_found client_id)
            | Inr (Some _) \<Rightarrow> Inr (summarize None (Some client_id) None None now s)))"

definition get_api_key_usage ::
  "usage_service option \<Rightarrow> string \<Rightarrow> datetime \<Rightarrow> store option \<Rightarrow> exn + usage_summary" where
  "get_api_key_usage sv api_key_id now db =
     (case get_usage_service sv of
        Inl e \<Rightarrow> Inl e
      | Inr _ \<Rightarrow>
          with_session db (\<lambda>s. case one_or_none (keys_with_id api_key_id s) of
              Inl e \<Rightarrow> Inl e
            | Inr None \<Rightarrow> Inl (key_not_found api_key_id)
            | Inr (Some _) \<Rightarrow> Inr (summarize (Some api_key_id) None None None now s)))"

definition policy_out_of :: "client \<Rightarrow> client_policy_out" where
  "policy_out_of c =
     \<lparr> po_id = c_id c, po_name = c_name c, po_rpm = c_rpm c, po_rpd = c_rpd c, po_tpd = c_tpd c \<rparr>"

definition get_client_policy :: "string \<Rightarrow> store option \<Rightarrow> exn + client_policy_out" where
  "get_client_policy client_id db =
     with_session db (\<lambda>s. case one_or_none (clients_with_id client_id s) of
         Inl e \<Rightarrow> Inl e
       | Inr None \<Rightarrow> Inl (client_not_found client_id)
       | Inr (Some c) \<Rightarrow> Inr (policy_out_of c))"

definition apply_policy_update :: "client_policy_update \<Rightarrow> client \<Rightarrow> client" where
  "apply_policy_update b c =
     (let c = (case pu_rpm b of None \<Rightarrow> c | Some v \<Rightarrow> c\<lparr> c_rpm := v \<rparr>);
          c = (case pu_rpd b of None \<Rightarrow> c | Some v \<Rightarrow> c\<lparr> c_rpd := v \<rparr>)
      in (case pu_tpd b of None \<Rightarrow> c | Some v \<Rightarrow> c\<lparr> c_tpd := v \<rparr>))"

definition update_client_policy ::
  "string \<Rightarrow> client_policy_update \<Rightarrow> (datetime \<Rightarrow> datetime) \<Rightarrow> store option
     \<Rightarrow> exn + client_policy_out \<times> store" where
  \<comment> \<open>\<open>stamp\<close> is what the row's \<open>updated_at\<close> column does on an update: the classes of the ORM are not
    in the repository\<close>
  "update_client_policy client_id b stamp db =
     with_session db (\<lambda>s. case one_or_none (clients_with_id client_id s) of
         Inl e \<Rightarrow> Inl e
       | Inr None \<Rightarrow> Inl (client_not_found client_id)
       | Inr (Some c) \<Rightarrow>
           let f = (\<lambda>c. apply_policy_update b c\<lparr> c_updated_at := stamp (c_updated_at c) \<rparr>)
           in Inr (policy_out_of (f c), update_client client_id f s))"

section \<open>Observability\<close>

definition get_observability_service :: "bool \<Rightarrow> exn + unit" where
  "get_observability_service wired =
     (if wired then Inr () else Inl (not_available ''observability'' ''observability_unavailable''))"

definition observed :: "bool \<Rightarrow> store option \<Rightarrow> (store \<Rightarrow> 'a) \<Rightarrow> exn + 'a" where
  "observed wired db f =
     (case get_observability_service wired of
        Inl e \<Rightarrow> Inl e
      | Inr _ \<Rightarrow> with_session db (\<lambda>s. Inr (f s)))"

definition observability_summary ::
  "bool \<Rightarrow> (int \<times> int) option \<Rightarrow> datetime \<Rightarrow> store option \<Rightarrow> exn + obs_summary" where
  \<comment> \<open>the active and queued counts of the admission controller's status, if there is one\<close>
  "observability_summary wired admission now db =
     (let (active, queued) = (case admission of None \<Rightarrow> (0, 0) | Some c \<Rightarrow> c)
      in observed wired db (obs_summary_of None None now active queued))"

definition observability_latency ::
  "bool \<Rightarrow> datetime \<Rightarrow> store option \<Rightarrow> exn + (string \<times> latency_stats) list" where
  "observability_latency wired now db = observed wired db (latency_map None None now)"

definition observability_recent ::
  "bool \<Rightarrow> int \<Rightarrow> datetime \<Rightarrow> store option \<Rightarrow> exn + recent_request list" where
  "observability_recent wired limit now db = observed wired db (recent_requests limit None None now)"

definition observability_clients ::
  "bool \<Rightarrow> datetime \<Rightarrow> store option \<Rightarrow> exn + string option breakdown_row list" where
  "observability_clients wired now db = observed wired db (client_breakdown None None now)"

definition observability_models ::
  "bool \<Rightarrow> datetime \<Rightarrow> store option \<Rightarrow> exn + string breakdown_row list" where
  "observability_models wired now db = observed wired db (model_breakdown None None now)"

definition observability_backends ::
  "bool \<Rightarrow> datetime \<Rightarrow> store option \<Rightarrow> exn + string option breakdown_row list" where
  "observability_backends wired now db = observed wired db (backend_breakdown None None now)"

section \<open>Lemmas\<close>

lemma insort_key_map:
  "(\<And>x. g (f x) = g x) \<Longrightarrow> insort_key g (f x) (map f xs) = map f (insort_key g x xs)"
  by (induction xs) auto

lemma sort_key_map: "(\<And>x. g (f x) = g x) \<Longrightarrow> sort_key g (map f xs) = map f (sort_key g xs)"
proof (induction xs)
  case (Cons x xs)
  then show ?case by (simp add: insort_key_map)
qed simp

lemma apply_policy_update_sel [simp]:
  "c_id (apply_policy_update b c) = c_id c" "c_name (apply_policy_update b c) = c_name c"
  "c_user_id (apply_policy_update b c) = c_user_id c"
  "c_rpm (apply_policy_update b c) = (case pu_rpm b of None \<Rightarrow> c_rpm c | Some v \<Rightarrow> v)"
  "c_rpd (apply_policy_update b c) = (case pu_rpd b of None \<Rightarrow> c_rpd c | Some v \<Rightarrow> v)"
  "c_tpd (apply_policy_update b c) = (case pu_tpd b of None \<Rightarrow> c_tpd c | Some v \<Rightarrow> v)"
  by (simp_all add: apply_policy_update_def Let_def split: option.splits)

lemma clients_with_id_update:
  "(\<And>c. c_id (f c) = c_id c) \<Longrightarrow>
     clients_with_id i (update_client i f s) = map f (clients_with_id i s)"
  by (simp add: clients_with_id_def update_client_def filter_map o_def if_distrib cong: if_cong)

lemma update_client_policy_Inr:
  assumes "update_client_policy i b stamp (Some s) = Inr (out, s')"
  obtains c where "clients_with_id i s = [c]" "c_id c = i"
    "out = policy_out_of (apply_policy_update b c)"
    "s' = update_client i (\<lambda>c. apply_policy_update b c\<lparr> c_updated_at := stamp (c_updated_at c) \<rparr>) s"
proof -
  obtain c where c: "one_or_none (clients_with_id i s) = Inr (Some c)"
    and "out = policy_out_of (apply_policy_update b c)"
    "s' = update_client i (\<lambda>c. apply_policy_update b c\<lparr> c_updated_at := stamp (c_updated_at c) \<rparr>) s"
    using assms
    by (auto simp: update_client_policy_def with_session_def get_db_session_def policy_out_of_def Let_def
        split: sum.splits option.splits)
  moreover have "clients_with_id i s = [c]" using c by (simp add: one_or_none_simps)
  moreover have "c_id c = i"
  proof -
    have "c \<in> set (clients_with_id i s)" using \<open>clients_with_id i s = [c]\<close> by simp
    then show ?thesis by (simp add: clients_with_id_def)
  qed
  ultimately show thesis by (intro that) auto
qed

section \<open>Properties\<close>

text \<open>Listings of keys give nothing of a secret away: whatever the stored hashes are, the answer is
  the same.\<close>

lemma key_listing_independent_of_hashes:
  "list_api_keys_route client_id (Some (s\<lparr> api_keys := map (\<lambda>k. k\<lparr> k_hash := f k \<rparr>) (api_keys s) \<rparr>)) =
   list_api_keys_route client_id (Some s)"
proof -
  let ?f = "\<lambda>k. k\<lparr> k_hash := f k \<rparr>"
  have 1: "order_by k_created_at (map ?f ks) = map ?f (order_by k_created_at ks)" for ks
    unfolding order_by_def by (rule sort_key_map) simp
  have 2: "filter (\<lambda>k. k_client_id k = i) (map ?f ks) = map ?f (filter (\<lambda>k. k_client_id k = i) ks)" for i ks
    by (simp add: filter_map o_def)
  have 3: "api_key_out_of \<circ> ?f = api_key_out_of" by (auto simp: api_key_out_of_def)
  show ?thesis
    by (cases client_id)
      (simp_all add: list_api_keys_route_def with_session_def get_db_session_def list_api_keys_def 1 2 3 Let_def)
qed

text \<open>An update of a client's limits changes exactly the limits that were given, null included: the
  answer and a later read agree, every other limit, client and table is as before, and the database
  stays consistent.\<close>

lemma policy_update_spec:
  assumes "update_client_policy i b stamp (Some s) = Inr (out, s')" "store_ok s"
  shows "get_client_policy i (Some s') = Inr out \<and> store_ok s' \<and>
    (\<exists>old. get_client_policy i (Some s) = Inr old \<and> po_id out = po_id old \<and> po_name out = po_name old \<and>
       po_rpm out = (case pu_rpm b of None \<Rightarrow> po_rpm old | Some v \<Rightarrow> v) \<and>
       po_rpd out = (case pu_rpd b of None \<Rightarrow> po_rpd old | Some v \<Rightarrow> v) \<and>
       po_tpd out = (case pu_tpd b of None \<Rightarrow> po_tpd old | Some v \<Rightarrow> v)) \<and>
    filter (\<lambda>c. c_id c \<noteq> i) (clients s') = filter (\<lambda>c. c_id c \<noteq> i) (clients s) \<and>
    s'\<lparr> clients := clients s \<rparr> = s"
proof -
  let ?f = "\<lambda>c. apply_policy_update b c\<lparr> c_updated_at := stamp (c_updated_at c) \<rparr>"
  obtain c where c: "clients_with_id i s = [c]" and out: "out = policy_out_of (apply_policy_update b c)"
    and s': "s' = update_client i ?f s"
    using update_client_policy_Inr [OF assms(1)] by metis
  have others: "filter (\<lambda>c. c_id c \<noteq> i) (map (\<lambda>c. if c_id c = i then ?f c else c) cs) = filter (\<lambda>c. c_id c \<noteq> i) cs" for cs
    by (induction cs) auto
  have "clients_with_id i s' = [?f c]" using c by (simp add: s' clients_with_id_update)
  moreover have "store_ok s'" unfolding s' by (rule store_ok_update_client [OF assms(2)]) simp_all
  ultimately show ?thesis
    using c others
    by (simp add: get_client_policy_def with_session_def get_db_session_def policy_out_of_def out)
      (simp add: s' update_client_def split: option.split)
qed

lemma policy_update_spec_witness:
  "\<exists>out s'. update_client_policy ''c1'' \<lparr> pu_rpm = Some (Some 5), pu_rpd = None, pu_tpd = Some None \<rparr> id
       (Some sample_store) = Inr (out, s') \<and> po_rpm out = Some 5 \<and> get_client_policy ''c1'' (Some s') = Inr out"
proof -
  let ?b = "\<lparr> pu_rpm = Some (Some 5), pu_rpd = None, pu_tpd = Some None \<rparr>"
  obtain out s' where u: "update_client_policy ''c1'' ?b id (Some sample_store) = Inr (out, s')"
    by (simp add: update_client_policy_def with_session_def get_db_session_def sample_store_def
        empty_store_def clients_with_id_def Let_def)
  from policy_update_spec [OF u sample_store_ok] u show ?thesis by auto
qed

section \<open>The plane as steps\<close>

text \<open>What the writing routes do to the database, for a request with these headers.\<close>

inductive admin_step ::
  "(string \<Rightarrow> string) \<Rightarrow> string \<Rightarrow> string option \<Rightarrow> string option \<Rightarrow> store \<Rightarrow> store \<Rightarrow> bool"
  for h expected x auth where
  admin_create_user:
    "guarded expected x auth (create_user_route n i now (Some s)) = Inr (uo, s') \<Longrightarrow>
       admin_step h expected x auth s s'"
| admin_create_client:
    "guarded expected x auth (create_client_route b i now (Some s)) = Inr (co, s') \<Longrightarrow>
       admin_step h expected x auth s s'"
| admin_create_key:
    "guarded expected x auth (create_api_key_route h r kb i now (Some s)) = Inr (ko, s') \<Longrightarrow>
       admin_step h expected x auth s s'"
| admin_revoke:
    "guarded expected x auth (revoke_api_key_route i now (Some s)) = Inr (ro, s') \<Longrightarrow>
       admin_step h expected x auth s s'"
| admin_rotate:
    "guarded expected x auth (rotate_api_key_route h r i rv kid now (Some s)) = Inr (rot, s') \<Longrightarrow>
       admin_step h expected x auth s s'"
| admin_policy:
    "guarded expected x auth (update_client_policy i pb stamp (Some s)) = Inr (po, s') \<Longrightarrow>
       admin_step h expected x auth s s'"

definition policy_step :: "store \<Rightarrow> store \<Rightarrow> bool" where
  \<comment> \<open>the abstract effect of an update of limits: one client's limits and its time of update\<close>
  "policy_step s s' \<longleftrightarrow> (\<exists>i f. s' = update_client i f s \<and>
     (\<forall>c. (f c)\<lparr> c_rpm := c_rpm c, c_rpd := c_rpd c, c_tpd := c_tpd c, c_updated_at := c_updated_at c \<rparr> = c))"

lemma guarded_Inr: "guarded expected x auth answer = Inr v \<longleftrightarrow> require_admin expected x auth = Inr () \<and> answer = Inr v"
  by (auto simp: guarded_def split: sum.splits)

lemma routes_refine:
  "create_user_route n i now (Some s) = Inr (uo, s') \<Longrightarrow> svc_step h s s'"
  "create_client_route b i now (Some s) = Inr (co, s') \<Longrightarrow> svc_step h s s'"
  "create_api_key_route h r kb i now (Some s) = Inr (ko, s') \<Longrightarrow> svc_step h s s'"
  "revoke_api_key_route i now (Some s) = Inr (ro, s') \<Longrightarrow> svc_step h s s'"
  "rotate_api_key_route h r i rv kid now (Some s) = Inr (rot, s') \<Longrightarrow> svc_step h s s'"
  unfolding create_user_route_def create_client_route_def create_api_key_route_def revoke_api_key_route_def
    rotate_api_key_route_def with_session_def get_db_session_def
  by (auto split: sum.splits prod.splits
      intro: svc_create_user svc_create_client svc_create_key svc_revoke svc_rotate)

lemma policy_refines:
  assumes "update_client_policy i b stamp (Some s) = Inr (out, s')"
  shows "policy_step s s'"
proof -
  have s': "s' = update_client i (\<lambda>c. apply_policy_update b c\<lparr> c_updated_at := stamp (c_updated_at c) \<rparr>) s"
    using update_client_policy_Inr [OF assms] by metis
  have "(apply_policy_update b c\<lparr> c_updated_at := t \<rparr>)
      \<lparr> c_rpm := c_rpm c, c_rpd := c_rpd c, c_tpd := c_tpd c, c_updated_at := c_updated_at c \<rparr> = c" for c t
    by (simp add: apply_policy_update_def Let_def split: option.split)
  then show ?thesis unfolding policy_step_def s' by (intro exI conjI allI) (rule refl)+
qed

lemma policy_step_ok: "policy_step s s' \<Longrightarrow> store_ok s \<Longrightarrow> store_ok s'"
proof (unfold policy_step_def, elim exE conjE)
  fix i f
  assume s': "s' = update_client i f s" and ok: "store_ok s"
    and f: "\<forall>c. (f c)\<lparr> c_rpm := c_rpm c, c_rpd := c_rpd c, c_tpd := c_tpd c, c_updated_at := c_updated_at c \<rparr> = c"
  have "c_id (f c) = c_id c \<and> c_user_id (f c) = c_user_id c \<and> c_name (f c) = c_name c" for c
    using f[rule_format, of c] by (cases c; cases "f c") simp
  then show "store_ok s'" unfolding s' by (intro store_ok_update_client [OF ok]) simp_all
qed

lemma admin_step_effect:
  assumes "admin_step h expected x auth s s'"
  shows "require_admin expected x auth = Inr ()" "svc_step h s s' \<or> policy_step s s'"
  using assms
  by (cases rule: admin_step.cases; auto simp: guarded_Inr intro: routes_refine policy_refines)+

lemma admin_step_ok: "admin_step h expected x auth s s' \<Longrightarrow> store_ok s \<Longrightarrow> store_ok s'"
  using admin_step_effect(2) svc_step_ok policy_step_ok by blast

lemma admin_step_later: "admin_step h expected x auth s s' \<Longrightarrow> keys_later s s'"
  using admin_step_effect(2) [of h expected x auth s s'] svc_step_later [of h s s']
  by (auto simp: policy_step_def intro: keys_later_same)



end
