(* ===== verification/Config.thy ===== *)
theory Config
  imports Edge Backends
begin

text \<open>
  The configuration, \<open>app/config.py\<close>: the fields of \<open>Settings\<close> after pydantic has read them, and the
  field validators.  Pydantic runs the validators of all fields and collects the errors, in the order
  of the fields; \<open>pr\<close> is the text of a float in a message.  Floats are finite here.
\<close>

section \<open>Settings\<close>

datatype environment = Development | Testing | Production

fun environment_value :: "environment \<Rightarrow> string" where
  "environment_value Development = ''development''"
| "environment_value Testing = ''testing''"
| "environment_value Production = ''production''"

record settings =
  se_app_name :: string
  se_app_version :: string
  se_environment :: environment
  se_host :: string
  se_port :: int
  se_log_level :: string
  se_database_url :: string
  se_backend_type :: backend_type
  se_backend_base_url :: string
  se_backend_timeout_seconds :: rat
  se_backend_connect_timeout_seconds :: rat
  se_backend_health_timeout_seconds :: rat
  se_admin_secret :: string
  se_max_active_requests :: int
  se_max_queue_size :: int
  se_queue_timeout_seconds :: rat
  se_default_requests_per_minute :: int
  se_default_requests_per_day :: int
  se_default_tokens_per_day :: int
  se_max_request_body_bytes :: int
  se_routing_config_path :: string
  se_cors_allowed_origins :: string

definition default_settings :: settings where
  \<comment> \<open>the defaults of the fields\<close>
  "default_settings =
     \<lparr> se_app_name = ''Syn'', se_app_version = ''0.1.0'', se_environment = Development,
       se_host = ''127.0.0.1'', se_port = 8001, se_log_level = ''INFO'',
       se_database_url = ''sqlite:///./data/syn.db'', se_backend_type = LLAMA_CPP,
       se_backend_base_url = ''http://127.0.0.1:8080'', se_backend_timeout_seconds = 120,
       se_backend_connect_timeout_seconds = 10, se_backend_health_timeout_seconds = 5,
       se_admin_secret = [], se_max_active_requests = 1, se_max_queue_size = 8,
       se_queue_timeout_seconds = 30, se_default_requests_per_minute = 0,
       se_default_requests_per_day = 0, se_default_tokens_per_day = 0,
       se_max_request_body_bytes = 1048576, se_routing_config_path = ''config/routing.json'',
       se_cors_allowed_origins = [] \<rparr>"

section \<open>The validators\<close>

definition upper_char :: "char \<Rightarrow> char" where
  \<comment> \<open>of the characters whose upper case is one character below 256\<close>
  "upper_char c =
     (let n = of_char c :: nat
      in if (97 \<le> n \<and> n \<le> 122) \<or> (224 \<le> n \<and> n \<le> 254 \<and> n \<noteq> 247) then char_of (n - 32) else c)"

definition py_upper :: "string \<Rightarrow> string" where
  "py_upper s = map upper_char s"

definition validate_port :: "int \<Rightarrow> string + int" where
  "validate_port v =
     (if 1 \<le> v \<and> v \<le> 65535 then Inr v
      else Inl (''port must be between 1 and 65535, got '' @ show_int v))"

definition positive_seconds :: "string \<Rightarrow> (rat \<Rightarrow> string) \<Rightarrow> rat \<Rightarrow> string + rat" where
  "positive_seconds field pr v =
     (if v \<le> 0 then Inl (field @ '' must be positive, got '' @ pr v) else Inr v)"

definition validate_backend_timeout :: "(rat \<Rightarrow> string) \<Rightarrow> rat \<Rightarrow> string + rat" where
  "validate_backend_timeout = positive_seconds ''backend_timeout_seconds''"

definition validate_backend_connect_timeout :: "(rat \<Rightarrow> string) \<Rightarrow> rat \<Rightarrow> string + rat" where
  "validate_backend_connect_timeout = positive_seconds ''backend_connect_timeout_seconds''"

definition validate_backend_health_timeout :: "(rat \<Rightarrow> string) \<Rightarrow> rat \<Rightarrow> string + rat" where
  "validate_backend_health_timeout = positive_seconds ''backend_health_timeout_seconds''"

definition log_levels :: "string list" where
  "log_levels = [''DEBUG'', ''INFO'', ''WARNING'', ''ERROR'', ''CRITICAL'']"

definition validate_log_level :: "string \<Rightarrow> string + string" where
  "validate_log_level v =
     (let normalized = py_upper (py_strip v)
      in if normalized \<notin> set log_levels then Inl (''invalid log level: '' @ v) else Inr normalized)"

definition validate_max_active :: "int \<Rightarrow> string + int" where
  "validate_max_active v =
     (if v \<le> 0 then Inl (''max_active_requests must be positive, got '' @ show_int v) else Inr v)"

definition validate_max_queue :: "int \<Rightarrow> string + int" where
  "validate_max_queue v =
     (if v < 0 then Inl (''max_queue_size must be >= 0, got '' @ show_int v) else Inr v)"

definition validate_queue_timeout :: "(rat \<Rightarrow> string) \<Rightarrow> rat \<Rightarrow> string + rat" where
  "validate_queue_timeout = positive_seconds ''queue_timeout_seconds''"

definition validate_rpm :: "int \<Rightarrow> string + int" where
  "validate_rpm v =
     (if v < 0 then Inl (''default_requests_per_minute must be >= 0, got '' @ show_int v) else Inr v)"

definition validate_rpd :: "int \<Rightarrow> string + int" where
  "validate_rpd v =
     (if v < 0 then Inl (''default_requests_per_day must be >= 0, got '' @ show_int v) else Inr v)"

definition validate_tpd :: "int \<Rightarrow> string + int" where
  "validate_tpd v =
     (if v < 0 then Inl (''default_tokens_per_day must be >= 0, got '' @ show_int v) else Inr v)"

definition validate_max_body :: "int \<Rightarrow> string + int" where
  "validate_max_body v =
     (if v \<le> 0 then Inl (''max_request_body_bytes must be positive, got '' @ show_int v)
      else if v > 50 * 1024 * 1024
      then Inl (''max_request_body_bytes too large (max 50 MiB), got '' @ show_int v)
      else Inr v)"

definition field_error :: "string \<Rightarrow> string + 'a \<Rightarrow> (string \<times> string) list" where
  "field_error field res = (case res of Inl msg \<Rightarrow> [(field, msg)] | Inr _ \<Rightarrow> [])"

definition settings_errors :: "(rat \<Rightarrow> string) \<Rightarrow> settings \<Rightarrow> (string \<times> string) list" where
  "settings_errors pr s =
     field_error ''port'' (validate_port (se_port s)) @
     field_error ''log_level'' (validate_log_level (se_log_level s)) @
     field_error ''backend_timeout_seconds'' (validate_backend_timeout pr (se_backend_timeout_seconds s)) @
     field_error ''backend_connect_timeout_seconds''
       (validate_backend_connect_timeout pr (se_backend_connect_timeout_seconds s)) @
     field_error ''backend_health_timeout_seconds''
       (validate_backend_health_timeout pr (se_backend_health_timeout_seconds s)) @
     field_error ''max_active_requests'' (validate_max_active (se_max_active_requests s)) @
     field_error ''max_queue_size'' (validate_max_queue (se_max_queue_size s)) @
     field_error ''queue_timeout_seconds'' (validate_queue_timeout pr (se_queue_timeout_seconds s)) @
     field_error ''default_requests_per_minute'' (validate_rpm (se_default_requests_per_minute s)) @
     field_error ''default_requests_per_day'' (validate_rpd (se_default_requests_per_day s)) @
     field_error ''default_tokens_per_day'' (validate_tpd (se_default_tokens_per_day s)) @
     field_error ''max_request_body_bytes'' (validate_max_body (se_max_request_body_bytes s)) @
     field_error ''cors_allowed_origins'' (validate_cors (se_cors_allowed_origins s))"

definition validate_settings :: "(rat \<Rightarrow> string) \<Rightarrow> settings \<Rightarrow> (string \<times> string) list + settings" where
  "validate_settings pr s =
     (if settings_errors pr s \<noteq> [] then Inl (settings_errors pr s)
      else Inr (s\<lparr> se_log_level := py_upper (py_strip (se_log_level s)) \<rparr>))"

section \<open>What the validators guarantee\<close>

lemma field_error_Nil: "field_error f r = [] \<longleftrightarrow> (\<exists>v. r = Inr v)"
  by (cases r) (auto simp: field_error_def)

lemmas validator_defs = validate_port_def positive_seconds_def validate_backend_timeout_def
  validate_backend_connect_timeout_def validate_backend_health_timeout_def validate_log_level_def
  validate_max_active_def validate_max_queue_def validate_queue_timeout_def validate_rpm_def
  validate_rpd_def validate_tpd_def validate_max_body_def

definition settings_ok :: "settings \<Rightarrow> bool" where
  \<comment> \<open>what the rest of the gateway relies on\<close>
  "settings_ok s \<longleftrightarrow>
     1 \<le> se_port s \<and> se_port s \<le> 65535 \<and>
     0 < se_backend_timeout_seconds s \<and> 0 < se_backend_connect_timeout_seconds s \<and>
     0 < se_backend_health_timeout_seconds s \<and> 1 \<le> se_max_active_requests s \<and>
     0 \<le> se_max_queue_size s \<and> 0 < se_queue_timeout_seconds s \<and>
     0 \<le> se_default_requests_per_minute s \<and> 0 \<le> se_default_requests_per_day s \<and>
     0 \<le> se_default_tokens_per_day s \<and>
     0 < se_max_request_body_bytes s \<and> se_max_request_body_bytes s \<le> 52428800 \<and>
     (\<forall>origin\<in>set (cors_origins_list (se_cors_allowed_origins s)).
        starts_with ''http://'' origin \<or> starts_with ''https://'' origin)"

lemma validate_cors_value: "validate_cors v = Inr w \<Longrightarrow> w = v"
  by (auto simp: validate_cors_def split: if_splits option.splits)

lemma cors_schemes:
  assumes "validate_cors v = Inr w" "origin \<in> set (cors_origins_list v)"
  shows "starts_with ''http://'' origin \<or> starts_with ''https://'' origin"
  using assms by (auto simp: validate_cors_def cors_origins_list_def find_None_iff split: if_splits option.splits)

lemma settings_errors_Nil:
  "settings_errors pr s = [] \<longleftrightarrow>
     settings_ok s \<and> py_upper (py_strip (se_log_level s)) \<in> set log_levels \<and>
     (\<exists>w. validate_cors (se_cors_allowed_origins s) = Inr w)"
proof -
  have "\<And>v w. validate_cors v = Inr w \<Longrightarrow>
      \<forall>origin\<in>set (cors_origins_list v). starts_with ''http://'' origin \<or> starts_with ''https://'' origin"
    using cors_schemes by blast
  then show ?thesis
    unfolding settings_errors_def append_is_Nil_conv field_error_Nil settings_ok_def
    by (auto simp: validator_defs Let_def split: if_splits)
qed

lemma log_levels_normal: "l \<in> set log_levels \<Longrightarrow> py_upper (py_strip l) = l"
  by (auto simp: log_levels_def py_upper_def upper_char_def py_defs)

text \<open>Settings that validate are within the ranges the gateway relies on and name a known level of
  logging; validation changes no other field than that level's spelling, and validated settings
  validate again to themselves.\<close>

lemma validated_settings:
  assumes "validate_settings pr s = Inr t"
  shows "settings_ok t \<and> se_log_level t \<in> set log_levels \<and>
    t\<lparr> se_log_level := se_log_level s \<rparr> = s \<and> validate_settings pr t = Inr t"
proof -
  have t: "t = s\<lparr> se_log_level := py_upper (py_strip (se_log_level s)) \<rparr>" and n: "settings_errors pr s = []"
    using assms by (auto simp: validate_settings_def split: if_splits)
  from n have ok: "settings_ok s" "py_upper (py_strip (se_log_level s)) \<in> set log_levels"
    "\<exists>w. validate_cors (se_cors_allowed_origins s) = Inr w" by (simp_all add: settings_errors_Nil)
  have t_ok: "settings_ok t" using ok(1) by (simp add: t settings_ok_def)
  have level: "se_log_level t \<in> set log_levels" "py_upper (py_strip (se_log_level t)) = se_log_level t"
    using ok(2) log_levels_normal by (simp_all add: t)
  have "settings_errors pr t = []" using t_ok level ok(3) by (simp add: settings_errors_Nil) (simp add: t)
  then show ?thesis using t_ok level by (simp add: validate_settings_def) (simp add: t)
qed

lemma validated_settings_witness:
  "\<exists>t. validate_settings (\<lambda>_. []) (default_settings\<lparr> se_log_level := '' info'' \<rparr>) = Inr t \<and> settings_ok t \<and>
     se_log_level t = ''INFO''"
proof -
  let ?s = "default_settings\<lparr> se_log_level := '' info'' \<rparr>"
  have level: "py_upper (py_strip '' info'') = ''INFO''" by (simp add: py_upper_def upper_char_def py_defs) code_simp
  have "settings_errors (\<lambda>_. []) ?s = []"
    by (simp add: settings_errors_Nil level log_levels_def)
      (simp add: settings_ok_def default_settings_def cors_origins_list_def validate_cors_def py_defs)
  then have v: "validate_settings (\<lambda>_. []) ?s = Inr (?s\<lparr> se_log_level := ''INFO'' \<rparr>)"
    by (simp add: validate_settings_def level)
  show ?thesis using validated_settings[OF v] v by auto
qed

end
