(* ===== verification/AdminStatus.thy ===== *)
theory AdminStatus
  imports LlamaCpp Router Admission AdminApi Config
begin

text \<open>
  The operator's view in \<open>app/api/admin.py\<close>: status, routing preview, runtime models and backends,
  overview, settings and metrics.  A route that probes backends is a function of the outcome of
  each probe and threads the registry, whose cache the probes fill; \<open>describe\<close> is the text of an
  exception and \<open>stamp\<close> the clock's.
\<close>

section \<open>Endpoints without secrets\<close>

definition scheme_char :: "char \<Rightarrow> bool" where
  "scheme_char c \<longleftrightarrow>
     (let n = of_char c :: nat
      in (65 \<le> n \<and> n \<le> 90) \<or> (97 \<le> n \<and> n \<le> 122) \<or> (48 \<le> n \<and> n \<le> 57) \<or> n \<in> {43, 45, 46})"

definition ascii_letter :: "char \<Rightarrow> bool" where
  "ascii_letter c \<longleftrightarrow>
     (let n = of_char c :: nat in (65 \<le> n \<and> n \<le> 90) \<or> (97 \<le> n \<and> n \<le> 122))"

definition drop_scheme :: "string \<Rightarrow> string" where
  \<comment> \<open>the URL without its scheme\<close>
  "drop_scheme url =
     (let pre = takeWhile (\<lambda>c. c \<noteq> CHR '':'') url
      in if pre \<noteq> [] \<and> length pre < length url \<and> ascii_letter (url ! 0) \<and> list_all scheme_char pre
         then drop (Suc (length pre)) url else url)"

definition url_netloc :: "string \<Rightarrow> exn + string" where
  \<comment> \<open>\<open>urlsplit(url).netloc\<close>; the check of the address between brackets is left out\<close>
  "url_netloc url =
     (let url = dropWhile (\<lambda>c. (of_char c :: nat) \<le> 32) url;
          url = drop_scheme (filter (\<lambda>c. c \<notin> {char_of (9 :: nat), char_of (10 :: nat), char_of (13 :: nat)}) url);
          netloc = (if starts_with ''//'' url
                    then takeWhile (\<lambda>c. c \<notin> {CHR ''/'', CHR ''?'', CHR ''#''}) (drop 2 url) else [])
      in if (CHR ''['' \<in> set netloc) \<noteq> (CHR '']'' \<in> set netloc) then Inl (PyError ''ValueError'')
         else Inr netloc)"

definition after_first :: "char \<Rightarrow> string \<Rightarrow> string option" where
  "after_first c s = (case dropWhile (\<lambda>x. x \<noteq> c) s of [] \<Rightarrow> None | _ # rest \<Rightarrow> Some rest)"

definition host_port :: "string \<Rightarrow> string \<times> string option" where
  \<comment> \<open>the host and the text of the port of a network location\<close>
  "host_port netloc =
     (let hostinfo = after_last (CHR ''@'') netloc
      in case after_first (CHR ''['') hostinfo of
           Some bracketed \<Rightarrow>
             (takeWhile (\<lambda>c. c \<noteq> CHR '']'') bracketed,
              Option.bind (after_first (CHR '']'') bracketed) (after_first (CHR '':'')))
         | None \<Rightarrow> (takeWhile (\<lambda>c. c \<noteq> CHR '':'') hostinfo, after_first (CHR '':'') hostinfo))"

definition lower_host :: "string \<Rightarrow> string" where
  "lower_host h =
     py_lower (takeWhile (\<lambda>c. c \<noteq> CHR ''%'') h) @ dropWhile (\<lambda>c. c \<noteq> CHR ''%'') h"

definition url_port :: "string option \<Rightarrow> exn + int option" where
  "url_port p =
     (case p of
        None \<Rightarrow> Inr None
      | Some s \<Rightarrow>
          if s = [] \<or> \<not> list_all is_digit s then Inl (PyError ''ValueError'')
          else (case py_int s of
                  None \<Rightarrow> Inl (PyError ''ValueError'')
                | Some n \<Rightarrow> if 0 \<le> n \<and> n \<le> 65535 then Inr (Some n) else Inl (PyError ''ValueError'')))"

definition safe_backend_endpoint :: "string \<Rightarrow> exn + string option" where
  \<comment> \<open>of the base URL of a registered backend\<close>
  "safe_backend_endpoint base_url =
     (case url_netloc base_url of
        Inl e \<Rightarrow> Inl e
      | Inr netloc \<Rightarrow>
          (case host_port netloc of
             (h, p) \<Rightarrow>
               if h = [] then Inr None
               else
                 let h = lower_host h; host = (if CHR '':'' \<in> set h then ''['' @ h @ '']'' else h)
                 in (case url_port p of
                       Inl e \<Rightarrow> Inl e
                     | Inr None \<Rightarrow> Inr (Some host)
                     | Inr (Some n) \<Rightarrow> Inr (Some (host @ '':'' @ show_int n)))))"

section \<open>Status\<close>

definition admission_json :: "admission option \<Rightarrow> json" where
  "admission_json adm =
     (case adm of
        None \<Rightarrow> JObj [(''configured'', JBool False), (''reason'', JStr ''admission controller not wired'')]
      | Some a \<Rightarrow>
          let st = status a
          in JObj [(''active'', JInt (st_active st)), (''max_active'', JInt (int (st_max_active st))),
                   (''queued'', JInt (int (st_queued st))), (''max_queue'', JInt (int (st_max_queue st))),
                   (''queue_timeout_seconds'', JFloat (st_queue_timeout st))])"

definition type_of_backend :: "('b \<Rightarrow> string) \<Rightarrow> 'b backend_registry \<Rightarrow> string \<Rightarrow> string" where
  \<comment> \<open>\<open>types().get(bid, "unknown")\<close>\<close>
  "type_of_backend name r i =
     (case map_of (backend_types name r) i of None \<Rightarrow> ''unknown'' | Some t \<Rightarrow> t)"

definition status_backend ::
  "('b \<Rightarrow> string) \<Rightarrow> (string \<Rightarrow> time) \<Rightarrow> (string \<Rightarrow> exn + health_result) \<Rightarrow> string
     \<Rightarrow> (string \<times> json) list \<times> 'b backend_registry \<Rightarrow> exn + (string \<times> json) list \<times> 'b backend_registry" where
  "status_backend name clock probe i = (\<lambda>(out, r).
     (let entry = (\<lambda>reachable state reason.
            JObj [(''type'', JStr (type_of_backend name r i)),
                  (''health'', JObj [(''reachable'', JBool reachable), (''state'', JStr state),
                                     (''reason'', JStr reason)])])
      in case registry_health i False (clock i) (probe i) r of
           Inr (h, r') \<Rightarrow>
             Inr (dict_set i (entry (h_reachable h) (health_state_value (h_state h)) (h_reason h)) out, r')
         | Inl e \<Rightarrow>
             if is_Exception e then Inr (dict_set i (entry False ''error'' ''health probe failed'') out, r)
             else Inl e))"

definition get_status ::
  "admission option \<Rightarrow> ('b \<Rightarrow> string) \<Rightarrow> (string \<Rightarrow> time) \<Rightarrow> (string \<Rightarrow> exn + health_result)
     \<Rightarrow> 'b routing_service option \<Rightarrow> exn + json \<times> 'b backend_registry option" where
  "get_status adm name clock probe router =
     (let result = (\<lambda>routing. JObj [(''admission'', admission_json adm), (''routing'', routing)])
      in case router of
           None \<Rightarrow>
             Inr (result (JObj [(''configured'', JBool False), (''mode'', JStr ''passthrough''),
                                (''reason'', JStr ''routing service not wired'')]), None)
         | Some rs \<Rightarrow>
             if \<not> configured rs
             then Inr (result (JObj [(''configured'', JBool False), (''mode'', JStr ''passthrough'')]), rs_backends rs)
             else
               let backends_json = (\<lambda>out. result (JObj [(''configured'', JBool True), (''mode'', JStr ''configured''),
                                                       (''backends'', JObj out)]))
               in (case rs_backends rs of
                     None \<Rightarrow> Inr (backends_json [], None)
                   | Some r \<Rightarrow>
                       (case fold_res (status_backend name clock probe) (backend_ids r) ([], r) of
                          Inl e \<Rightarrow> Inl e
                        | Inr (out, r') \<Rightarrow> Inr (backends_json out, Some r'))))"

section \<open>Preview of routing\<close>

definition preview_principal :: principal where
  "preview_principal =
     \<lparr> p_user_id = ''preview'', p_user_name = ''preview'', p_client_id = ''preview'',
       p_client_name = ''preview'', p_api_key_id = ''preview'', p_api_key_prefix = ''preview'',
       p_allowed_models = None \<rparr>"

record routing_preview_response =
  rp_requested_model :: string
  rp_canonical_model :: string
  rp_backend_id :: string
  rp_reason :: string
  rp_backend_reachable :: bool

definition routing_preview ::
  "('b \<Rightarrow> exn + model_info list) \<Rightarrow> (exn \<Rightarrow> string) \<Rightarrow> (string \<Rightarrow> time) \<Rightarrow> (string \<Rightarrow> exn + health_result)
     \<Rightarrow> 'b routing_service option \<Rightarrow> string \<Rightarrow> exn + routing_preview_response" where
  "routing_preview discovered describe clock probe router model =
     (case router of
        None \<Rightarrow> Inl (Syn (raise_status SynErrorC ''routing service not available'' ''routing_not_wired'' 503))
      | Some rs \<Rightarrow>
          (case route discovered rs model preview_principal of
             Inl e \<Rightarrow>
               if is_Exception e
               then Inl (Syn (raise_status SynErrorC (''routing preview failed: '' @ describe e)
                      ''routing_preview_failed'' 400))
               else Inl e
           | Inr d \<Rightarrow>
               let out = (\<lambda>reachable. Inr \<lparr> rp_requested_model = rd_requested_model d,
                             rp_canonical_model = rd_canonical_model d, rp_backend_id = rd_backend_id d,
                             rp_reason = rd_reason d, rp_backend_reachable = reachable \<rparr>)
               in (case rs_backends rs of
                     None \<Rightarrow> out True
                   | Some r \<Rightarrow>
                       (case registry_health (rd_backend_id d) False (clock (rd_backend_id d))
                               (probe (rd_backend_id d)) r of
                          Inr (h, _) \<Rightarrow> out (h_reachable h)
                        | Inl e \<Rightarrow> if is_Exception e then out False else Inl e))))"

section \<open>Runtime of backends\<close>

record backend_runtime =
  rt_reachable :: bool
  rt_server_version :: json
  rt_runtime_models :: "string list"
  rt_last_checked :: string
  rt_error :: "string option"

definition model_basename :: "string \<Rightarrow> string" where
  "model_basename s =
     (if backslash \<in> set s \<or> CHR ''/'' \<in> set s
      then after_last (CHR ''/'') (map (\<lambda>c. if c = backslash then CHR ''/'' else c) s)
      else s)"

definition discover_backend_runtime ::
  "(exn \<Rightarrow> string) \<Rightarrow> ('b \<Rightarrow> exn + model_info list) \<Rightarrow> string \<Rightarrow> time \<Rightarrow> (exn + health_result) \<Rightarrow> string
     \<Rightarrow> 'b backend_registry \<Rightarrow> exn + backend_runtime \<times> 'b backend_registry" where
  "discover_backend_runtime describe models stamp now probe i r =
     (let result = \<lparr> rt_reachable = False, rt_server_version = JNull, rt_runtime_models = [],
                     rt_last_checked = stamp, rt_error = None \<rparr>
      in case get_backend i r of
           Inl e \<Rightarrow>
             if is_Exception e
             then Inr (result\<lparr> rt_error := Some (''backend not configured: '' @ describe e) \<rparr>, r)
             else Inl e
         | Inr b \<Rightarrow>
             (case registry_health i True now probe r of
                Inl e \<Rightarrow>
                  if is_Exception e
                  then Inr (result\<lparr> rt_error := Some (''health probe failed: '' @ describe e) \<rparr>, r)
                  else Inl e
              | Inr (h, r) \<Rightarrow>
                  if \<not> h_reachable h
                  then Inr (result\<lparr> rt_error := Some (if h_reason h = [] then ''unreachable'' else h_reason h) \<rparr>, r)
                  else
                    let result = result\<lparr> rt_reachable := True, rt_server_version := h_server_version h \<rparr>
                    in (case models b of
                          Inl e \<Rightarrow>
                            if is_Exception e
                            then Inr (result\<lparr> rt_error := Some (''model discovery failed: '' @ describe e) \<rparr>, r)
                            else Inl e
                        | Inr ms \<Rightarrow>
                            Inr (result\<lparr> rt_runtime_models :=
                                   filter (\<lambda>n. n \<noteq> []) (map (\<lambda>m. model_basename (i_id m)) ms) \<rparr>, r))))"

definition derive_runtime_status :: "bool \<Rightarrow> string list \<Rightarrow> string option \<Rightarrow> string" where
  "derive_runtime_status reachable runtime_models error =
     (if str_or error [] \<noteq> [] \<and> \<not> reachable then ''offline''
      else if str_or error [] \<noteq> [] then ''error''
      else if \<not> reachable then ''offline''
      else if runtime_models = [] then ''no_model''
      else ''online'')"

record model_list_out =
  ml_id :: string
  ml_backend_id :: string
  ml_enabled :: bool
  ml_aliases :: "string list"
  ml_backend_reachable :: bool
  ml_runtime_loaded :: bool
  ml_runtime_model :: "string option"
  ml_runtime_status :: string

definition pick_runtime_model :: "string \<Rightarrow> string list \<Rightarrow> string option" where
  \<comment> \<open>the name shown for a model with this configured backend model\<close>
  "pick_runtime_model backend_model runtime_models =
     (case runtime_models of
        [] \<Rightarrow> None
      | [m] \<Rightarrow> Some m
      | m # _ \<Rightarrow>
          (case List.find (\<lambda>n. n = model_basename backend_model \<or> n = backend_model) runtime_models of
             Some n \<Rightarrow> Some n
           | None \<Rightarrow> Some m))"

definition model_list_item :: "(string \<times> backend_runtime) list \<Rightarrow> model_entry \<Rightarrow> model_list_out" where
  "model_list_item runtimes e =
     (let (reachable, models, error) =
            (case map_of runtimes (me_backend_id e) of
               None \<Rightarrow> (False, [], Some ''backend not configured'')
             | Some rt \<Rightarrow> (rt_reachable rt, rt_runtime_models rt, rt_error rt));
          st = derive_runtime_status reachable models error
      in \<lparr> ml_id = me_id e, ml_backend_id = me_backend_id e, ml_enabled = me_enabled e,
           ml_aliases = me_aliases e, ml_backend_reachable = reachable,
           ml_runtime_loaded = (st = ''online''),
           ml_runtime_model = (if reachable then pick_runtime_model (me_backend_model e) models else None),
           ml_runtime_status = st \<rparr>)"

definition discover_all ::
  "(exn \<Rightarrow> string) \<Rightarrow> ('b \<Rightarrow> exn + model_info list) \<Rightarrow> string \<Rightarrow> (string \<Rightarrow> time)
     \<Rightarrow> (string \<Rightarrow> exn + health_result) \<Rightarrow> 'b backend_registry
     \<Rightarrow> exn + (string \<times> backend_runtime) list \<times> 'b backend_registry" where
  "discover_all describe models stamp clock probe r =
     fold_res (\<lambda>i (out, r).
         case discover_backend_runtime describe models stamp (clock i) (probe i) i r of
           Inl e \<Rightarrow> Inl e
         | Inr (rt, r) \<Rightarrow> Inr (dict_set i rt out, r))
       (backend_ids r) ([], r)"

definition get_models ::
  "(exn \<Rightarrow> string) \<Rightarrow> ('b \<Rightarrow> exn + model_info list) \<Rightarrow> string \<Rightarrow> (string \<Rightarrow> time)
     \<Rightarrow> (string \<Rightarrow> exn + health_result) \<Rightarrow> 'b routing_service option \<Rightarrow> exn + bool \<times> model_list_out list" where
  "get_models describe models stamp clock probe router =
     (case router of
        None \<Rightarrow> Inr (False, [])
      | Some rs \<Rightarrow>
          if \<not> configured rs then Inr (False, [])
          else (case rs_models rs of
              None \<Rightarrow> Inr (False, [])
            | Some mr \<Rightarrow>
                (case (case rs_backends rs of
                         None \<Rightarrow> Inr []
                       | Some r \<Rightarrow> map_sum id fst (discover_all describe models stamp clock probe r)) of
                   Inl e \<Rightarrow> Inl e
                 | Inr runtimes \<Rightarrow> Inr (True, map (model_list_item runtimes) (list_all_models mr)))))"

record backend_list_item =
  bl_id :: string
  bl_type :: string
  bl_reachable :: bool
  bl_state :: string
  bl_reason :: string
  bl_runtime_model :: "string option"
  bl_runtime_models :: "string list"
  bl_server_version :: "string option"
  bl_last_checked :: "string option"
  bl_endpoint :: "string option"

definition failed_item :: "string \<Rightarrow> string \<Rightarrow> backend_list_item" where
  "failed_item i type =
     \<lparr> bl_id = i, bl_type = type, bl_reachable = False, bl_state = ''error'',
       bl_reason = ''health probe failed'', bl_runtime_model = None, bl_runtime_models = [],
       bl_server_version = None, bl_last_checked = None, bl_endpoint = None \<rparr>"

definition health_item ::
  "string \<Rightarrow> string \<Rightarrow> health_result \<Rightarrow> string option \<Rightarrow> string list \<Rightarrow> exn + string option
     \<Rightarrow> exn + backend_list_item" where
  "health_item i type h runtime_model runtime_models endpoint =
     (case endpoint of
        Inl e \<Rightarrow> Inl e
      | Inr endpoint \<Rightarrow>
          (case opt_str_field (if h_reachable h then h_server_version h else JNull) of
             Inl e \<Rightarrow> Inl e
           | Inr version \<Rightarrow>
               Inr \<lparr> bl_id = i, bl_type = type, bl_reachable = h_reachable h,
                     bl_state = health_state_value (h_state h), bl_reason = h_reason h,
                     bl_runtime_model = runtime_model, bl_runtime_models = runtime_models,
                     bl_server_version = version,
                     bl_last_checked = (if h_reachable h then h_last_checked h else None),
                     bl_endpoint = endpoint \<rparr>))"

definition caught :: "'a \<Rightarrow> exn + 'a \<Rightarrow> exn + 'a" where
  \<comment> \<open>\<open>except Exception\<close> with a value instead\<close>
  "caught v res = (case res of Inl e \<Rightarrow> if is_Exception e then Inr v else Inl e | Inr x \<Rightarrow> Inr x)"

definition endpoint_of :: "('b \<Rightarrow> string) \<Rightarrow> 'b backend_registry \<Rightarrow> string \<Rightarrow> exn + string option" where
  "endpoint_of url r i =
     (case get_backend i r of Inl e \<Rightarrow> Inl e | Inr b \<Rightarrow> safe_backend_endpoint (url b))"

definition backend_item ::
  "('b \<Rightarrow> string) \<Rightarrow> ('b \<Rightarrow> string) \<Rightarrow> (exn \<Rightarrow> string) \<Rightarrow> ('b \<Rightarrow> exn + model_info list) \<Rightarrow> string
     \<Rightarrow> (nat \<Rightarrow> string \<Rightarrow> time) \<Rightarrow> (nat \<Rightarrow> string \<Rightarrow> exn + health_result) \<Rightarrow> string
     \<Rightarrow> backend_list_item list \<times> 'b backend_registry \<Rightarrow> exn + backend_list_item list \<times> 'b backend_registry" where
  \<comment> \<open>each backend is probed twice, as probe 0 and 1\<close>
  "backend_item name url describe models stamp clock probe i = (\<lambda>(out, r).
     (let type = type_of_backend name r i;
          failed = (\<lambda>r. (out @ [failed_item i type], r))
      in case registry_health i True (clock 0 i) (probe 0 i) r of
           Inl e \<Rightarrow> caught (failed r) (Inl e)
         | Inr (h, r) \<Rightarrow>
             (case discover_backend_runtime describe models stamp (clock 1 i) (probe 1 i) i r of
                Inl e \<Rightarrow> caught (failed r) (Inl e)
              | Inr (rt, r) \<Rightarrow>
                  let primary = (case rt_runtime_models rt of
                                   m # _ \<Rightarrow> Some m
                                 | [] \<Rightarrow> if h_reachable h then h_model h else None)
                  in (case health_item i type h primary (rt_runtime_models rt) (endpoint_of url r i) of
                        Inr it \<Rightarrow> Inr (out @ [it], r)
                      | Inl e \<Rightarrow> caught (failed r) (Inl e)))))"

definition get_backends ::
  "('b \<Rightarrow> string) \<Rightarrow> ('b \<Rightarrow> string) \<Rightarrow> (exn \<Rightarrow> string) \<Rightarrow> ('b \<Rightarrow> exn + model_info list) \<Rightarrow> string
     \<Rightarrow> (nat \<Rightarrow> string \<Rightarrow> time) \<Rightarrow> (nat \<Rightarrow> string \<Rightarrow> exn + health_result) \<Rightarrow> 'b routing_service option
     \<Rightarrow> exn + bool \<times> backend_list_item list" where
  "get_backends name url describe models stamp clock probe router =
     (case router of
        None \<Rightarrow> Inr (False, [])
      | Some rs \<Rightarrow>
          if \<not> configured rs then Inr (False, [])
          else (case rs_backends rs of
              None \<Rightarrow> Inr (False, [])
            | Some r \<Rightarrow>
                (case fold_res (backend_item name url describe models stamp clock probe) (backend_ids r) ([], r) of
                   Inl e \<Rightarrow> Inl e
                 | Inr (out, _) \<Rightarrow> Inr (True, out))))"

section \<open>Overview\<close>

definition overview_item ::
  "('b \<Rightarrow> string) \<Rightarrow> ('b \<Rightarrow> string) \<Rightarrow> (string \<Rightarrow> time) \<Rightarrow> (string \<Rightarrow> exn + health_result) \<Rightarrow> string
     \<Rightarrow> backend_list_item list \<times> 'b backend_registry \<Rightarrow> exn + backend_list_item list \<times> 'b backend_registry" where
  "overview_item name url clock probe i = (\<lambda>(out, r).
     (let type = type_of_backend name r i;
          failed = (\<lambda>r. (out @ [failed_item i type], r))
      in case registry_health i True (clock i) (probe i) r of
           Inl e \<Rightarrow> caught (failed r) (Inl e)
         | Inr (h, r) \<Rightarrow>
             (case health_item i type h (if h_reachable h then h_model h else None) [] (endpoint_of url r i) of
                Inr it \<Rightarrow> Inr (out @ [it], r)
              | Inl e \<Rightarrow> caught (failed r) (Inl e))))"

definition overview_backends ::
  "('b \<Rightarrow> string) \<Rightarrow> ('b \<Rightarrow> string) \<Rightarrow> (string \<Rightarrow> time) \<Rightarrow> (string \<Rightarrow> exn + health_result)
     \<Rightarrow> 'b routing_service option \<Rightarrow> exn + backend_list_item list" where
  "overview_backends name url clock probe router =
     (case router of
        None \<Rightarrow> Inr []
      | Some rs \<Rightarrow>
          (case rs_backends rs of
             Some r \<Rightarrow> map_sum id fst (fold_res (overview_item name url clock probe) (backend_ids r) ([], r))
           | None \<Rightarrow>
               if \<not> configured rs
               then Inr [(failed_item ''default'' ''passthrough'')
                           \<lparr> bl_state := ''unknown'', bl_reason := ''passthrough mode'' \<rparr>]
               else Inr []))"

definition local_inference_of :: "backend_list_item list \<Rightarrow> (string \<times> json) list" where
  "local_inference_of items =
     (let entry = (\<lambda>model b st.
            [(''model'', opt_json JStr model), (''backend'', JStr (bl_id b)), (''type'', JStr (bl_type b)),
             (''status'', JStr st), (''endpoint'', opt_json JStr (bl_endpoint b))])
      in case List.find (\<lambda>b. bl_reachable b \<and> str_or (bl_runtime_model b) [] \<noteq> []) items of
           Some b \<Rightarrow> entry (bl_runtime_model b) b ''ONLINE''
         | None \<Rightarrow>
             (case List.find bl_reachable items of
                Some b \<Rightarrow> entry None b ''NO_MODEL''
              | None \<Rightarrow> (case items of [] \<Rightarrow> [] | b # _ \<Rightarrow> entry None b ''OFFLINE'')))"

record overview_out =
  ov_syn_healthy :: bool
  ov_routing_configured :: bool
  ov_routing_mode :: string
  ov_admission :: json
  ov_backends :: "backend_list_item list"
  ov_requests :: outcome_summary
  ov_tokens :: token_summary
  ov_latency :: "latency_stats option"
  ov_ttft :: "latency_stats option"
  ov_local_inference :: "(string \<times> json) list"

definition admission_counts :: "admission option \<Rightarrow> (int \<times> int) option" where
  "admission_counts adm = map_option (\<lambda>a. (st_active (status a), int (st_queued (status a)))) adm"

definition overview_admission :: "admission option \<Rightarrow> json" where
  "overview_admission adm =
     (case adm of
        Some a \<Rightarrow> admission_json (Some a)
      | None \<Rightarrow> JObj [(''active'', JInt 0), (''max_active'', JInt 0), (''queued'', JInt 0),
                      (''max_queue'', JInt 0), (''queue_timeout_seconds'', JFloat 0)])"

definition get_overview ::
  "bool \<Rightarrow> admission option \<Rightarrow> ('b \<Rightarrow> string) \<Rightarrow> ('b \<Rightarrow> string) \<Rightarrow> (string \<Rightarrow> time)
     \<Rightarrow> (string \<Rightarrow> exn + health_result) \<Rightarrow> 'b routing_service option \<Rightarrow> datetime \<Rightarrow> store option
     \<Rightarrow> exn + overview_out" where
  "get_overview wired adm name url clock probe router now db =
     (case get_observability_service wired of
        Inl e \<Rightarrow> Inl e
      | Inr _ \<Rightarrow>
          (case overview_backends name url clock probe router of
             Inl e \<Rightarrow> Inl e
           | Inr items \<Rightarrow>
               with_session db (\<lambda>s.
                 let (active, queued) = (case admission_counts adm of None \<Rightarrow> (0, 0) | Some c \<Rightarrow> c);
                     summary = obs_summary_of None None now active queued s;
                     latency = latency_map None None now s;
                     is_configured = (case router of None \<Rightarrow> False | Some rs \<Rightarrow> configured rs)
                 in Inr \<lparr> ov_syn_healthy = True, ov_routing_configured = is_configured,
                          ov_routing_mode = (if is_configured then ''configured'' else ''passthrough''),
                          ov_admission = overview_admission adm, ov_backends = items,
                          ov_requests = ob_requests summary, ov_tokens = ob_tokens summary,
                          ov_latency = map_of latency ''total_duration_ms'',
                          ov_ttft = map_of latency ''ttft_ms'',
                          ov_local_inference = local_inference_of items \<rparr>)))"

section \<open>Metrics\<close>

definition seconds_text :: "int option \<Rightarrow> string" where
  \<comment> \<open>\<open>_f(v and v / 1000)\<close>\<close>
  "seconds_text v =
     (case v of None \<Rightarrow> ''0'' | Some n \<Rightarrow> if n = 0 then ''0'' else show_decimal (of_int n / 1000))"

definition dq :: "string \<Rightarrow> string" where
  "dq s = CHR 0x22 # s @ [CHR 0x22]"

definition metrics_lines :: "obs_summary \<Rightarrow> latency_stats option \<Rightarrow> string list" where
  "metrics_lines sm ttft =
     (let requests = (\<lambda>st n. ''syn_requests_total{status='' @ dq st @ ''} '' @ show_int n);
          tokens = (\<lambda>t n. ''syn_tokens_total{type='' @ dq t @ ''} '' @ show_int n);
          quantile = (\<lambda>metric q v. metric @ ''{quantile='' @ dq q @ ''} '' @ seconds_text v)
      in [''# HELP syn_requests_total Total inference requests'',
          ''# TYPE syn_requests_total counter'',
          requests ''completed'' (os_completed (ob_requests sm)),
          requests ''failed'' (os_failed (ob_requests sm)),
          requests ''cancelled'' (os_cancelled (ob_requests sm)),
          requests ''timed_out'' (os_timed_out (ob_requests sm)),
          requests ''rejected'' (os_rejected (ob_requests sm)),
          [],
          ''# HELP syn_active_requests Currently active requests'',
          ''# TYPE syn_active_requests gauge'',
          ''syn_active_requests '' @ show_int (ob_active sm),
          [],
          ''# HELP syn_queued_requests Currently queued requests'',
          ''# TYPE syn_queued_requests gauge'',
          ''syn_queued_requests '' @ show_int (ob_queued sm),
          [],
          ''# HELP syn_tokens_total Total tokens processed'',
          ''# TYPE syn_tokens_total counter'',
          tokens ''prompt'' (ts_prompt (ob_tokens sm)),
          tokens ''completion'' (ts_completion (ob_tokens sm)),
          tokens ''total'' (ts_total (ob_tokens sm)),
          [],
          ''# HELP syn_request_duration_seconds Request duration statistics'',
          ''# TYPE syn_request_duration_seconds summary'',
          quantile ''syn_request_duration_seconds'' ''0.5'' (ls_p50_ms (ob_latency sm)),
          quantile ''syn_request_duration_seconds'' ''0.95'' (ls_p95_ms (ob_latency sm)),
          quantile ''syn_request_duration_seconds'' ''1.0'' (ls_max_ms (ob_latency sm)),
          [],
          ''# HELP syn_ttft_seconds Time to first token statistics'',
          ''# TYPE syn_ttft_seconds summary''] @
         (case ttft of
            Some l \<Rightarrow>
              if ls_count l > 0
              then [quantile ''syn_ttft_seconds'' ''0.5'' (ls_p50_ms l),
                    quantile ''syn_ttft_seconds'' ''0.95'' (ls_p95_ms l)]
              else [''syn_ttft_seconds{{quantile='' @ dq ''0.5'' @ ''}} 0'',
                    ''syn_ttft_seconds{{quantile='' @ dq ''0.95'' @ ''}} 0'']
          | None \<Rightarrow> [''syn_ttft_seconds{{quantile='' @ dq ''0.5'' @ ''}} 0'',
                     ''syn_ttft_seconds{{quantile='' @ dq ''0.95'' @ ''}} 0'']))"

definition prometheus_metrics :: "bool \<Rightarrow> admission option \<Rightarrow> datetime \<Rightarrow> store option \<Rightarrow> exn + string" where
  "prometheus_metrics wired adm now db =
     (case observability_summary wired (admission_counts adm) now db of
        Inl e \<Rightarrow> Inl e
      | Inr sm \<Rightarrow>
          (case observability_latency wired now db of
             Inl e \<Rightarrow> Inl e
           | Inr m \<Rightarrow> Inr (join [CHR 0x0A] (metrics_lines sm (map_of m ''ttft_ms'')) @ [CHR 0x0A])))"

section \<open>Settings\<close>

record settings_out =
  so_request_size_limit_bytes :: "int option"
  so_cors_allowed_origins :: "string list"
  so_queue_timeout_seconds :: "rat option"
  so_max_active_requests :: "int option"
  so_max_queued_requests :: "int option"
  so_admin_auth_configured :: bool
  so_routing_file_path :: "string option"

definition get_settings_route :: "settings option \<Rightarrow> settings_out" where
  \<comment> \<open>\<open>os.path.basename\<close> of POSIX\<close>
  "get_settings_route se =
     (case se of
        None \<Rightarrow>
          \<lparr> so_request_size_limit_bytes = None, so_cors_allowed_origins = [], so_queue_timeout_seconds = None,
            so_max_active_requests = None, so_max_queued_requests = None, so_admin_auth_configured = False,
            so_routing_file_path = None \<rparr>
      | Some s \<Rightarrow>
          \<lparr> so_request_size_limit_bytes = Some (se_max_request_body_bytes s),
            so_cors_allowed_origins = cors_origins_list (se_cors_allowed_origins s),
            so_queue_timeout_seconds = Some (se_queue_timeout_seconds s),
            so_max_active_requests = Some (se_max_active_requests s),
            so_max_queued_requests = Some (se_max_queue_size s),
            so_admin_auth_configured = (se_admin_secret s \<noteq> []),
            so_routing_file_path =
              (if se_routing_config_path s = [] then None
               else Some (after_last (CHR ''/'') (se_routing_config_path s))) \<rparr>)"

section \<open>What the operator's view shows\<close>

definition url_special :: "char set" where
  "url_special = {CHR ''@'', CHR ''/'', CHR ''?'', CHR ''#''}"

lemma set_after_last: "set (after_last c s) \<subseteq> set s"
  by (auto simp: after_last_def dest!: set_takeWhileD)

lemma after_last_cut: "after_last c (xs @ c # ys) = after_last c ys"
proof (cases "c \<in> set ys")
  case False
  then have "takeWhile (\<lambda>x. x \<noteq> c) (rev ys) = rev ys" by (auto simp: takeWhile_eq_all_conv)
  with False show ?thesis by (auto simp: after_last_def takeWhile_append simp del: takeWhile_eq_all_conv)
qed (auto simp: after_last_def takeWhile_append)

lemma set_after_first: "after_first c s = Some t \<Longrightarrow> set t \<subseteq> set s"
  by (auto simp: after_first_def split: list.splits dest: set_dropWhileD) (metis list.set_intros(2) set_dropWhileD)

lemma lower_char_special: "lower_char c \<in> url_special \<Longrightarrow> c \<in> url_special"
proof -
  assume l: "lower_char c \<in> url_special"
  then have "of_char (lower_char c) \<in> (of_char ` url_special :: nat set)" by (rule imageI)
  then have "of_char (lower_char c) \<in> {64, 47, 63, 35 :: nat}" by (simp add: url_special_def)
  then have "lower_char c = c" by (auto simp: lower_char_def Let_def split: if_splits)
  with l show ?thesis by simp
qed

lemma set_lower_host: "x \<in> set (lower_host h) \<Longrightarrow> x \<in> url_special \<Longrightarrow> x \<in> set h"
proof (unfold lower_host_def py_lower_def set_append Un_iff, elim disjE)
  let ?t = "takeWhile (\<lambda>c. c \<noteq> CHR ''%'') h"
  assume "x \<in> set (map lower_char ?t)" and x: "x \<in> url_special"
  then obtain c where c: "c \<in> set ?t" "x = lower_char c" by auto
  with x have "c \<in> url_special" using lower_char_special by blast
  then have "lower_char c = c" by (auto simp: url_special_def lower_char_def)
  with c show "x \<in> set h" by (auto dest: set_takeWhileD)
qed (auto dest: set_dropWhileD)

lemma show_nat_special: "set (show_nat n) \<inter> url_special = {}"
proof (induction n rule: show_nat.induct)
  case (1 n)
  have digit: "(char_of (48 + m) :: char) \<notin> url_special" if "m < 10" for m :: nat
  proof
    assume "(char_of (48 + m) :: char) \<in> url_special"
    then have "of_char (char_of (48 + m) :: char) \<in> (of_char ` url_special :: nat set)" by (rule imageI)
    with that show False by (auto simp: url_special_def)
  qed
  then show ?case using 1 by (subst show_nat.simps) auto
qed

lemma host_port_special:
  assumes "host_port netloc = (h, p)" and "set netloc \<inter> {CHR ''/'', CHR ''?'', CHR ''#''} = {}"
  shows "set h \<inter> url_special = {}"
proof -
  let ?info = "after_last (CHR ''@'') netloc"
  have info: "set ?info \<inter> url_special = {}"
    using assms(2) set_after_last[of "CHR ''@''" netloc] after_last_no_sep[of "CHR ''@''" netloc]
    by (auto simp: url_special_def)
  have "set h \<subseteq> set ?info"
    using assms(1) set_after_first[of "CHR ''[''" ?info]
    by (auto simp: host_port_def Let_def split: option.splits dest!: set_takeWhileD)
  with info show ?thesis by blast
qed

lemma netloc_chars: "url_netloc u = Inr n \<Longrightarrow> set n \<inter> {CHR ''/'', CHR ''?'', CHR ''#''} = {}"
  by (auto simp: url_netloc_def Let_def split: if_splits dest!: set_takeWhileD)

lemma endpoint_special:
  assumes "safe_backend_endpoint u = Inr (Some e)"
  shows "set e \<inter> url_special = {}"
proof -
  obtain n h p where n: "url_netloc u = Inr n" "host_port n = (h, p)"
    using assms by (auto simp: safe_backend_endpoint_def split: sum.splits prod.splits)
  from host_port_special[OF n(2) netloc_chars[OF n(1)]] have h: "set h \<inter> url_special = {}" .
  let ?h = "lower_host h"
  let ?host = "if CHR '':'' \<in> set ?h then ''['' @ ?h @ '']'' else ?h"
  have low: "set ?h \<inter> url_special = {}" using h set_lower_host by blast
  then have host: "set ?host \<inter> url_special = {}" by (auto simp: url_special_def)
  have "e = ?host \<or> (\<exists>k. e = ?host @ '':'' @ show_int k)"
    using assms n by (auto simp: safe_backend_endpoint_def Let_def split: sum.splits option.splits if_splits)
  then show ?thesis
  proof
    assume "\<exists>k. e = ?host @ '':'' @ show_int k"
    then obtain k where "e = ?host @ '':'' @ show_int k" ..
    moreover have "set (show_int k) \<inter> url_special = {}"
      using show_nat_special by (auto simp: show_int_def url_special_def)
    ultimately show ?thesis using host by (auto simp: url_special_def)
  qed (use host in simp)
qed

lemma split_http:
  "drop_scheme (''http:'' @ t) = t"
  by (simp add: drop_scheme_def ascii_letter_def scheme_char_def)

definition netloc_of :: "string \<Rightarrow> string" where
  "netloc_of t = takeWhile (\<lambda>c. c \<notin> {CHR ''/'', CHR ''?'', CHR ''#''})
     (filter (\<lambda>c. c \<notin> {char_of (9 :: nat), char_of (10 :: nat), char_of (13 :: nat)}) t)"

lemma url_netloc_http:
  "url_netloc (''http://'' @ t) =
     (if (CHR ''['' \<in> set (netloc_of t)) \<noteq> (CHR '']'' \<in> set (netloc_of t)) then Inl (PyError ''ValueError'')
      else Inr (netloc_of t))"
proof -
  have "filter (\<lambda>c. c \<notin> {char_of (9 :: nat), char_of (10 :: nat), char_of (13 :: nat)}) (''http://'' @ t) =
      ''http:'' @ ''//'' @ filter (\<lambda>c. c \<notin> {char_of (9 :: nat), char_of (10 :: nat), char_of (13 :: nat)}) t"
    by (simp add: char_of_def)
  moreover have "dropWhile (\<lambda>c. (of_char c :: nat) \<le> 32) (''http://'' @ t) = ''http://'' @ t" by simp
  ultimately show ?thesis
    unfolding url_netloc_def Let_def by (simp only: split_http) (simp add: netloc_of_def starts_with_def)
qed

lemma netloc_of_credentials:
  assumes "set cred \<inter> {CHR ''/'', CHR ''?'', CHR ''#''} = {}"
  shows "netloc_of (cred @ ''@'' @ rest) =
    filter (\<lambda>c. c \<notin> {char_of (9 :: nat), char_of (10 :: nat), char_of (13 :: nat)}) cred @ CHR ''@'' # netloc_of rest"
proof -
  have "\<forall>x\<in>set cred. x \<notin> {CHR ''/'', CHR ''?'', CHR ''#''}" using assms by auto
  then show ?thesis by (simp add: netloc_of_def char_of_def takeWhile_append)
qed

lemma url_netloc_credentials:
  assumes "set cred \<inter> {CHR ''/'', CHR ''?'', CHR ''#'', CHR ''['', CHR '']''} = {}"
  shows "(\<exists>e. url_netloc (''http://'' @ cred @ ''@'' @ rest) = Inl e \<and> url_netloc (''http://'' @ rest) = Inl e) \<or>
    (\<exists>xs n. url_netloc (''http://'' @ cred @ ''@'' @ rest) = Inr (xs @ CHR ''@'' # n) \<and>
            url_netloc (''http://'' @ rest) = Inr n)"
proof -
  have n: "netloc_of (cred @ ''@'' @ rest) =
      filter (\<lambda>c. c \<notin> {char_of (9 :: nat), char_of (10 :: nat), char_of (13 :: nat)}) cred @ CHR ''@'' # netloc_of rest"
    by (rule netloc_of_credentials) (use assms in auto)
  have b: "CHR ''['' \<notin> set cred" "CHR '']'' \<notin> set cred" using assms by auto
  show ?thesis unfolding url_netloc_http n using b by auto
qed

text \<open>The endpoint shown for a backend never carries the credentials of its URL: it is what the URL
  without them gives, and no endpoint contains a separator of user information, path, query or
  fragment.\<close>

lemma endpoint_hides_credentials:
  assumes "set cred \<inter> {CHR ''/'', CHR ''?'', CHR ''#'', CHR ''['', CHR '']''} = {}"
  shows "safe_backend_endpoint (''http://'' @ cred @ ''@'' @ rest) = safe_backend_endpoint (''http://'' @ rest) \<and>
    (\<forall>u e. safe_backend_endpoint u = Inr (Some e) \<longrightarrow>
       set e \<inter> {CHR ''@'', CHR ''/'', CHR ''?'', CHR ''#''} = {})"
proof
  show "safe_backend_endpoint (''http://'' @ cred @ ''@'' @ rest) = safe_backend_endpoint (''http://'' @ rest)"
    using url_netloc_credentials[OF assms, of rest]
    by (auto simp: safe_backend_endpoint_def host_port_def after_last_cut)
qed (simp add: endpoint_special[unfolded url_special_def])

lemma endpoint_hides_credentials_witness:
  "safe_backend_endpoint ''http://syn:pw@Host-1:8080/v1?k=2'' = Inr (Some ''host-1:8080'')"
proof -
  have "safe_backend_endpoint (''http://'' @ ''syn:pw'' @ ''@'' @ ''Host-1:8080/v1?k=2'') =
      safe_backend_endpoint (''http://'' @ ''Host-1:8080/v1?k=2'')"
    by (rule endpoint_hides_credentials [THEN conjunct1]) simp
  also have "\<dots> = Inr (Some ''host-1:8080'')"
  proof -
    have "url_netloc (''http://'' @ ''Host-1:8080/v1?k=2'') = Inr ''Host-1:8080''"
      unfolding url_netloc_http by (simp add: netloc_of_def char_of_def)
    moreover have "host_port ''Host-1:8080'' = (''Host-1'', Some ''8080'')"
      by (simp add: host_port_def after_last_def after_first_def)
    moreover have "lower_host ''Host-1'' = ''host-1''"
      by code_simp
    moreover have "url_port (Some ''8080'') = Inr (Some 8080)"
      by (simp add: url_port_def is_digit_def py_int_def py_strip_def py_lstrip_def py_rstrip_def py_space_def)
    moreover have "show_int 8080 = ''8080''" by (simp add: show_int_def show_nat.simps char_of_def bit_0)
    ultimately show ?thesis by (simp add: safe_backend_endpoint_def)
  qed
  finally show ?thesis by simp
qed

definition safe_name :: "string \<Rightarrow> bool" where
  "safe_name n \<longleftrightarrow> n \<noteq> [] \<and> CHR ''/'' \<notin> set n \<and> backslash \<notin> set n"

lemma model_basename_path: "CHR ''/'' \<notin> set (model_basename s) \<and> backslash \<notin> set (model_basename s)"
proof -
  let ?m = "map (\<lambda>c. if c = backslash then CHR ''/'' else c) s"
  have "backslash \<notin> set ?m" by (auto simp: backslash_def)
  then show ?thesis
    using set_after_last[of "CHR ''/''" ?m] after_last_no_sep[of "CHR ''/''" ?m]
    by (auto simp: model_basename_def)
qed

lemma discovered_names_safe:
  assumes "discover_backend_runtime describe models stamp now probe i r = Inr (rt, r')"
    and "n \<in> set (rt_runtime_models rt)"
  shows "safe_name n"
  using assms model_basename_path
  by (auto simp: discover_backend_runtime_def Let_def safe_name_def split: sum.splits if_splits)

lemma discover_all_safe:
  assumes "discover_all describe models stamp clock probe r = Inr (runtimes, r')"
    and "map_of runtimes i = Some rt" and "n \<in> set (rt_runtime_models rt)"
  shows "safe_name n"
proof -
  let ?P = "\<lambda>(out, r). \<forall>i rt. map_of out i = Some rt \<longrightarrow> (\<forall>n\<in>set (rt_runtime_models rt). safe_name n)"
  have "?P (runtimes, r')"
    by (rule fold_res_invariant[OF assms(1)[unfolded discover_all_def]])
      (auto split: sum.splits prod.splits if_splits dest: discovered_names_safe)
  with assms(2,3) show ?thesis by auto
qed

lemma find_mem: "List.find P xs = Some x \<Longrightarrow> x \<in> set xs"
  by (induction xs) (auto split: if_splits)

lemma pick_runtime_model_mem: "pick_runtime_model c ms = Some n \<Longrightarrow> n \<in> set ms"
  unfolding pick_runtime_model_def by (auto split: list.splits option.splits dest!: find_mem simp del: find.simps)

lemma pick_runtime_model_some: "ms \<noteq> [] \<Longrightarrow> pick_runtime_model c ms \<noteq> None"
  by (auto simp: pick_runtime_model_def split: list.splits option.splits)

lemma runtime_status_online:
  "derive_runtime_status reachable ms err = ''online'' \<longleftrightarrow> str_or err [] = [] \<and> reachable \<and> ms \<noteq> []"
  by (auto simp: derive_runtime_status_def)

lemma model_item_online:
  assumes "m = model_list_item runtimes e"
  shows "ml_runtime_loaded m \<longleftrightarrow> ml_runtime_status m = ''online''"
    and "ml_runtime_loaded m \<Longrightarrow> ml_backend_reachable m \<and> ml_runtime_model m \<noteq> None"
  using assms pick_runtime_model_some
  by (auto simp: model_list_item_def Let_def runtime_status_online split: option.splits)

lemma model_item_runtime:
  assumes "ml_runtime_model (model_list_item runtimes e) = Some n"
  shows "\<exists>rt. map_of runtimes (me_backend_id e) = Some rt \<and> rt_reachable rt \<and> n \<in> set (rt_runtime_models rt)"
  using assms pick_runtime_model_mem
  by (auto simp: model_list_item_def Let_def split: option.splits if_splits)


definition sample_service :: "unit routing_service" where
  "sample_service =
     \<lparr> rs_models = Some \<lparr> by_id = [(''m'', \<lparr> me_id = ''m'', me_backend_id = ''b'', me_backend_model = ''m.gguf'',
                                       me_enabled = True, me_aliases = [], me_metadata = [] \<rparr>)], by_alias = [] \<rparr>,
       rs_backends = Some (register ''b'' () (new_backend_registry 5)), rs_passthrough = False,
       rs_default = None \<rparr>"

definition sample_info :: model_info where
  "sample_info = \<lparr> i_id = ''/models/q.gguf'', i_object = JNull, i_owned_by = JNull, i_created = JNull \<rparr>"


subsection \<open>Failing probes\<close>

lemma registry_health_Exception:
  "registry_health i force now probe r = Inl e \<Longrightarrow> (\<And>e. probe = Inl e \<Longrightarrow> is_Exception e) \<Longrightarrow> is_Exception e"
  by (auto simp: registry_health_def get_backend_def Let_def split: sum.splits option.splits if_splits)

lemma discover_backend_runtime_Inr:
  assumes "\<And>e. probe = Inl e \<Longrightarrow> is_Exception e" "\<And>b e. models b = Inl e \<Longrightarrow> is_Exception e"
  shows "\<exists>rt r'. discover_backend_runtime describe models stamp now probe i r = Inr (rt, r')"
proof (cases "discover_backend_runtime describe models stamp now probe i r")
  case (Inl e)
  then show ?thesis
    using assms registry_health_Exception[of i True now probe r]
    by (auto simp: discover_backend_runtime_def get_backend_def Let_def split: sum.splits if_splits option.splits)
qed auto

definition item_of :: "('b \<Rightarrow> string) \<Rightarrow> string \<Rightarrow> backend_list_item \<Rightarrow> bool" where
  \<comment> \<open>an entry of the listing for this backend: of an unreachable one it shows no version\<close>
  "item_of name i it \<longleftrightarrow>
     bl_id it = i \<and> (\<not> bl_reachable it \<longrightarrow> bl_server_version it = None \<and> bl_last_checked it = None)"

lemma failed_item_of: "item_of name i (failed_item i t)"
  by (simp add: item_of_def failed_item_def)

lemma health_item_of: "health_item i t h m ms ep = Inr it \<Longrightarrow> item_of name i it"
  by (auto simp: item_of_def health_item_def opt_str_field_def split: sum.splits if_splits)

lemma safe_backend_endpoint_Exception: "safe_backend_endpoint u = Inl e \<Longrightarrow> is_Exception e"
  by (auto simp: safe_backend_endpoint_def url_netloc_def url_port_def Let_def
      split: sum.splits prod.splits option.splits if_splits)

lemma health_item_Exception:
  "health_item i t h m ms (endpoint_of url r i) = Inl e \<Longrightarrow> is_Exception e"
  by (auto simp: health_item_def opt_str_field_def endpoint_of_def get_backend_def
      intro: safe_backend_endpoint_Exception split: sum.splits if_splits json.splits option.splits)

lemma backend_item_collects:
  assumes "\<And>k i e. probe k i = Inl e \<Longrightarrow> is_Exception e" "\<And>b e. models b = Inl e \<Longrightarrow> is_Exception e"
  shows "\<exists>it r'. backend_item name url describe models stamp clock probe i (out, r) = Inr (out @ [it], r') \<and>
    item_of name i it"
proof (cases "registry_health i True (clock 0 i) (probe 0 i) r")
  case (Inl e)
  then have "is_Exception e" using registry_health_Exception assms(1) by metis
  with Inl show ?thesis
    by (auto simp: backend_item_def Let_def caught_def failed_item_of)
next
  case (Inr hr)
  obtain h r1 where h: "registry_health i True (clock 0 i) (probe 0 i) r = Inr (h, r1)" using Inr by (cases hr) auto
  obtain rt r2 where rt: "discover_backend_runtime describe models stamp (clock 1 i) (probe 1 i) i r1 = Inr (rt, r2)"
    using discover_backend_runtime_Inr[of "probe 1 i" models] assms by metis
  let ?it = "health_item i (type_of_backend name r i) h
      (case rt_runtime_models rt of m # _ \<Rightarrow> Some m | [] \<Rightarrow> if h_reachable h then h_model h else None)
      (rt_runtime_models rt) (endpoint_of url r2 i)"
  have run: "backend_item name url describe models stamp clock probe i (out, r) =
      (case ?it of
         Inr it \<Rightarrow> Inr (out @ [it], r2)
       | Inl e \<Rightarrow> caught (out @ [failed_item i (type_of_backend name r i)], r2) (Inl e))"
    unfolding backend_item_def by (simp only: Let_def h rt prod.case sum.case)
  show ?thesis
  proof (cases ?it)
    case (Inl e)
    with run health_item_Exception[OF Inl] failed_item_of show ?thesis by (auto simp: caught_def)
  next
    case (Inr it)
    with run health_item_of[OF Inr] show ?thesis by auto
  qed
qed

text \<open>C36: The listing of backends survives any failure: whatever the probes and the model discovery raise,
  it has one entry for each backend of the registry, in order, and an entry of an unreachable backend
  shows no version and no time of a check.\<close>

theorem backends_listing_total:
  assumes "\<forall>k i e. probe k i = Inl e \<longrightarrow> is_Exception e" "\<forall>b e. models b = Inl e \<longrightarrow> is_Exception e"
    and "configured rs" "rs_backends rs = Some r"
  shows "\<exists>out. get_backends name url describe models stamp clock probe (Some rs) = Inr (True, out) \<and>
    map bl_id out = backend_ids r \<and>
    (\<forall>it\<in>set out. \<not> bl_reachable it \<longrightarrow> bl_server_version it = None \<and> bl_last_checked it = None)"
proof -
  obtain ys r' where f: "fold_res (backend_item name url describe models stamp clock probe) (backend_ids r) ([], r) =
      Inr ([] @ ys, r')" and ys: "list_all2 (item_of name) (backend_ids r) ys"
    using fold_res_collect[of "backend_ids r" "backend_item name url describe models stamp clock probe"
        "item_of name" "[]" r] backend_item_collects assms(1,2) by metis
  have ids: "map bl_id ys = backend_ids r"
    using ys by (induction rule: list_all2_induct) (auto simp: item_of_def)
  have "\<forall>it\<in>set ys. \<exists>i. item_of name i it"
    using ys by (induction rule: list_all2_induct) auto
  with ids f show ?thesis by (auto simp: get_backends_def assms(3,4) item_of_def)
qed

theorem backends_listing_total_witness:
  "\<exists>it. get_backends (\<lambda>_. ''llama_cpp'') (\<lambda>_. ''http://h:1'') (\<lambda>_. []) (\<lambda>_. Inl (PyError ''OSError'')) ''t''
      (\<lambda>_ _. 10) (\<lambda>_ _. Inl (PyError ''OSError'')) (Some sample_service) = Inr (True, [it]) \<and>
    bl_id it = ''b''"
proof -
  have ids: "backend_ids (register ''b'' () (new_backend_registry 5)) = [''b'']"
    by (simp add: backend_ids_def register_def new_backend_registry_def)
  have "\<exists>out. get_backends (\<lambda>_. ''llama_cpp'') (\<lambda>_. ''http://h:1'') (\<lambda>_. []) (\<lambda>_. Inl (PyError ''OSError'')) ''t''
      (\<lambda>_ _. 10) (\<lambda>_ _. Inl (PyError ''OSError'')) (Some sample_service) = Inr (True, out) \<and>
    map bl_id out = backend_ids (register ''b'' () (new_backend_registry 5)) \<and>
    (\<forall>it\<in>set out. \<not> bl_reachable it \<longrightarrow> bl_server_version it = None \<and> bl_last_checked it = None)"
    by (rule backends_listing_total) (simp_all add: sample_service_def configured_def)
  then show ?thesis unfolding ids by (auto simp: map_eq_Cons_conv)
qed

end
