(* ===== verification/Health.thy ===== *)
theory Health
  imports LlamaCpp Router Config
begin

text \<open>
  The health endpoints, \<open>app/api/health.py\<close> with \<open>app/schemas/health.py\<close>.  A probe is its outcome, and
  \<open>tname\<close> the name of an exception's type; the registry of backends is threaded, for its cache.
\<close>

section \<open>Responses\<close>

record backend_health_body =
  bh_configured :: bool
  bh_reachable :: bool
  bh_state :: string
  bh_reason :: string
  bh_server_version :: "string option"
  bh_model :: "string option"

record health_response =
  hr_status :: string
  hr_service :: string
  hr_version :: string
  hr_environment :: string
  hr_backend :: backend_health_body
  hr_request_id :: "string option"

record readiness_response =
  rr_status :: string
  rr_database :: string
  rr_backend :: backend_health_body
  rr_request_id :: "string option"

definition make_backend_health ::
  "bool \<Rightarrow> bool \<Rightarrow> string \<Rightarrow> string \<Rightarrow> json \<Rightarrow> string option \<Rightarrow> exn + backend_health_body" where
  \<comment> \<open>the constructor, which validates the version\<close>
  "make_backend_health c reachable state reason version model =
     (case opt_str_field version of
        Inl e \<Rightarrow> Inl e
      | Inr v \<Rightarrow>
          Inr \<lparr> bh_configured = c, bh_reachable = reachable, bh_state = state, bh_reason = reason,
                bh_server_version = v, bh_model = model \<rparr>)"

section \<open>The probe\<close>

definition aggregate_health :: "(string \<times> health_result) list \<Rightarrow> exn + backend_health_body" where
  \<comment> \<open>of the results of all configured backends\<close>
  "aggregate_health hm =
     (let n = show_int (int (length hm));
          (state, reachable, reason) =
            (if list_all (\<lambda>(i, h). h_reachable h) hm
             then (''healthy'', True, ''all '' @ n @ '' backends reachable'')
             else if list_ex (\<lambda>(i, h). h_reachable h) hm
             then (''degraded'', True,
                   ''unreachable backends: '' @ join '', '' (map fst (filter (\<lambda>(i, h). \<not> h_reachable h) hm)))
             else (''unhealthy'', False, ''all '' @ n @ '' backends unreachable''));
          (model, version) =
            (case List.find (\<lambda>(i, h). h_reachable h) hm of
               None \<Rightarrow> (None, JNull)
             | Some (i, h) \<Rightarrow> (h_model h, h_server_version h))
      in make_backend_health True reachable state reason version model)"

definition backend_health_of ::
  "(exn \<Rightarrow> string) \<Rightarrow> (string \<Rightarrow> time) \<Rightarrow> (string \<Rightarrow> exn + health_result) \<Rightarrow> (exn + health_result) option
     \<Rightarrow> 'b routing_service option \<Rightarrow> exn + backend_health_body \<times> 'b routing_service option" where
  \<comment> \<open>\<open>_backend_health\<close>: \<open>dflt\<close> is the outcome of the default backend's probe, if it is wired\<close>
  "backend_health_of tname clock probe dflt router =
     (let single =
        map_sum id (\<lambda>h. (h, router))
          (case dflt of
             None \<Rightarrow>
               make_backend_health True False ''unknown'' ''backend not wired during startup'' JNull None
           | Some (Inl e) \<Rightarrow>
               if is_Exception e
               then make_backend_health True False ''unreachable'' (''health probe raised: '' @ tname e) JNull None
               else Inl e
           | Some (Inr h) \<Rightarrow>
               make_backend_health (h_configured h) (h_reachable h) (health_state_value (h_state h))
                 (h_reason h) (h_server_version h) (h_model h))
      in case router of
           None \<Rightarrow> single
         | Some rs \<Rightarrow>
             if \<not> configured rs then single
             else (case rs_backends rs of
                 None \<Rightarrow> single
               | Some r \<Rightarrow>
                   (case health_map False clock probe r of
                      Inl e \<Rightarrow> Inl e
                    | Inr (hm, r') \<Rightarrow>
                        map_sum id (\<lambda>h. (h, Some (rs\<lparr> rs_backends := Some r' \<rparr>))) (aggregate_health hm))))"

section \<open>The endpoints\<close>

definition liveness ::
  "settings \<Rightarrow> string option \<Rightarrow> exn + backend_health_body \<times> 'b routing_service option
     \<Rightarrow> exn + health_response \<times> 'b routing_service option" where
  \<comment> \<open>of the outcome of \<open>_backend_health\<close>\<close>
  "liveness se rid bh =
     map_sum id (\<lambda>(b, router).
       (\<lparr> hr_status = ''ok'', hr_service = ''syn'', hr_version = se_app_version se,
          hr_environment = environment_value (se_environment se), hr_backend = b, hr_request_id = rid \<rparr>,
        router)) bh"

definition database_ok :: "(exn + unit) option \<Rightarrow> exn + bool" where
  \<comment> \<open>the outcome of \<open>SELECT 1\<close>; None without an engine\<close>
  "database_ok db =
     (case db of
        None \<Rightarrow> Inr False
      | Some (Inr _) \<Rightarrow> Inr True
      | Some (Inl e) \<Rightarrow> if is_Exception e then Inr False else Inl e)"

definition readiness ::
  "string option \<Rightarrow> (exn + unit) option \<Rightarrow> exn + backend_health_body \<times> 'b routing_service option
     \<Rightarrow> exn + (int \<times> readiness_response) \<times> 'b routing_service option" where
  "readiness rid db bh =
     (case database_ok db of
        Inl e \<Rightarrow> Inl e
      | Inr ok \<Rightarrow>
          map_sum id (\<lambda>(b, router).
            ((if ok then 200 else 503,
              \<lparr> rr_status = (if ok then ''ready'' else ''not_ready''),
                rr_database = (if ok then ''ok'' else ''error''), rr_backend = b, rr_request_id = rid \<rparr>),
             router)) bh)"

section \<open>The aggregate over all backends\<close>

definition probed :: "exn + health_result \<Rightarrow> health_result" where
  "probed p = (case p of Inr h \<Rightarrow> h | Inl _ \<Rightarrow> probe_raised)"

lemma fresh_health:
  assumes "map_of (backends r) i \<noteq> None" "map_of (health_cache r) i = None"
    and "\<And>e. p = Inl e \<Longrightarrow> is_Exception e"
  shows "registry_health i force now p r =
    Inr (probed p, r\<lparr> health_cache := dict_set i (probed p) (health_cache r),
                      health_at := dict_set i now (health_at r) \<rparr>)"
  using assms by (auto simp: registry_health_def get_backend_def probed_def Let_def split: sum.split)

lemma dict_set_fresh: "i \<notin> set (keys_of d) \<Longrightarrow> dict_set i v d = d @ [(i, v)]"
  by (induction d) auto

lemma fresh_health_fold:
  assumes "distinct ids" "set ids \<subseteq> dom (map_of (backends r))" "\<forall>i\<in>set ids. map_of (health_cache r) i = None"
    and "\<forall>i\<in>set ids. i \<notin> set (keys_of out)" "\<And>i e. probe i = Inl e \<Longrightarrow> is_Exception e"
  shows "\<exists>r'. fold_res (\<lambda>i (out, r).
      (case registry_health i False (clock i) (probe i) r of
         Inl e \<Rightarrow> Inl e
       | Inr (res, r) \<Rightarrow> Inr (dict_set i res out, r))) ids (out, r) =
    Inr (out @ map (\<lambda>i. (i, probed (probe i))) ids, r') \<and> backends r' = backends r"
  using assms(1-4)
proof (induction ids arbitrary: out r)
  case (Cons i ids)
  let ?r = "r\<lparr> health_cache := dict_set i (probed (probe i)) (health_cache r),
               health_at := dict_set i (clock i) (health_at r) \<rparr>"
  have step: "registry_health i False (clock i) (probe i) r = Inr (probed (probe i), ?r)"
    by (rule fresh_health) (use Cons.prems assms(5) in auto)
  have "\<exists>r'. fold_res (\<lambda>i (out, r).
      (case registry_health i False (clock i) (probe i) r of
         Inl e \<Rightarrow> Inl e
       | Inr (res, r) \<Rightarrow> Inr (dict_set i res out, r))) ids (out @ [(i, probed (probe i))], ?r) =
    Inr ((out @ [(i, probed (probe i))]) @ map (\<lambda>i. (i, probed (probe i))) ids, r') \<and> backends r' = backends ?r"
    by (rule Cons.IH) (use Cons.prems in auto)
  moreover have "i \<notin> set (keys_of out)" using Cons.prems by simp
  ultimately show ?case using dict_set_fresh step by fastforce
qed simp

lemma fresh_health_map:
  assumes "distinct (backend_ids r)" "health_cache r = []" "\<And>i e. probe i = Inl e \<Longrightarrow> is_Exception e"
  shows "\<exists>r'. health_map False clock probe r = Inr (map (\<lambda>i. (i, probed (probe i))) (backend_ids r), r')"
  using fresh_health_fold[of "backend_ids r" r "[]" probe clock] assms
  by (auto simp: health_map_def backend_ids_def dom_map_of_conv_image_fst)

definition up :: "(string \<Rightarrow> exn + health_result) \<Rightarrow> string \<Rightarrow> bool" where
  "up probe i \<longleftrightarrow> h_reachable (probed (probe i))"

definition version_ok :: "json \<Rightarrow> bool" where
  "version_ok v \<longleftrightarrow> v = JNull \<or> (\<exists>s. v = JStr s)"

lemma opt_str_field_Inr: "version_ok v \<longleftrightarrow> (\<exists>s. opt_str_field v = Inr s)"
  by (cases v) (auto simp: version_ok_def opt_str_field_def)

lemma aggregate_health_of:
  assumes "\<forall>i\<in>set ids. version_ok (h_server_version (probed (probe i)))"
  shows "\<exists>b. aggregate_health (map (\<lambda>i. (i, probed (probe i))) ids) = Inr b \<and>
    (bh_state b, bh_reachable b, bh_reason b) =
      (if \<forall>i\<in>set ids. up probe i
       then (''healthy'', True, ''all '' @ show_int (int (length ids)) @ '' backends reachable'')
       else if \<exists>i\<in>set ids. up probe i
       then (''degraded'', True, ''unreachable backends: '' @ join '', '' (filter (\<lambda>i. \<not> up probe i) ids))
       else (''unhealthy'', False, ''all '' @ show_int (int (length ids)) @ '' backends unreachable''))"
proof -
  let ?hm = "map (\<lambda>i. (i, probed (probe i))) ids"
  have all: "list_all (\<lambda>(i, h). h_reachable h) ?hm \<longleftrightarrow> (\<forall>i\<in>set ids. up probe i)"
    by (simp add: list_all_iff up_def)
  have ex: "list_ex (\<lambda>(i, h). h_reachable h) ?hm \<longleftrightarrow> (\<exists>i\<in>set ids. up probe i)"
    by (simp add: list_ex_iff up_def)
  have down: "map fst (filter (\<lambda>(i, h). \<not> h_reachable h) ?hm) = filter (\<lambda>i. \<not> up probe i) ids"
    by (induction ids) (auto simp: up_def)
  obtain model version where mv: "(case List.find (\<lambda>(i, h). h_reachable h) ?hm of
               None \<Rightarrow> (None, JNull)
             | Some (i, h) \<Rightarrow> (h_model h, h_server_version h)) = (model, version)" by (meson surj_pair)
  have "version = JNull \<or> (\<exists>i\<in>set ids. version = h_server_version (probed (probe i)))"
    using mv by (auto split: option.splits simp: find_Some_iff) (metis nth_mem)
  then have "version_ok version" using assms by (auto simp: version_ok_def)
  then obtain v where v: "opt_str_field version = Inr v" by (auto simp: opt_str_field_Inr)
  show ?thesis
    unfolding aggregate_health_def mv all ex down
    by (simp add: Let_def make_backend_health_def v)
qed


definition two_backends :: "unit routing_service" where
  "two_backends =
     \<lparr> rs_models = None, rs_backends = Some (register ''b'' () (register ''a'' () (new_backend_registry 5))),
       rs_passthrough = False, rs_default = None \<rparr>"


section \<open>Readiness and failures\<close>

text \<open>Readiness depends on the database alone: whatever the backends' health says, the answer is 200
  and \<open>ready\<close> when the database answers, and 503 and \<open>not_ready\<close> when it raises or is not connected.\<close>

lemma readiness_of_database:
  assumes "\<forall>e. db = Some (Inl e) \<longrightarrow> is_Exception e" "bh = Inr (b, router)"
  shows "\<exists>resp. readiness rid db bh = Inr ((if db = Some (Inr ()) then 200 else 503, resp), router) \<and>
    rr_status resp = (if db = Some (Inr ()) then ''ready'' else ''not_ready'') \<and> rr_backend resp = b"
  using assms by (cases "db = Some (Inr ())")
    (auto simp: readiness_def database_ok_def split: option.splits sum.splits)

lemma readiness_of_database_witness:
  "\<exists>b router resp. readiness None (Some (Inl (PyError ''OperationalError'')))
      (backend_health_of (\<lambda>_. []) (\<lambda>_. 0) (\<lambda>_. Inr sample_health) None (None :: unit routing_service option)) =
        Inr ((503, resp), router) \<and> rr_backend resp = b \<and> bh_state b = ''unknown''"
proof -
  obtain b where b: "backend_health_of (\<lambda>_. []) (\<lambda>_. 0) (\<lambda>_. Inr sample_health) None (None :: unit routing_service option)
      = Inr (b, None)" "bh_state b = ''unknown''"
    by (simp add: backend_health_of_def make_backend_health_def opt_str_field_def)
  show ?thesis
    using readiness_of_database[of "Some (Inl (PyError ''OperationalError''))" _ b None None, OF _ b(1)] b by auto
qed

text \<open>A backend that reports a version which is no string makes the liveness endpoint itself fail: the
  probe copies the field unchecked and the validation of the response's field raises outside the
  handler of probe failures.\<close>

lemma liveness_fails_on_version:
  assumes "backend_health isa (Inr http) (Inr ms) elapsed utcnow last_state = Inr (h, st)"
    and "status_code http = 200" "body_json http = Inr (JObj d)" "json_get d ''status'' = JStr ''ok''"
    and "json_get d ''version'' = JInt n"
  shows "liveness se rid (backend_health_of tname clock probe (Some (Inr h)) (None :: 'b routing_service option)) =
    Inl (PyError ''ValidationError'')"
proof -
  have "h_server_version h = JInt n"
    using assms by (auto simp: backend_health_def record_health_def Let_def split: sum.splits)
  then show ?thesis
    by (simp add: liveness_def backend_health_of_def make_backend_health_def opt_str_field_def)
qed

lemma liveness_fails_on_version_witness:
  "\<exists>h st. backend_health (\<lambda>_ _. False)
      (Inr \<lparr> status_code = 200, body_json = Inr (JObj [(''status'', JStr ''ok''), (''version'', JInt 3)]) \<rparr>)
      (Inr []) 1 ''now'' None = Inr (h, st) \<and>
    liveness default_settings None
      (backend_health_of (\<lambda>_. []) (\<lambda>_. 0) (\<lambda>_. Inr h) (Some (Inr h)) (None :: unit routing_service option)) =
      Inl (PyError ''ValidationError'')"
proof -
  let ?d = "[(''status'', JStr ''ok''), (''version'', JInt 3)]"
  let ?http = "\<lparr> status_code = 200, body_json = Inr (JObj ?d) \<rparr>"
  have g: "json_get ?d ''status'' = JStr ''ok''" "json_get ?d ''version'' = JInt 3" by (simp_all add: json_get_def)
  obtain h st where h: "backend_health (\<lambda>_ _. False) (Inr ?http) (Inr []) 1 ''now'' None = Inr (h, st)"
    by (simp add: backend_health_def Let_def g record_health_def runtime_model_info_def)
  then show ?thesis using liveness_fails_on_version[OF h, of ?d 3] g by auto
qed

end
