(* ===== verification/Database.thy ===== *)
theory Database
  imports Prelude
begin

text \<open>
  The owner of the database's engine, \<open>app/db/session.py\<close>: connecting, disposing and the text of the
  DSN that is logged.  \<open>create_engine\<close> and the session factory are SQLAlchemy's: the engine is a
  parameter, a function of the URL and of whether the thread check of SQLite is turned off.
\<close>

section \<open>The logged DSN\<close>

fun partition_at :: "'a list \<Rightarrow> 'a list \<Rightarrow> ('a list \<times> 'a list) option" where
  \<comment> \<open>\<open>s.partition(marker)\<close> for a marker that is not empty; None if it does not occur\<close>
  "partition_at m [] = None"
| "partition_at m (c # cs) =
     (if starts_with m (c # cs) then Some ([], drop (length m) (c # cs))
      else map_option (\<lambda>(a, b). (c # a, b)) (partition_at m cs))"

definition dsn_authority :: "string \<Rightarrow> string" where
  "dsn_authority authority =
     (if CHR ''@'' \<in> set authority then after_last (CHR ''@'') authority else authority)"

definition redact_dsn :: "string \<Rightarrow> string" where
  "redact_dsn dsn =
     (case partition_at ''://'' dsn of
        None \<Rightarrow> dsn
      | Some (scheme, rest) \<Rightarrow>
          let authority = takeWhile (\<lambda>c. c \<noteq> CHR ''/'') rest;
              remainder = tl (dropWhile (\<lambda>c. c \<noteq> CHR ''/'') rest)
          in scheme @ ''://'' @ dsn_authority authority @ remainder)"

section \<open>The connection\<close>

record 'e database =
  db_url :: string
  db_engine :: "'e option"
  db_session_factory :: "'e option" \<comment> \<open>the engine it is bound to\<close>

definition new_database :: "string \<Rightarrow> 'e database" where
  "new_database url = \<lparr> db_url = url, db_engine = None, db_session_factory = None \<rparr>"

definition connect :: "(string \<Rightarrow> bool \<Rightarrow> 'x + 'e) \<Rightarrow> 'e database \<Rightarrow> 'x + 'e database \<times> string list" where
  \<comment> \<open>with the lines it logs\<close>
  "connect create_engine db =
     (if db_engine db \<noteq> None then Inr (db, [])
      else (case create_engine (db_url db) (starts_with ''sqlite'' (db_url db)) of
              Inl x \<Rightarrow> Inl x
            | Inr e \<Rightarrow>
                Inr (db\<lparr> db_engine := Some e, db_session_factory := Some e \<rparr>,
                     [''database engine ready ('' @ redact_dsn (db_url db) @ '')''])))"

definition dispose :: "'e database \<Rightarrow> 'e database \<times> 'e list \<times> string list" where
  \<comment> \<open>with the engines it disposes of\<close>
  "dispose db =
     (db\<lparr> db_engine := None, db_session_factory := None \<rparr>,
      (case db_engine db of None \<Rightarrow> [] | Some e \<Rightarrow> [e]),
      (case db_engine db of None \<Rightarrow> [] | Some _ \<Rightarrow> [''database engine disposed'']))"

section \<open>What is logged\<close>

lemma partition_at_scheme:
  assumes "CHR '':'' \<notin> set scheme"
  shows "partition_at ''://'' (scheme @ ''://'' @ rest) = Some (scheme, rest)"
  using assms by (induction scheme) (auto simp: starts_with_def)

lemma dsn_authority_credentials:
  assumes "CHR ''@'' \<notin> set host"
  shows "dsn_authority (cred @ ''@'' @ host) = host"
proof -
  have "takeWhile (\<lambda>c. c \<noteq> CHR ''@'') (rev host @ CHR ''@'' # rev cred) = rev host"
    using assms by (subst takeWhile_append2) auto
  then show ?thesis by (simp add: dsn_authority_def after_last_def)
qed

lemma redact_dsn_split:
  assumes "CHR '':'' \<notin> set scheme" "CHR ''/'' \<notin> set authority"
  shows "redact_dsn (scheme @ ''://'' @ authority @ ''/'' @ path) = scheme @ ''://'' @ dsn_authority authority @ path"
proof -
  have "takeWhile (\<lambda>c. c \<noteq> CHR ''/'') (authority @ ''/'' @ path) = authority"
    "dropWhile (\<lambda>c. c \<noteq> CHR ''/'') (authority @ ''/'' @ path) = ''/'' @ path"
    using assms(2) by (induction authority) auto
  then show ?thesis
    using partition_at_scheme[OF assms(1), of "authority @ ''/'' @ path"] by (simp add: redact_dsn_def Let_def)
qed

text \<open>The log of a connection shows nothing of a DSN's credentials when they contain no slash; the
  slash before the path is dropped with them.  Of credentials that contain one, all that follows the
  slash is logged.\<close>

lemma redacted_dsn:
  assumes "CHR '':'' \<notin> set scheme" "CHR ''/'' \<notin> set cred" "set host \<inter> {CHR ''/'', CHR ''@''} = {}"
  shows "redact_dsn (scheme @ ''://'' @ cred @ ''@'' @ host @ ''/'' @ path) = scheme @ ''://'' @ host @ path"
    and "CHR ''@'' \<notin> set cred \<Longrightarrow>
      redact_dsn (scheme @ ''://'' @ cred @ ''/'' @ secret @ ''@'' @ host @ ''/'' @ path) =
      scheme @ ''://'' @ cred @ secret @ ''@'' @ host @ ''/'' @ path"
proof -
  have "dsn_authority (cred @ ''@'' @ host) = host"
    by (rule dsn_authority_credentials) (use assms(3) in auto)
  with redact_dsn_split[OF assms(1), of "cred @ ''@'' @ host" path] assms(2,3)
  show "redact_dsn (scheme @ ''://'' @ cred @ ''@'' @ host @ ''/'' @ path) = scheme @ ''://'' @ host @ path"
    by auto
  show "redact_dsn (scheme @ ''://'' @ cred @ ''/'' @ secret @ ''@'' @ host @ ''/'' @ path) =
      scheme @ ''://'' @ cred @ secret @ ''@'' @ host @ ''/'' @ path" if "CHR ''@'' \<notin> set cred"
    using redact_dsn_split[OF assms(1,2), of "secret @ ''@'' @ host @ ''/'' @ path"] that
    by (simp add: dsn_authority_def)
qed

lemma redacted_dsn_witness:
  "redact_dsn (''pg'' @ ''://'' @ ''u:pw'' @ ''@'' @ ''h:5432'' @ ''/'' @ ''syn'') = ''pg'' @ ''://'' @ ''h:5432'' @ ''syn'' \<and>
   redact_dsn (''pg'' @ ''://'' @ ''u:p'' @ ''/'' @ ''w'' @ ''@'' @ ''h:5432'' @ ''/'' @ ''syn'') =
     ''pg'' @ ''://'' @ ''u:p'' @ ''w'' @ ''@'' @ ''h:5432'' @ ''/'' @ ''syn''"
proof
  show "redact_dsn (''pg'' @ ''://'' @ ''u:pw'' @ ''@'' @ ''h:5432'' @ ''/'' @ ''syn'') = ''pg'' @ ''://'' @ ''h:5432'' @ ''syn''"
    by (rule redacted_dsn(1)) simp_all
  show "redact_dsn (''pg'' @ ''://'' @ ''u:p'' @ ''/'' @ ''w'' @ ''@'' @ ''h:5432'' @ ''/'' @ ''syn'') =
     ''pg'' @ ''://'' @ ''u:p'' @ ''w'' @ ''@'' @ ''h:5432'' @ ''/'' @ ''syn''"
    by (rule redacted_dsn(2)) simp_all
qed

section \<open>Connecting once\<close>

definition database_inv :: "'e database \<Rightarrow> bool" where
  "database_inv db \<longleftrightarrow> db_session_factory db = db_engine db"

text \<open>The session factory exists exactly while the engine does and is bound to it; connecting again
  creates no second engine and logs nothing, and disposing afterwards disposes of that one engine and
  gives back the unconnected database.\<close>

lemma connect_once:
  assumes "database_inv db" "connect ce db = Inr (db1, out)"
  shows "database_inv db1 \<and> connect ce' db1 = Inr (db1, []) \<and>
    (\<exists>e. db_engine db1 = Some e \<and>
       dispose db1 = (new_database (db_url db), [e], [''database engine disposed'']))"
proof -
  obtain e where "db1 = \<lparr> db_url = db_url db, db_engine = Some e, db_session_factory = Some e \<rparr>"
    using assms by (cases db) (auto simp: connect_def database_inv_def split: if_splits sum.splits)
  then show ?thesis by (simp add: database_inv_def connect_def dispose_def new_database_def)
qed

lemma connect_once_witness:
  "\<exists>db1 out. connect (\<lambda>_ _. Inr (7 :: nat) :: unit + nat) (new_database ''sqlite:///x'') = Inr (db1, out) \<and>
     dispose db1 = (new_database ''sqlite:///x'', [7], [''database engine disposed''])"
proof -
  let ?ce = "\<lambda>_ _. Inr (7 :: nat) :: unit + nat"
  obtain db1 out where c: "connect ?ce (new_database ''sqlite:///x'') = Inr (db1, out)" "db_engine db1 = Some 7"
    by (simp add: connect_def new_database_def)
  show ?thesis
    using connect_once[OF _ c(1), of ?ce] c by (auto simp: database_inv_def new_database_def)
qed

end
