(* ===== verification/Cli.thy ===== *)
theory Cli
  imports Auth ModelRegistry
begin

text \<open>
  The bootstrap commands of \<open>app/cli.py\<close>, over the database directly.  Argparse's reading of the
  command line is outside the sources and gives a \<open>cli_command\<close>; \<open>fmt\<close> is \<open>isoformat\<close>.  A command
  returns what it prints and its exit status, with the store it leaves.
\<close>

section \<open>The commands\<close>

datatype cli_command =
    CreateUser string
  | CreateClient string string "string option" "string list option"
  | CreateApiKey string string
  | RevokeApiKey string

record cli_result =
  out_lines :: "string list"
  err_lines :: "string list"
  exit_code :: int

definition dash :: string where
  \<comment> \<open>the dash of the message, in UTF-8\<close>
  "dash = map char_of [226, 128, 148 :: nat]"

definition repr_strs :: "string list \<Rightarrow> string" where
  "repr_strs ms = ''['' @ join '', '' (map repr_str ms) @ '']''"

definition cli_finish :: "store \<Rightarrow> exn + string list \<times> store \<Rightarrow> exn + cli_result \<times> store" where
  \<comment> \<open>the handler around every command\<close>
  "cli_finish s res =
     (case res of
        Inr (out, s') \<Rightarrow> Inr (\<lparr> out_lines = out, err_lines = [], exit_code = 0 \<rparr>, s')
      | Inl (Syn e) \<Rightarrow>
          Inr (\<lparr> out_lines = [], err_lines = [''error: '' @ e_detail e @ '' ('' @ e_code e @ '')''],
                 exit_code = 1 \<rparr>, s)
      | Inl e \<Rightarrow> Inl e)"

definition cmd_create_user ::
  "string \<Rightarrow> string \<Rightarrow> datetime \<Rightarrow> store \<Rightarrow> exn + cli_result \<times> store" where
  "cmd_create_user name uid now s =
     cli_finish s
       (case create_user name uid now s of
          Inl e \<Rightarrow> Inl e
        | Inr (u, s') \<Rightarrow>
            Inr ([''Created user:'', ''  id    = '' @ u_id u, ''  name  = '' @ u_name u,
                  ''  status= '' @ u_status u], s'))"

definition cmd_create_client ::
  "string \<Rightarrow> string \<Rightarrow> string option \<Rightarrow> string list option \<Rightarrow> string \<Rightarrow> datetime \<Rightarrow> store
     \<Rightarrow> exn + cli_result \<times> store" where
  "cmd_create_client user_id name description allowed_model cid now s =
     (let allowed = (case allowed_model of Some (m # ms) \<Rightarrow> Some (m # ms) | _ \<Rightarrow> None)
      in cli_finish s
           (case create_client user_id name description allowed cid now s of
              Inl e \<Rightarrow> Inl e
            | Inr (c, s') \<Rightarrow>
                Inr ([''Created client:'', ''  id              = '' @ c_id c,
                      ''  user_id         = '' @ c_user_id c, ''  name            = '' @ c_name c] @
                     (case c_description c of
                        Some (x # xs) \<Rightarrow> [''  description     = '' @ x # xs]
                      | _ \<Rightarrow> []) @
                     (case allowed of
                        Some ms \<Rightarrow> [''  allowed_models  = '' @ repr_strs ms]
                      | None \<Rightarrow> []), s')))"

definition cmd_create_api_key ::
  "(string \<Rightarrow> string) \<Rightarrow> rng \<Rightarrow> string \<Rightarrow> string \<Rightarrow> string \<Rightarrow> datetime \<Rightarrow> store
     \<Rightarrow> exn + cli_result \<times> store" where
  "cmd_create_api_key h r client_id name kid now s =
     cli_finish s
       (case create_api_key h r client_id name None kid now s of
          Inl e \<Rightarrow> Inl e
        | Inr ((k, full_token), s') \<Rightarrow>
            Inr ([''Created API key:'', ''  id        = '' @ k_id k, ''  name      = '' @ k_name k,
                  ''  prefix    = '' @ k_prefix k, ''  client_id = '' @ k_client_id k, [],
                  ''API KEY (shown once '' @ dash @ '' store securely now):'', ''  '' @ full_token], s'))"

definition cmd_revoke_api_key ::
  "(datetime \<Rightarrow> string) \<Rightarrow> string \<Rightarrow> datetime \<Rightarrow> store \<Rightarrow> exn + cli_result \<times> store" where
  "cmd_revoke_api_key fmt api_key_id now s =
     cli_finish s
       (case revoke_api_key api_key_id now s of
          Inl e \<Rightarrow> Inl e
        | Inr (k, s') \<Rightarrow>
            Inr ([''Revoked API key:'', ''  id          = '' @ k_id k, ''  prefix      = '' @ k_prefix k,
                  ''  revoked_at  = '' @ (case k_revoked_at k of None \<Rightarrow> ''n/a'' | Some t \<Rightarrow> fmt t)], s'))"

fun cli_main ::
  "(string \<Rightarrow> string) \<Rightarrow> rng \<Rightarrow> (datetime \<Rightarrow> string) \<Rightarrow> string \<Rightarrow> datetime \<Rightarrow> cli_command \<Rightarrow> store
     \<Rightarrow> exn + cli_result \<times> store" where
  \<comment> \<open>\<open>new_id\<close> is the id of a row the command inserts\<close>
  "cli_main h r fmt new_id now (CreateUser name) s = cmd_create_user name new_id now s"
| "cli_main h r fmt new_id now (CreateClient user_id name description allowed_model) s =
     cmd_create_client user_id name description allowed_model new_id now s"
| "cli_main h r fmt new_id now (CreateApiKey client_id name) s =
     cmd_create_api_key h r client_id name new_id now s"
| "cli_main h r fmt new_id now (RevokeApiKey i) s = cmd_revoke_api_key fmt i now s"

section \<open>What a command leaves\<close>

lemma cli_finish_cases:
  assumes "cli_finish s res = Inr (c, s')"
  shows "(exit_code c = 0 \<and> err_lines c = [] \<and> res = Inr (out_lines c, s')) \<or>
    (exit_code c = 1 \<and> out_lines c = [] \<and> s' = s \<and> (\<exists>e. res = Inl (Syn e) \<and>
       err_lines c = [''error: '' @ e_detail e @ '' ('' @ e_code e @ '')'']))"
  using assms by (auto simp: cli_finish_def split: sum.splits exn.splits)

definition accounted :: "(string \<Rightarrow> string) \<Rightarrow> store \<Rightarrow> cli_result \<Rightarrow> store \<Rightarrow> bool" where
  "accounted h s c s' \<longleftrightarrow>
     (exit_code c = 0 \<and> err_lines c = [] \<and> svc_step h s s') \<or>
     (exit_code c = 1 \<and> out_lines c = [] \<and> s' = s \<and> length (err_lines c) = 1)"

lemma cmd_accounted:
  "cmd_create_user n i now s = Inr (c, s') \<Longrightarrow> accounted h s c s'"
  "cmd_create_client ui n d al i now s = Inr (c, s') \<Longrightarrow> accounted h s c s'"
  "cmd_create_api_key h r ci n i now s = Inr (c, s') \<Longrightarrow> accounted h s c s'"
  "cmd_revoke_api_key fmt i now s = Inr (c, s') \<Longrightarrow> accounted h s c s'"
  unfolding cmd_create_user_def cmd_create_client_def cmd_create_api_key_def cmd_revoke_api_key_def Let_def
  by (drule cli_finish_cases; auto simp: accounted_def split: sum.splits prod.splits
      intro: svc_create_user svc_create_client svc_create_key svc_revoke)+

text \<open>A command of the CLI does all or nothing: it exits with 0 after exactly one operation of the
  service and prints no error, or it exits with 1, prints one line of error and leaves the database as
  it was.\<close>

lemma cli_all_or_nothing:
  assumes "cli_main h r fmt new_id now cmd s = Inr (c, s')"
  shows "(exit_code c = 0 \<and> err_lines c = [] \<and> svc_step h s s') \<or>
    (exit_code c = 1 \<and> out_lines c = [] \<and> s' = s \<and> length (err_lines c) = 1)"
proof -
  have "accounted h s c s'" using assms cmd_accounted by (cases cmd) auto
  then show ?thesis by (simp add: accounted_def)
qed

text \<open>The key printed by \<open>create-api-key\<close> works at once: the last line of a successful run is the
  token, and as a bearer token it authenticates as the given client, unless a stored key has its hash.\<close>

lemma cli_key_works:
  assumes "store_ok s" "rng_ok r"
    and "cli_main h r fmt new_id now (CreateApiKey ci n) s = Inr (c, s')" "exit_code c = 0"
  shows "\<exists>t. last (out_lines c) = ''  '' @ t \<and>
    ((\<forall>k\<in>set (api_keys s). k_hash k \<noteq> h t) \<longrightarrow>
       (\<exists>p db'. authenticate_request h ok now' (Some (''Bearer '' @ t)) (Some s') = (Inr p, db') \<and>
          p_api_key_id p = new_id \<and> p_client_id p = ci))"
proof -
  obtain k t where k: "create_api_key h r ci n None new_id now s = Inr ((k, t), s')"
    and out: "last (out_lines c) = ''  '' @ t"
  proof (cases "create_api_key h r ci n None new_id now s")
    case (Inl e)
    with assms(3,4) show ?thesis by (cases e) (auto simp: cmd_create_api_key_def cli_finish_def)
  next
    case (Inr res)
    obtain k t s1 where res: "res = ((k, t), s1)" by (metis surj_pair)
    from assms(3) have "s' = s1" "last (out_lines c) = ''  '' @ t"
      by (auto simp: cmd_create_api_key_def cli_finish_def Inr res)
    with Inr res that show ?thesis by simp
  qed
  show ?thesis using fresh_key_authenticates[OF assms(1,2) k] out by auto
qed

lemma cli_all_or_nothing_witness:
  "\<exists>c. cli_main id sample_rng (\<lambda>_. []) ''u2'' 5 (CreateUser '' '') sample_store = Inr (c, sample_store) \<and>
     exit_code c = 1 \<and> length (err_lines c) = 1"
proof -
  have "create_user '' '' ''u2'' 5 sample_store = Inl empty_name_error"
    by (simp add: create_user_def py_defs)
  then obtain c where c: "cli_main id sample_rng (\<lambda>_. []) ''u2'' 5 (CreateUser '' '') sample_store =
      Inr (c, sample_store)" "exit_code c = 1"
    by (simp add: cmd_create_user_def cli_finish_def empty_name_error_def)
  then show ?thesis using cli_all_or_nothing[OF c(1)] by auto
qed

lemma cli_key_works_witness:
  "\<exists>c s' t. cli_main id sample_rng (\<lambda>_. []) ''k2'' 5 (CreateApiKey ''c1'' ''second'') sample_store = Inr (c, s') \<and>
     exit_code c = 0 \<and> last (out_lines c) = ''  '' @ t"
proof -
  obtain c where c: "cli_main id sample_rng (\<lambda>_. []) ''k2'' 5 (CreateApiKey ''c1'' ''second'') sample_store =
      Inr (c, snd sample_request_key)" "exit_code c = 0"
  proof -
    obtain k t s1 where kt: "sample_request_key = ((k, t), s1)" by (metis surj_pair)
    show ?thesis
      using that sample_created by (simp add: kt cmd_create_api_key_def cli_finish_def)
  qed
  show ?thesis using cli_key_works[OF sample_store_ok sample_rng_ok c] c by blast
qed

end
