(* ===== verification/Lifecycle.thy ===== *)
theory Lifecycle
  imports Router Config Database Usage Admission_Safety
begin

text \<open>
  Starting and stopping the gateway, \<open>lifespan\<close> of \<open>app/main.py\<close>.  What the code asks of libraries and
  of the file system is the environment: the outcomes of creating the engine and the tables and the
  file of the routing configuration.  The engines and HTTP clients that are opened and closed are a
  trace, so that what a run leaves open can be read off it.
\<close>

section \<open>Starting\<close>

datatype resource = Engine | DefaultClient | ConfiguredClient string

datatype resource_event = Opened resource | Closed resource

record startup_env =
  en_create_engine :: "string \<Rightarrow> bool \<Rightarrow> exn + unit"
  en_create_tables :: "exn + unit"
  en_routing_file :: "(exn + string) option"
  en_loads :: "string \<Rightarrow> string + json"
  en_classes :: class_registry

record app_state =
  as_settings :: settings
  as_database :: "unit database"
  as_backend :: backend
  as_router :: "backend routing_service"
  as_backend_registry :: "backend backend_registry option"
  as_admission :: admission
  as_rate_limiter :: rate_limiter
  as_usage_service :: usage_service

definition timeouts_of :: "settings \<Rightarrow> timeouts" where
  "timeouts_of se =
     \<lparr> backend_timeout_seconds = se_backend_timeout_seconds se,
       backend_connect_timeout_seconds = se_backend_connect_timeout_seconds se,
       backend_health_timeout_seconds = se_backend_health_timeout_seconds se \<rparr>"

definition opened_clients :: "startup_env \<Rightarrow> settings \<Rightarrow> resource_event list" where
  \<comment> \<open>what \<open>build_routing\<close> opens: the clients of the configured backends up to the first that cannot be built\<close>
  "opened_clients env se =
     (case load_routing_config (en_routing_file env) (en_loads env) of
        Inr (Some raw) \<Rightarrow>
          (case parse_routing_config raw of
             Inl _ \<Rightarrow> []
           | Inr parsed \<Rightarrow>
               map (\<lambda>bc. Opened (ConfiguredClient (bc_id bc)))
                 (takeWhile (\<lambda>bc. \<not> isl (get_backend_class (en_classes env) (bc_type bc)))
                    (pr_backends parsed)))
      | _ \<Rightarrow> [])"

definition make_admission :: "settings \<Rightarrow> exn + admission" where
  \<comment> \<open>\<open>asyncio.Semaphore\<close> refuses a negative value\<close>
  "make_admission se =
     (if se_max_active_requests se < 0 then Inl (PyError ''ValueError'')
      else Inr (new_admission (nat (se_max_active_requests se)) (nat (se_max_queue_size se))
                  (se_queue_timeout_seconds se)))"

definition usage_of :: "settings \<Rightarrow> usage_service" where
  "usage_of se =
     \<lparr> default_rpm = se_default_requests_per_minute se, default_rpd = se_default_requests_per_day se,
       default_tpd = se_default_tokens_per_day se \<rparr>"

definition lifespan_start :: "startup_env \<Rightarrow> settings \<Rightarrow> (exn + app_state) \<times> resource_event list" where
  "lifespan_start env se =
     (case connect (en_create_engine env) (new_database (se_database_url se)) of
        Inl e \<Rightarrow> (Inl e, [])
      | Inr (db, _) \<Rightarrow>
          let evs = [Opened Engine];
              tables = (if se_environment se \<in> {Development, Testing} then en_create_tables env else Inr ())
          in (case tables of
                Inl e \<Rightarrow> (Inl e, evs)
              | Inr _ \<Rightarrow>
                  (case build_backend (en_classes env) (se_backend_type se) (se_backend_base_url se)
                          (se_backend_timeout_seconds se) (se_backend_connect_timeout_seconds se)
                          (se_backend_health_timeout_seconds se) of
                     Inl e \<Rightarrow> (Inl e, evs)
                   | Inr b \<Rightarrow>
                       let evs = evs @ [Opened DefaultClient] @ opened_clients env se
                       in (case build_routing (en_routing_file env) (en_loads env) (en_classes env)
                                  (timeouts_of se) (Some b) of
                             Inl e \<Rightarrow> (Inl e, evs)
                           | Inr (rs, reg) \<Rightarrow>
                               (case make_admission se of
                                  Inl e \<Rightarrow> (Inl e, evs)
                                | Inr adm \<Rightarrow>
                                    (Inr \<lparr> as_settings = se, as_database = db, as_backend = b, as_router = rs,
                                           as_backend_registry = reg, as_admission = adm,
                                           as_rate_limiter = new_limiter 60, as_usage_service = usage_of se \<rparr>,
                                     evs))))))"

section \<open>Stopping\<close>

definition lifespan_stop :: "app_state \<Rightarrow> app_state \<times> resource_event list" where
  "lifespan_stop st =
     (case dispose (as_database st) of
        (db, engines, _) \<Rightarrow>
          (st\<lparr> as_database := db \<rparr>, Closed DefaultClient # map (\<lambda>_. Closed Engine) engines))"

fun left_open :: "resource_event list \<Rightarrow> resource list" where
  \<comment> \<open>the resources a trace leaves open\<close>
  "left_open [] = []"
| "left_open (Opened x # evs) = (if Closed x \<in> set evs then left_open evs else x # left_open evs)"
| "left_open (Closed x # evs) = left_open evs"

section \<open>A started gateway\<close>

lemma registered_ids:
  assumes "fold_res (register_config classes ts) bcs r = Inr r'" "distinct (map bc_id bcs)"
    and "set (map bc_id bcs) \<inter> set (backend_ids r) = {}"
  shows "backend_ids r' = backend_ids r @ map bc_id bcs \<and>
    (\<forall>bc\<in>set bcs. \<not> isl (get_backend_class classes (bc_type bc)))"
  using assms
proof (induction bcs arbitrary: r)
  case (Cons bc bcs)
  obtain r1 where r1: "register_config classes ts bc r = Inr r1"
    "fold_res (register_config classes ts) bcs r1 = Inr r'"
    using Cons.prems(1) by (auto simp: res_simps)
  then have ids: "backend_ids r1 = backend_ids r @ [bc_id bc]"
    and cls: "\<not> isl (get_backend_class classes (bc_type bc))"
    using Cons.prems(3)
    by (auto simp: register_config_def register_def backend_ids_def keys_of_dict_set build_backend_def
        split: sum.splits)
  have "backend_ids r' = backend_ids r1 @ map bc_id bcs \<and>
    (\<forall>bc\<in>set bcs. \<not> isl (get_backend_class classes (bc_type bc)))"
    by (rule Cons.IH[OF r1(2)]) (use Cons.prems(2,3) ids in auto)
  with ids cls show ?case by simp
qed (simp add: backend_ids_def)

lemma opened_configured:
  assumes "build_routing (en_routing_file env) (en_loads env) (en_classes env) (timeouts_of se) b = Inr (rs, reg)"
  shows "opened_clients env se =
    (case reg of None \<Rightarrow> [] | Some br \<Rightarrow> map (\<lambda>i. Opened (ConfiguredClient i)) (backend_ids br))"
proof (cases "load_routing_config (en_routing_file env) (en_loads env)")
  case (Inl e)
  with assms show ?thesis by (simp add: build_routing_def)
next
  case (Inr res)
  show ?thesis
  proof (cases res)
    case None
    with assms Inr show ?thesis by (auto simp: build_routing_def opened_clients_def)
  next
    case (Some raw)
    from assms Inr Some obtain parsed br where p: "parse_routing_config raw = Inr parsed" "reg = Some br"
      and f: "fold_res (register_config (en_classes env) (timeouts_of se)) (pr_backends parsed)
        (new_backend_registry (backend_health_timeout_seconds (timeouts_of se))) = Inr br"
      by (auto simp: build_routing_def split: sum.splits)
    have "distinct (map bc_id (pr_backends parsed))"
      using parse_config_ok[OF p(1)] by (simp add: config_ok_def backends_ok_def)
    from registered_ids[OF f this]
    have ids: "backend_ids br = map bc_id (pr_backends parsed)"
      and cls: "\<forall>bc\<in>set (pr_backends parsed). \<not> isl (get_backend_class (en_classes env) (bc_type bc))"
      by (auto simp: backend_ids_def new_backend_registry_def)
    have "takeWhile (\<lambda>bc. \<not> isl (get_backend_class (en_classes env) (bc_type bc))) (pr_backends parsed) =
        pr_backends parsed" using cls by (simp add: takeWhile_eq_all_conv)
    then show ?thesis by (simp add: opened_clients_def Inr Some p ids del: takeWhile_eq_all_conv)
  qed
qed

lemma lifespan_started:
  assumes "lifespan_start env se = (Inr st, evs)"
  obtains b rs reg adm where
    "build_routing (en_routing_file env) (en_loads env) (en_classes env) (timeouts_of se) (Some b) = Inr (rs, reg)"
    "make_admission se = Inr adm"
    "st = \<lparr> as_settings = se,
            as_database = \<lparr> db_url = se_database_url se, db_engine = Some (), db_session_factory = Some () \<rparr>,
            as_backend = b, as_router = rs, as_backend_registry = reg, as_admission = adm,
            as_rate_limiter = new_limiter 60, as_usage_service = usage_of se \<rparr>"
    "evs = [Opened Engine, Opened DefaultClient] @ opened_clients env se"
  using assms
  by (auto simp: lifespan_start_def Let_def connect_def new_database_def split: sum.splits prod.splits if_splits)

lemma left_open_append_closed:
  "left_open (map (\<lambda>i. Opened (ConfiguredClient i)) ids @ [Closed DefaultClient, Closed Engine]) =
     map ConfiguredClient ids"
  by (induction ids) auto

text \<open>What a run of the gateway leaves open: stopping closes the engine and the client of the default
  backend, and never the client of a configured backend, so exactly those of the registry stay open.\<close>

lemma shutdown_leaves:
  assumes "lifespan_start env se = (Inr st, evs)" "lifespan_stop st = (st', evs')"
  shows "left_open (evs @ evs') =
    (case as_backend_registry st of None \<Rightarrow> [] | Some br \<Rightarrow> map ConfiguredClient (backend_ids br))"
proof -
  obtain b rs reg adm where
    r: "build_routing (en_routing_file env) (en_loads env) (en_classes env) (timeouts_of se) (Some b) = Inr (rs, reg)"
    and st: "st = \<lparr> as_settings = se,
            as_database = \<lparr> db_url = se_database_url se, db_engine = Some (), db_session_factory = Some () \<rparr>,
            as_backend = b, as_router = rs, as_backend_registry = reg, as_admission = adm,
            as_rate_limiter = new_limiter 60, as_usage_service = usage_of se \<rparr>"
    and evs: "evs = [Opened Engine, Opened DefaultClient] @ opened_clients env se"
    by (rule lifespan_started[OF assms(1)])
  have "evs' = [Closed DefaultClient, Closed Engine]"
    using assms(2) by (simp add: lifespan_stop_def st dispose_def)
  then show ?thesis
    by (cases reg) (simp_all add: evs st opened_configured[OF r] left_open_append_closed)
qed

text \<open>A gateway that starts from validated settings starts in a good state: its admission controller
  satisfies the controller's invariant with at least one slot, the rate limiter's window is a minute,
  the engine is connected, and the routing service is configured exactly when there is a registry.\<close>

lemma started_ready:
  assumes "validate_settings pr raw = Inr se" "lifespan_start env se = (Inr st, evs)"
  shows "adm_inv (as_admission st) \<and> 0 < max_active (as_admission st) \<and>
    int (max_active (as_admission st)) = se_max_active_requests raw \<and>
    int (max_queue (as_admission st)) = se_max_queue_size raw \<and>
    window_seconds (as_rate_limiter st) = 60 \<and> database_inv (as_database st) \<and>
    db_engine (as_database st) \<noteq> None \<and>
    (configured (as_router st) \<longleftrightarrow> as_backend_registry st \<noteq> None)"
proof -
  obtain b rs reg adm where
    r: "build_routing (en_routing_file env) (en_loads env) (en_classes env) (timeouts_of se) (Some b) = Inr (rs, reg)"
    and adm: "make_admission se = Inr adm"
    and st: "st = \<lparr> as_settings = se,
            as_database = \<lparr> db_url = se_database_url se, db_engine = Some (), db_session_factory = Some () \<rparr>,
            as_backend = b, as_router = rs, as_backend_registry = reg, as_admission = adm,
            as_rate_limiter = new_limiter 60, as_usage_service = usage_of se \<rparr>"
    by (rule lifespan_started[OF assms(2)])
  have se: "settings_errors pr raw = []" "se = raw\<lparr> se_log_level := py_upper (py_strip (se_log_level raw)) \<rparr>"
    using assms(1) by (auto simp: validate_settings_def split: if_splits)
  then have ok: "1 \<le> se_max_active_requests raw" "0 \<le> se_max_queue_size raw"
    by (simp_all add: settings_errors_Nil settings_ok_def)
  have a: "adm = new_admission (nat (se_max_active_requests raw)) (nat (se_max_queue_size raw))
      (se_queue_timeout_seconds raw)"
    using adm ok by (simp add: make_admission_def se(2) split: if_splits)
  have "configured rs \<longleftrightarrow> reg \<noteq> None"
    using r by (auto simp: build_routing_def configured_def split: sum.splits option.splits)
  moreover have "max_active adm = nat (se_max_active_requests raw)" "max_queue adm = nat (se_max_queue_size raw)"
    by (simp_all add: a new_admission_def)
  ultimately show ?thesis
    using ok by (simp add: st database_inv_def new_limiter_def) (simp add: a adm_inv_new)
qed

section \<open>A run\<close>

definition sample_env :: startup_env where
  "sample_env =
     \<lparr> en_create_engine = (\<lambda>_ _. Inr ()), en_create_tables = Inr (), en_routing_file = Some (Inr ''{}''),
       en_loads = (\<lambda>_. Inr (JObj sample_config)), en_classes = sample_classes \<rparr>"

lemma sample_start:
  "\<exists>st evs br. lifespan_start sample_env default_settings = (Inr st, evs) \<and> as_backend_registry st = Some br"
proof -
  have ts: "timeouts_of default_settings = sample_timeouts"
    by (simp add: timeouts_of_def default_settings_def sample_timeouts_def)
  obtain rs br where b: "build_routing (Some (Inr ''{}'')) (\<lambda>_. Inr (JObj sample_config)) sample_classes sample_timeouts None
       = Inr (rs, Some br)"
    by (rule sample_built)
  have c: "build_routing (Some (Inr ''{}'')) (\<lambda>_. Inr (JObj sample_config)) sample_classes sample_timeouts d
       = Inr (rs, Some br)" for d
    using b by (auto simp: build_routing_def split: sum.splits option.splits)
  obtain k where k: "build_backend sample_classes LLAMA_CPP (se_backend_base_url default_settings) 120 10 5 = Inr k"
    by (simp add: build_backend_def get_backend_class_def sample_classes_def)
  have se: "se_backend_type default_settings = LLAMA_CPP" "se_backend_timeout_seconds default_settings = 120"
    "se_backend_connect_timeout_seconds default_settings = 10"
    "se_backend_health_timeout_seconds default_settings = 5" "se_max_active_requests default_settings = 1"
    by (simp_all add: default_settings_def)
  show ?thesis
    unfolding lifespan_start_def sample_env_def
    by (simp add: connect_def new_database_def ts c k se make_admission_def)
qed

lemma default_settings_valid: "validate_settings (\<lambda>_. []) default_settings = Inr default_settings"
proof -
  have "py_upper (py_strip ''INFO'') = ''INFO''" using log_levels_normal by (simp add: log_levels_def)
  then have "settings_errors (\<lambda>_. []) default_settings = []"
    by (simp add: settings_errors_Nil log_levels_def settings_ok_def default_settings_def cors_origins_list_def
        validate_cors_def py_defs)
  then show ?thesis
    using \<open>py_upper (py_strip ''INFO'') = ''INFO''\<close> by (simp add: validate_settings_def) (simp add: default_settings_def)
qed

lemma shutdown_leaves_witness:
  "\<exists>st evs br st' evs'. lifespan_start sample_env default_settings = (Inr st, evs) \<and>
     lifespan_stop st = (st', evs') \<and> as_backend_registry st = Some br \<and>
     left_open (evs @ evs') = map ConfiguredClient (backend_ids br)"
proof -
  obtain st evs br where s: "lifespan_start sample_env default_settings = (Inr st, evs)" "as_backend_registry st = Some br"
    using sample_start by blast
  obtain st' evs' where t: "lifespan_stop st = (st', evs')" by (metis surj_pair)
  show ?thesis using shutdown_leaves[OF s(1) t] s t by auto
qed

lemma started_ready_witness:
  "\<exists>st evs. lifespan_start sample_env default_settings = (Inr st, evs) \<and> adm_inv (as_admission st) \<and>
     int (max_active (as_admission st)) = 1"
proof -
  obtain st evs where s: "lifespan_start sample_env default_settings = (Inr st, evs)"
    using sample_start by blast
  show ?thesis using started_ready[OF default_settings_valid s] s by (auto simp: default_settings_def)
qed

end
