(* ===== verification/Dashboard.thy ===== *)
theory Dashboard
  imports AdminApi Backends Admission
begin

text \<open>
  The server-rendered dashboard of \<open>app/api/admin.py\<close>: \<open>admin_dashboard\<close> and \<open>_render_dashboard\<close>, the
  page line by line.
\<close>

section \<open>Texts of values\<close>

definition ms_text :: "int option \<Rightarrow> string" where
  "ms_text v = (case v of None \<Rightarrow> ''-'' | Some n \<Rightarrow> show_int n @ ''ms'')"

definition status_class :: "string \<Rightarrow> string" where
  "status_class st =
     (case map_of [(''completed'', ''ok''), (''failed'', ''err''), (''cancelled'', ''warn''),
                   (''timed_out'', ''warn''), (''rejected'', ''err'')] st of
        None \<Rightarrow> [] | Some c \<Rightarrow> c)"

fun group3 :: "string \<Rightarrow> string" where
  \<comment> \<open>of the digits from the last\<close>
  "group3 (a # b # c # d # ds) = a # b # c # CHR '','' # group3 (d # ds)"
| "group3 ds = ds"

definition group_int :: "int \<Rightarrow> string" where
  \<comment> \<open>the format \<open>:,\<close>\<close>
  "group_int n = (if n < 0 then ''-'' else []) @ rev (group3 (rev (show_nat (nat \<bar>n\<bar>))))"

definition two_digits :: "int \<Rightarrow> string" where
  "two_digits n = (if n < 10 then ''0'' else []) @ show_int n"

definition hms :: "datetime \<Rightarrow> string" where
  \<comment> \<open>\<open>strftime("%H:%M:%S")\<close> of a time in microseconds\<close>
  "hms t =
     (let n = (t div 1000000) mod 86400
      in two_digits (n div 3600) @ '':'' @ two_digits (n div 60 mod 60) @ '':'' @ two_digits (n mod 60))"

section \<open>The page\<close>

definition dashboard_row :: "recent_request \<Rightarrow> string" where
  "dashboard_row r =
     join [CHR 0x0A]
       [''<tr>'',
        ''            <td>'' @ take 12 (rr_request_id r) @ ''...</td>'',
        ''            <td>'' @ hms (rr_started_at r) @ ''</td>'',
        ''            <td>'' @ rr_model r @ ''</td>'',
        ''            <td>'' @ (if rr_streaming r then ''S'' else ''NS'') @ ''</td>'',
        ''            <td class=\"'' @ status_class (rr_status r) @ ''\">'' @ rr_status r @ ''</td>'',
        ''            <td>'' @ str_or (rr_error_code r) ''-'' @ ''</td>'',
        ''            <td>'' @ ms_text (rr_total_duration_ms r) @ ''</td>'',
        ''            <td>'' @ ms_text (rr_ttft_ms r) @ ''</td>'',
        ''            <td>'' @ (case rr_total_tokens r of None \<Rightarrow> ''-'' | Some n \<Rightarrow> show_int n) @ ''</td>'',
        ''        </tr>'']"

definition page_head :: "string list" where
  "page_head =
     [''<!DOCTYPE html>'',
      ''<html lang=\"en\">'',
      ''<head>'',
      ''<meta charset=\"utf-8\">'',
      ''<meta name=\"viewport\" content=\"width=device-width, initial-scale=1\">'',
      ''<title>Syn Admin Dashboard</title>'',
      ''<style>'',
      ''* { margin: 0; padding: 0; box-sizing: border-box; }'',
      ''body { font-family: -apple-system, BlinkMacSystemFont, 'Segoe UI', sans-serif; background: #0d1117; color: #c9d1d9; padding: 20px; }'',
      ''h1 { color: #58a6ff; margin-bottom: 16px; font-size: 1.4em; }'',
      ''.cards { display: grid; grid-template-columns: repeat(auto-fill, minmax(200px, 1fr)); gap: 12px; margin-bottom: 20px; }'',
      ''.card { background: #161b22; border: 1px solid #30363d; border-radius: 6px; padding: 14px; }'',
      ''.card .label { font-size: 0.75em; color: #8b949e; text-transform: uppercase; letter-spacing: 0.05em; display: block; }'',
      ''.card .value { font-size: 1.5em; font-weight: 600; margin-top: 4px; }'',
      ''.card .value.ok { color: #3fb950; }'',
      ''.card .value.err { color: #f85149; }'',
      ''.card .value.warn { color: #d29922; }'',
      ''h2 { color: #58a6ff; font-size: 1.1em; margin: 20px 0 10px; }'',
      ''table { width: 100%; border-collapse: collapse; background: #161b22; border: 1px solid #30363d; border-radius: 6px; overflow: hidden; font-size: 0.85em; }'',
      ''th { background: #21262d; color: #8b949e; text-align: left; padding: 8px 10px; font-weight: 500; }'',
      ''td { padding: 6px 10px; border-top: 1px solid #21262d; }'',
      ''.ok { color: #3fb950; }'',
      ''.err { color: #f85149; }'',
      ''.warn { color: #d29922; }'',
      ''.meta { color: #8b949e; font-size: 0.8em; margin-top: 20px; }'',
      ''</style>'',
      ''</head>'']"

definition page_cards ::
  "obs_summary \<Rightarrow> latency_stats \<Rightarrow> string \<Rightarrow> bool \<Rightarrow> int \<Rightarrow> int \<Rightarrow> int \<Rightarrow> int \<Rightarrow> string list" where
  "page_cards summary ttft backend_state backend_reachable act queued mx_active mx_queue =
     [''<body>'',
      ''<h1>Syn Admin Dashboard</h1>'',
      ''<div class=\"cards\">'',
      ''  <div class=\"card\">'',
      ''    <div class=\"label\">Service</div>'',
      ''    <div class=\"value ok\">Running</div>'',
      ''  </div>'',
      ''  <div class=\"card\">'',
      ''    <div class=\"label\">Backend</div>'',
      ''    <div class=\"value '' @ (if backend_reachable then ''ok'' else ''err'') @ ''\">'' @ backend_state @ ''</div>'',
      ''  </div>'',
      ''  <div class=\"card\">'',
      ''    <div class=\"label\">Active</div>'',
      ''    <div class=\"value blue\">'' @ show_int act @ ''/'' @ show_int mx_active @ ''</div>'',
      ''  </div>'',
      ''  <div class=\"card\">'',
      ''    <div class=\"label\">Queued</div>'',
      ''    <div class=\"value blue\">'' @ show_int queued @ ''/'' @ show_int mx_queue @ ''</div>'',
      ''  </div>'',
      ''</div>'',
      ''<div class=\"cards\">'',
      ''  <div class=\"card\">'',
      ''    <div class=\"label\">Completed</div>'',
      ''    <div class=\"value ok\">'' @ show_int (os_completed (ob_requests summary)) @ ''</div>'',
      ''  </div>'',
      ''  <div class=\"card\">'',
      ''    <div class=\"label\">Failed</div>'',
      ''    <div class=\"value err\">'' @ show_int (os_failed (ob_requests summary)) @ ''</div>'',
      ''  </div>'',
      ''  <div class=\"card\">'',
      ''    <div class=\"label\">Cancelled</div>'',
      ''    <div class=\"value warn\">'' @ show_int (os_cancelled (ob_requests summary)) @ ''</div>'',
      ''  </div>'',
      ''  <div class=\"card\">'',
      ''    <div class=\"label\">Rejected</div>'',
      ''    <div class=\"value err\">'' @ show_int (os_rejected (ob_requests summary) + os_timed_out (ob_requests summary)) @ ''</div>'',
      ''  </div>'',
      ''</div>'',
      ''<div class=\"cards\">'',
      ''  <div class=\"card\">'',
      ''    <div class=\"label\">Prompt Tokens</div>'',
      ''    <div class=\"value blue\">'' @ group_int (ts_prompt (ob_tokens summary)) @ ''</div>'',
      ''  </div>'',
      ''  <div class=\"card\">'',
      ''    <div class=\"label\">Completion Tokens</div>'',
      ''    <div class=\"value blue\">'' @ group_int (ts_completion (ob_tokens summary)) @ ''</div>'',
      ''  </div>'',
      ''  <div class=\"card\">'',
      ''    <div class=\"label\">Total Tokens</div>'',
      ''    <div class=\"value blue\">'' @ group_int (ts_total (ob_tokens summary)) @ ''</div>'',
      ''  </div>'',
      ''</div>'',
      ''<div class=\"cards\">'',
      ''  <div class=\"label\">Avg Latency</div>'',
      ''    <div class=\"value blue\">'' @ ms_text (ls_avg_ms (ob_latency summary)) @ ''</div>'',
      ''  <div class=\"card\">'',
      ''    <div class=\"label\">P50 Latency</div>'',
      ''    <div class=\"value blue\">'' @ ms_text (ls_p50_ms (ob_latency summary)) @ ''</div>'',
      ''  <div class=\"card\">'',
      ''    <div class=\"label\">P95 Latency</div>'',
      ''    <div class=\"value blue\">'' @ ms_text (ls_p95_ms (ob_latency summary)) @ ''</div>'',
      ''  <div class=\"card\">'',
      ''    <div class=\"label\">Avg TTFT</div>'',
      ''    <div class=\"value blue\">'' @ ms_text (ls_avg_ms ttft) @ ''</div>'',
      ''  </div>'',
      [],
      ''<h2>Recent Requests</h2>'',
      ''<table>'',
      ''<thead>'',
      ''<tr><th>Request ID</th><th>Time</th><th>Model</th><th>Stream</th><th>Status</th><th>Error</th><th>Duration</th><th>TTFT</th><th>Tokens</th></tr>'',
      ''</thead>'']"

definition page_foot :: "string list" where
  "page_foot =
     [''</table>'',
      [],
      ''<div class=\"meta\">Auto-refreshes every 5 seconds. All times UTC.</div>'',
      ''</body>'',
      ''</html>'']"

definition render_dashboard ::
  "obs_summary \<Rightarrow> latency_stats \<Rightarrow> recent_request list \<Rightarrow> string \<Rightarrow> bool \<Rightarrow> int \<Rightarrow> int \<Rightarrow> int \<Rightarrow> int \<Rightarrow> string" where
  "render_dashboard summary ttft recent backend_state backend_reachable act queued mx_active mx_queue =
     (let rows = concat (map dashboard_row recent)
      in join [CHR 0x0A]
           (page_head @
            page_cards summary ttft backend_state backend_reachable act queued mx_active mx_queue @
            [''<tbody>'' @
               (if rows \<noteq> [] then rows
                else ''<tr><td colspan=\"9\" style=\"text-align:center;color:#8b949e;\">No requests yet</td></tr>'') @
               ''</tbody>''] @
            page_foot))"

definition admin_dashboard ::
  "bool \<Rightarrow> admission option \<Rightarrow> (exn + health_result) option \<Rightarrow> datetime \<Rightarrow> store option \<Rightarrow> exn + string" where
  \<comment> \<open>with the outcome of the default backend's probe, if there is a backend\<close>
  "admin_dashboard wired adm probe now db =
     (case get_observability_service wired of
        Inl e \<Rightarrow> Inl e
      | Inr _ \<Rightarrow>
          with_session db (\<lambda>s.
            let (act, queued, mx_active, mx_queue) =
                  (case adm of
                     None \<Rightarrow> (0, 0, 0, 0)
                   | Some a \<Rightarrow>
                       (st_active (status a), int (st_queued (status a)), int (st_max_active (status a)),
                        int (st_max_queue (status a))));
                summary = obs_summary_of None None now act queued s;
                ttft = the (map_of (latency_map None None now s) ''ttft_ms'');
                recent = recent_requests 20 None None now s;
                page = (\<lambda>state reachable.
                  Inr (render_dashboard summary ttft recent state reachable act queued mx_active mx_queue))
            in (case probe of
                  None \<Rightarrow> page ''unknown'' False
                | Some (Inr h) \<Rightarrow> page (health_state_value (h_state h)) (h_reachable h)
                | Some (Inl e) \<Rightarrow> if is_Exception e then page ''unreachable'' False else Inl e)))"

section \<open>What the page shows\<close>

definition occurs :: "'a list \<Rightarrow> 'a list \<Rightarrow> bool" where
  "occurs w s \<longleftrightarrow> (\<exists>pre post. s = pre @ w @ post)"

lemma occurs_append: "occurs w s \<Longrightarrow> occurs w (t @ s)" "occurs w s \<Longrightarrow> occurs w (s @ t)"
  unfolding occurs_def by (metis append.assoc)+

lemma occurs_self: "occurs w w"
  unfolding occurs_def by (metis append_Nil append_Nil2)

lemma occurs_concat: "x \<in> set xs \<Longrightarrow> occurs w x \<Longrightarrow> occurs w (concat xs)"
  by (induction xs) (auto intro: occurs_append)

lemma occurs_join: "x \<in> set xs \<Longrightarrow> occurs w x \<Longrightarrow> occurs w (join sep xs)"
proof (induction xs)
  case (Cons y xs)
  then show ?case by (cases xs) (auto intro: occurs_append)
qed simp

lemma row_shows_model: "occurs (''<td>'' @ rr_model r @ ''</td>'') (dashboard_row r)"
proof -
  have "occurs (''<td>'' @ rr_model r @ ''</td>'') (''            '' @ ''<td>'' @ rr_model r @ ''</td>'')"
    by (rule occurs_append(1)) (rule occurs_self)
  then show ?thesis
    unfolding dashboard_row_def by (intro occurs_join) (simp_all)
qed

lemma page_shows_row:
  assumes "r \<in> set recent" "occurs w (dashboard_row r)"
  shows "occurs w (render_dashboard summary ttft recent backend_state reachable act queued ma mq)"
proof -
  let ?rows = "concat (map dashboard_row recent)"
  have rows: "occurs w ?rows" using assms by (intro occurs_concat) auto
  have "dashboard_row r \<noteq> []" by (simp add: dashboard_row_def)
  with assms(1) have "?rows \<noteq> []" by auto
  then show ?thesis
    unfolding render_dashboard_def Let_def
    by (intro occurs_join[where x = "''<tbody>'' @ ?rows @ ''</tbody>''"])
      (auto intro: occurs_append rows simp del: append_Cons append_Nil)
qed

text \<open>The dashboard escapes nothing: the model name of every request it lists, which is text of the
  client, stands in the page as it is.\<close>

lemma dashboard_model_unescaped:
  assumes "admin_dashboard wired adm probe now (Some s) = Inr page"
    and "r \<in> set (recent_requests 20 None None now s)"
  shows "\<exists>pre post. page = pre @ ''<td>'' @ rr_model r @ ''</td>'' @ post"
proof -
  obtain summary ttft st reachable act queued ma mq where
    "page = render_dashboard summary ttft (recent_requests 20 None None now s) st reachable act queued ma mq"
    using assms(1)
    by (auto simp: admin_dashboard_def with_session_def get_db_session_def Let_def
        split: sum.splits option.splits if_splits prod.splits)
  then have "occurs (''<td>'' @ rr_model r @ ''</td>'') page"
    using page_shows_row[OF assms(2) row_shows_model] by simp
  then show ?thesis by (simp add: occurs_def)
qed

lemma dashboard_model_unescaped_witness:
  "\<exists>r s page pre post. record_usage ''1'' (Some sample_key) None
       (sample_args completed\<lparr> a_model := ''<script>x()</script>'' \<rparr>) empty_store = Inr (r, s) \<and>
     admin_dashboard True None None 50 (Some s) = Inr page \<and>
     page = pre @ ''<td><script>x()</script></td>'' @ post"
proof -
  obtain r s where rs: "record_usage ''1'' (Some sample_key) None
      (sample_args completed\<lparr> a_model := ''<script>x()</script>'' \<rparr>) empty_store = Inr (r, s)"
    "usage_records s = [r]" "r_started_at r = 10" "r_model r = ''<script>x()</script>''"
    by (simp add: record_usage_def insert_usage_def empty_store_def Let_def sample_args_def)
  then have "rows_in (period None None 50) s = [r]"
    by (simp add: rows_in_def period_def today_range_def day_start_def day_us_def)
  then have recent: "recent_of r \<in> set (recent_requests 20 None None 50 s)"
    by (simp add: recent_requests_def sql_limit_def)
  obtain page where page: "admin_dashboard True None None 50 (Some s) = Inr page"
    by (simp add: admin_dashboard_def get_observability_service_def with_session_def get_db_session_def)
  from dashboard_model_unescaped[OF page recent] rs page show ?thesis
    by (simp add: recent_of_def)
qed

end
