(* ===== verification/System.thy ===== *)
theory System
  imports Serving AdminApi Lifecycle
begin

text \<open>
  The running gateway: every request in flight with the phase its handler of \<open>app/api/chat.py\<close> is in,
  over the state the requests share, that is the database, the rate limiter and the admission
  controller.  A handler is cut where it awaits; \<open>sys_step\<close> interleaves the sections of all requests
  with the management plane.  What one request does alone is its handler in \<open>Chat\<close>
  (\<open>handler_is_flight\<close>).
\<close>

section \<open>Where the controller has a call\<close>

datatype place = Outside | Suspended | Inside

definition place_of :: "cid \<Rightarrow> admission \<Rightarrow> place" where
  "place_of c s =
     (if c \<in> set (holders s) then Inside
      else if c \<in> set (w_cids (waiting s)) \<or> c \<in> set (sem_cids (sem s)) then Suspended
      else Outside)"

fun place_after :: "adm_result option \<Rightarrow> place" where
  "place_after None = Outside"
| "place_after (Some Entered) = Inside"
| "place_after (Some SuspendedInQueue) = Suspended"
| "place_after (Some SuspendedInSem) = Suspended"
| "place_after (Some (Raised e)) = Outside"

lemma place_of_simps:
  "place_of c s = Inside \<longleftrightarrow> c \<in> set (holders s)"
  "adm_inv s \<Longrightarrow> place_of c s = Suspended \<longleftrightarrow> c \<in> set (w_cids (waiting s)) \<or> c \<in> set (sem_cids (sem s))"
  "place_of c s = Outside \<longleftrightarrow> c \<notin> set (parked s)"
  by (auto simp: place_of_def adm_inv_def parked_def)

lemma take_slot_parked:
  "take_slot c s = (r, s') \<Longrightarrow>
     waiting s' = waiting s \<and>
     (case r of
        Entered \<Rightarrow> holders s' = holders s @ [c] \<and> sem_cids (sem s') = sem_cids (sem s)
      | _ \<Rightarrow> r = SuspendedInSem \<and> holders s' = holders s \<and> sem_cids (sem s') = sem_cids (sem s) @ [c])"
  by (cases "sem_acquire c (sem s)") (auto simp: take_slot_def dest: sem_cids_acquire split: bool.splits)

lemma place_of_eq:
  "place_of c s = (if c \<in> set (holders s) then Inside
     else if c \<in> set (w_cids (waiting s) @ sem_cids (sem s)) then Suspended else Outside)"
  by (simp add: place_of_def)

definition settled :: "cid \<Rightarrow> place \<Rightarrow> admission \<Rightarrow> admission \<Rightarrow> bool" where
  \<comment> \<open>from \<open>s\<close> to \<open>s'\<close> call \<open>c\<close> gets to a place and no other call moves\<close>
  "settled c pl s s' \<longleftrightarrow> (\<forall>d. place_of d s' = (if d = c then pl else place_of d s))"

lemma settledI:
  assumes "set (holders s') - {c} = set (holders s) - {c}"
    "(set (w_cids (waiting s')) \<union> set (sem_cids (sem s'))) - {c} =
     (set (w_cids (waiting s)) \<union> set (sem_cids (sem s))) - {c}"
    "place_of c s' = pl"
  shows "settled c pl s s'"
  unfolding settled_def
proof
  fix d
  have "d \<noteq> c \<Longrightarrow> d \<in> set (holders s') \<longleftrightarrow> d \<in> set (holders s)"
    "d \<noteq> c \<Longrightarrow> d \<in> set (w_cids (waiting s')) \<union> set (sem_cids (sem s')) \<longleftrightarrow>
       d \<in> set (w_cids (waiting s)) \<union> set (sem_cids (sem s))"
    using assms(1,2) by blast+
  then show "place_of d s' = (if d = c then pl else place_of d s)"
    using assms(3) by (cases "d = c") (simp_all add: place_of_def)
qed

lemma settled_take_slot:
  "take_slot c s = (r, s') \<Longrightarrow> c \<notin> set (parked s) \<Longrightarrow> settled c (place_after (Some r)) s s'"
  by (drule take_slot_parked) (auto simp: settled_def place_of_eq parked_def split: adm_result.splits)

lemma settled_drop_waiting:
  assumes "adm_inv s" "q \<in> set (waiting s)"
  shows "settled (q_cid q) Outside s (drop_waiting (q_cid q) s)"
  using assms w_cids_mem [OF assms(2)]
  by (auto simp: settled_def place_of_eq drop_waiting_def adm_inv_def parked_def)

lemma settled_trans: "settled c Outside s t \<Longrightarrow> settled c p t u \<Longrightarrow> settled c p s u"
  by (simp add: settled_def)

lemma place_of_remove_queued [simp]: "place_of d (remove_queued_entry c s) = place_of d s"
  by (simp add: remove_queued_entry_def place_of_def)

lemma acquire_cases:
  "acquire c t s = (r, s') \<Longrightarrow> take_slot c s = (r, s') \<or> r = Raised (Syn queue_full_error) \<and> s' = s \<or>
     r = SuspendedInQueue \<and> w_cids (waiting s') = w_cids (waiting s) @ [c] \<and> sem s' = sem s \<and>
     holders s' = holders s"
  by (auto simp: acquire_def split: if_splits)

lemma adm_step_settled:
  assumes "adm_step s e r s'" "adm_inv s"
  shows "settled (adm_who e) (place_after r) s s'"
  using assms
proof (induction rule: adm_step.induct)
  case (arrive c s t r s')
  then have c: "c \<notin> set (parked s)" by (simp add: known_iff)
  consider "take_slot c s = (r, s')" | "r = Raised (Syn queue_full_error)" "s' = s"
    | "r = SuspendedInQueue" "w_cids (waiting s') = w_cids (waiting s) @ [c]" "sem s' = sem s" "holders s' = holders s"
    using acquire_cases [OF arrive(2)] by blast
  then show ?case
    using c settled_take_slot [of c s r s']
    by cases (simp_all add: settled_def place_of_eq parked_def)
next
  case (resume q s r s')
  have "settled (q_cid q) (place_after (Some r)) (drop_waiting (q_cid q) s) s'"
    by (rule settled_take_slot) (use resume parked_drop_waiting in \<open>auto simp: resume_queued_def Let_def\<close>)
  then show ?case using settled_drop_waiting [of s q] resume settled_trans by fastforce
next
  case (timeout q s r s')
  then show ?case using settled_drop_waiting [of s q]
    by (auto simp: timeout_queued_def settled_def)
next
  case (cancel_wait q s r s')
  then show ?case using settled_drop_waiting [of s q] by (auto simp: cancel_queued_def)
next
  case (resume_sem c s r s')
  show ?case
    by (rule settledI) (use resume_sem in \<open>auto simp: resume_sem_def place_of_def\<close>)
next
  case (cancel_sem c b s r s')
  then have "c \<in> set (sem_cids (sem s))" by (blast intro: sem_cids_mem)
  with cancel_sem(3) have "c \<notin> set (holders s)" "c \<notin> set (w_cids (waiting s))"
    by (auto simp: adm_inv_def parked_def)
  then show ?case
    by (intro settledI) (use cancel_sem in \<open>auto simp: cancel_sem_def place_of_def\<close>)
next
  case (leave c s s')
  have eqs: "w_cids (waiting s') = w_cids (waiting s)" "sem_cids (sem s') = sem_cids (sem s)"
    "holders s' = remove1 c (holders s)"
    using leave(2) by (auto simp: leave_eq split: if_splits list.splits)
  have "distinct (holders s)" "c \<notin> set (w_cids (waiting s))" "c \<notin> set (sem_cids (sem s))"
    using leave by (auto simp: adm_inv_def parked_def)
  then show ?case
    by (intro settledI) (auto simp: eqs place_of_def)
qed

section \<open>Requests in flight\<close>

datatype 'b phase =
    Checking \<comment> \<open>authenticated, before the limits and quotas\<close>
  | Routing
  | Acquiring "'b prepared"
  | Waiting "'b prepared"
  | Serving "'b prepared"
  | Recording "'b prepared" "exn option" \<comment> \<open>and what entering the controller raised\<close>

record 'b flight =
  fl_request_id :: string
  fl_request :: api_request
  fl_principal :: principal
  fl_key :: api_key
  fl_client :: client
  fl_phase :: "'b phase"

record 'b gateway =
  gw_app :: "'b app"
  gw_limiter :: rate_limiter
  gw_admission :: admission
  gw_flights :: "cid \<Rightarrow> 'b flight option"

definition recached :: "'b routing_service option \<Rightarrow> 'b routing_service option \<Rightarrow> bool" where
  \<comment> \<open>the two services differ at most in the results of probes that their registry keeps\<close>
  "recached ro ro' \<longleftrightarrow>
     (let bare = map_option (\<lambda>rs. rs\<lparr> rs_backends := map_option uncached (rs_backends rs) \<rparr>)
      in bare ro' = bare ro)"

definition with_router :: "'b routing_service option \<Rightarrow> 'b gateway \<Rightarrow> 'b gateway" where
  "with_router ro g = g\<lparr> gw_app := (gw_app g)\<lparr> app_router := ro \<rparr> \<rparr>"

definition with_db :: "store option \<Rightarrow> 'b gateway \<Rightarrow> 'b gateway" where
  "with_db db g = g\<lparr> gw_app := (gw_app g)\<lparr> app_db := db \<rparr> \<rparr>"

definition set_flight :: "cid \<Rightarrow> 'b flight option \<Rightarrow> 'b gateway \<Rightarrow> 'b gateway" where
  "set_flight c f g = g\<lparr> gw_flights := (gw_flights g)(c := f) \<rparr>"

abbreviation to_phase :: "cid \<Rightarrow> 'b flight \<Rightarrow> 'b phase \<Rightarrow> 'b gateway \<Rightarrow> 'b gateway" where
  "to_phase c f ph \<equiv> set_flight c (Some (f\<lparr> fl_phase := ph \<rparr>))"

fun entered_phase :: "'b prepared \<Rightarrow> adm_result \<Rightarrow> 'b phase" where
  "entered_phase pp Entered = Serving pp"
| "entered_phase pp SuspendedInQueue = Waiting pp"
| "entered_phase pp SuspendedInSem = Waiting pp"
| "entered_phase pp (Raised e) = Recording pp (Some e)"

definition flight_args ::
  "request_env \<Rightarrow> 'b prepared \<Rightarrow> exn + chat_response \<Rightarrow> chat_chunk list \<times> exn option
     \<Rightarrow> (nat \<times> exn) option \<Rightarrow> usage_args" where
  \<comment> \<open>what the handler records, given what the backend answers or streams\<close>
  "flight_args en pp answer streamed interrupt =
     (if cr_stream (pp_request pp)
      then
        let (sent, raised) = stream_run en pp streamed interrupt
        in stream_args en (pp_canonical pp) (pp_request pp) (pp_backend_id pp)
             (sent \<noteq> [] \<and> fst streamed \<noteq> []) raised
      else completion_args en (pp_canonical pp) (pp_request pp) (pp_backend_id pp) answer)"

inductive sys_step ::
  "(string \<Rightarrow> string) \<Rightarrow> string \<Rightarrow> ('b \<Rightarrow> backend_capability list) \<Rightarrow> 'b gateway \<Rightarrow> 'b gateway \<Rightarrow> bool"
  for h secret caps where
  accept:
    "gw_flights g c = None \<Longrightarrow> \<not> known c (gw_admission g) \<Longrightarrow> valid_request r \<Longrightarrow>
     authenticate_with_orm h ok now hdr (app_db (gw_app g)) = (Inr (p, k, cl), db) \<Longrightarrow>
     sys_step h secret caps g
       (set_flight c (Some \<lparr> fl_request_id = rid, fl_request = r, fl_principal = p, fl_key = k,
            fl_client = cl, fl_phase = Checking \<rparr>) (with_db db g))"
| refuse:
    \<comment> \<open>the request ends at its authentication or at the validation of its body\<close>
    "authenticate_with_orm h ok now hdr (app_db (gw_app g)) = (res, db) \<Longrightarrow>
     sys_step h secret caps g (with_db db g)"
| list_models:
    "authenticate_request h ok now hdr (app_db (gw_app g)) = (res, db) \<Longrightarrow>
     sys_step h secret caps g (with_db db g)"
| check_passed:
    "gw_flights g c = Some f \<Longrightarrow> fl_phase f = Checking \<Longrightarrow>
     usage_precheck (gw_app g) (fl_key f) (fl_client f) tick now1 now2 (gw_limiter g) = (Inr (), rl) \<Longrightarrow>
     sys_step h secret caps g (to_phase c f Routing (g\<lparr> gw_limiter := rl \<rparr>))"
| check_refused:
    "gw_flights g c = Some f \<Longrightarrow> fl_phase f = Checking \<Longrightarrow>
     usage_precheck (gw_app g) (fl_key f) (fl_client f) tick now1 now2 (gw_limiter g) = (Inl e, rl) \<Longrightarrow>
     sys_step h secret caps g (set_flight c None (g\<lparr> gw_limiter := rl \<rparr>))"
| routed:
    "gw_flights g c = Some f \<Longrightarrow> fl_phase f = Routing \<Longrightarrow>
     choose_backend caps discovered (gw_app g) (fl_request f) (fl_principal f) = Inr pp \<Longrightarrow>
     sys_step h secret caps g (to_phase c f (Acquiring pp) g)"
| route_refused:
    "gw_flights g c = Some f \<Longrightarrow> fl_phase f = Routing \<Longrightarrow>
     choose_backend caps discovered (gw_app g) (fl_request f) (fl_principal f) = Inl e \<Longrightarrow>
     sys_step h secret caps g (set_flight c None g)"
| no_controller:
    "gw_flights g c = Some f \<Longrightarrow> fl_phase f = Acquiring pp \<Longrightarrow> get_admission (gw_app g) = Inl e \<Longrightarrow>
     sys_step h secret caps g (set_flight c None g)"
| enter:
    "gw_flights g c = Some f \<Longrightarrow> fl_phase f = Acquiring pp \<or> fl_phase f = Waiting pp \<Longrightarrow>
     get_admission (gw_app g) = Inr () \<Longrightarrow> adm_who e = c \<Longrightarrow>
     adm_step (gw_admission g) e (Some res) adm \<Longrightarrow>
     sys_step h secret caps g (to_phase c f (entered_phase pp res) (g\<lparr> gw_admission := adm \<rparr>))"
| finish:
    "gw_flights g c = Some f \<Longrightarrow> fl_phase f = Serving pp \<Longrightarrow>
     adm_step (gw_admission g) (Leave c) None adm \<Longrightarrow>
     sys_step h secret caps g (to_phase c f (Recording pp None) (g\<lparr> gw_admission := adm \<rparr>))"
| account:
    "gw_flights g c = Some f \<Longrightarrow> fl_phase f = Recording pp slot \<Longrightarrow>
     en_slot en = slot \<Longrightarrow> en_request_id en = fl_request_id f \<Longrightarrow>
     finish_usage (gw_app g) (en_record_id en) (fl_key f) (fl_client f)
       (flight_args en pp answer streamed interrupt) = (tr, db) \<Longrightarrow>
     sys_step h secret caps g (set_flight c None (with_db db g))"
| abandon:
    \<comment> \<open>the task is cancelled before it asks for a slot, or its response never starts\<close>
    "gw_flights g c = Some f \<Longrightarrow> fl_phase f \<in> {Checking, Routing} \<or> (\<exists>pp. fl_phase f = Acquiring pp) \<Longrightarrow>
     sys_step h secret caps g (set_flight c None g)"
| manage:
    "app_db (gw_app g) = Some s \<Longrightarrow> admin_step h secret x auth s s' \<Longrightarrow>
     sys_step h secret caps g (with_db (Some s') g)"
| probe:
    \<comment> \<open>a health or management request probes backends, whose results the registry keeps\<close>
    "recached (app_router (gw_app g)) ro \<Longrightarrow> sys_step h secret caps g (with_router ro g)"

inductive sys_reach ::
  "(string \<Rightarrow> string) \<Rightarrow> string \<Rightarrow> ('b \<Rightarrow> backend_capability list) \<Rightarrow> 'b gateway \<Rightarrow> 'b gateway \<Rightarrow> bool"
  for h secret caps where
  sys_refl: "sys_reach h secret caps g g"
| sys_more: "sys_reach h secret caps g g' \<Longrightarrow> sys_step h secret caps g' g'' \<Longrightarrow> sys_reach h secret caps g g''"

lemma gateway_sel [simp]:
  "gw_flights (set_flight c f g) = (gw_flights g)(c := f)"
  "gw_app (set_flight c f g) = gw_app g" "gw_limiter (set_flight c f g) = gw_limiter g"
  "gw_admission (set_flight c f g) = gw_admission g"
  "gw_flights (with_db db g) = gw_flights g" "gw_app (with_db db g) = (gw_app g)\<lparr> app_db := db \<rparr>"
  "gw_limiter (with_db db g) = gw_limiter g" "gw_admission (with_db db g) = gw_admission g"
  "gw_flights (with_router ro g) = gw_flights g" "gw_app (with_router ro g) = (gw_app g)\<lparr> app_router := ro \<rparr>"
  "gw_limiter (with_router ro g) = gw_limiter g" "gw_admission (with_router ro g) = gw_admission g"
  by (simp_all add: set_flight_def with_db_def with_router_def)

lemma recached_refl [simp]: "recached ro ro"
  by (simp add: recached_def Let_def)

lemma recached_trans: "recached ro ro' \<Longrightarrow> recached ro' ro'' \<Longrightarrow> recached ro ro''"
  by (simp add: recached_def Let_def)

text \<open>What is cached never routes: a completion is routed alike whatever probes have found.\<close>

lemma recached_choose_backend:
  assumes "recached (app_router a) ro"
  shows "choose_backend caps discovered (a\<lparr> app_router := ro \<rparr>) r p = choose_backend caps discovered a r p"
proof (cases "app_router a")
  case None
  then have "ro = None" using assms by (simp add: recached_def)
  with None have "a\<lparr> app_router := ro \<rparr> = a" by (cases a) simp
  then show ?thesis by simp
next
  case (Some rs)
  then obtain rs' where ro: "ro = Some rs'"
    and same: "rs'\<lparr> rs_backends := map_option uncached (rs_backends rs') \<rparr> =
      rs\<lparr> rs_backends := map_option uncached (rs_backends rs) \<rparr>"
    using assms by (cases ro) (auto simp: recached_def Let_def)
  have sel: "rs_models rs' = rs_models rs" "rs_passthrough rs' = rs_passthrough rs" "rs_default rs' = rs_default rs"
    "map_option uncached (rs_backends rs') = map_option uncached (rs_backends rs)"
    using arg_cong [OF same, of rs_models] arg_cong [OF same, of rs_passthrough] arg_cong [OF same, of rs_default]
      arg_cong [OF same, of rs_backends] by simp_all
  have "route discovered rs' m p = route discovered rs m p" for m
  proof (cases "rs_backends rs")
    case None
    then have "rs_backends rs' = None" using sel(4) by simp
    then show ?thesis unfolding route_def require_default_backend_def sel(1-3) None by simp
  next
    case (Some r)
    then obtain r' where r': "rs_backends rs' = Some r'" "uncached r' = uncached r"
      using sel(4) by (cases "rs_backends rs'") simp_all
    have "get_backend i r' = get_backend i r" for i
      using uncached_backends [OF r'(2)] by (simp add: get_backend_def)
    then show ?thesis unfolding route_def require_default_backend_def sel(1-3) Some r'(1) by (cases "rs_models rs") (simp_all split: sum.split)
  qed
  then show ?thesis
    using sel(2) by (simp add: choose_backend_def get_router_def ro Some configured_def get_app_backend_def
        get_available_models_def)
qed

section \<open>The database over time\<close>

definition db_ok :: "store option \<Rightarrow> bool" where
  "db_ok db \<longleftrightarrow> (\<forall>s. db = Some s \<longrightarrow> store_ok s)"

definition db_later :: "store option \<Rightarrow> store option \<Rightarrow> bool" where
  "db_later db db' \<longleftrightarrow> (db = None \<longleftrightarrow> db' = None) \<and> (\<forall>s s'. db = Some s \<longrightarrow> db' = Some s' \<longrightarrow> keys_later s s')"

definition evolves :: "store option \<Rightarrow> store option \<Rightarrow> bool" where
  "evolves db db' \<longleftrightarrow> db_later db db' \<and> (db_ok db \<longrightarrow> db_ok db')"

lemma evolves_refl [simp]: "evolves db db"
  by (cases db) (simp_all add: evolves_def db_later_def keys_later_same)

lemma evolves_Some: "keys_later s s' \<Longrightarrow> (store_ok s \<Longrightarrow> store_ok s') \<Longrightarrow> evolves (Some s) (Some s')"
  by (simp add: evolves_def db_later_def db_ok_def)

lemma evolves_orm: "authenticate_with_orm h ok now hdr db = (r, db') \<Longrightarrow> evolves db db'"
  by (drule authenticate_with_orm_store) (auto intro: evolves_Some touched_later touched_ok)

lemma evolves_request: "authenticate_request h ok now hdr db = (r, db') \<Longrightarrow> evolves db db'"
proof (cases db)
  case None
  then show "authenticate_request h ok now hdr db = (r, db') \<Longrightarrow> ?thesis"
    by (simp add: authenticate_request_def get_db_session_def)
next
  case (Some s)
  then show "authenticate_request h ok now hdr db = (r, db') \<Longrightarrow> ?thesis"
    by (auto dest!: authenticate_store intro: evolves_Some touched_later touched_ok)
qed

lemma evolves_admin: "admin_step h secret x auth s s' \<Longrightarrow> evolves (Some s) (Some s')"
  by (blast intro: evolves_Some admin_step_later admin_step_ok)

lemma insert_usage_frame: "insert_usage r s = Inr s' \<Longrightarrow> api_keys s' = api_keys s"
  by (auto simp: insert_usage_def split: if_splits)

lemma evolves_usage: "finish_usage a rid k cl args = (tr, db') \<Longrightarrow> evolves (app_db a) db'"
proof -
  have "evolves (Some s) (Some s')" if "record_usage rid (Some k) (Some cl) args s = Inr (r, s')" for s r s'
    using record_usage_Inr [OF that]
    by (auto intro!: evolves_Some intro: keys_later_same insert_usage_frame store_ok_insert_usage)
  then show "finish_usage a rid k cl args = (tr, db') \<Longrightarrow> ?thesis"
    by (auto simp: finish_usage_def store_usage_def get_db_session_for_usage_def split: option.splits sum.splits)
qed

lemmas evolves_intros = evolves_orm evolves_request evolves_admin evolves_usage

lemma sys_step_db:
  assumes "sys_step h secret caps g g'"
  shows "evolves (app_db (gw_app g)) (app_db (gw_app g'))"
  using assms by cases (auto intro: evolves_intros)

lemma sys_step_app:
  assumes "sys_step h secret caps g g'"
  shows "gw_app g' = (gw_app g)\<lparr> app_db := app_db (gw_app g'), app_router := app_router (gw_app g') \<rparr> \<and>
    recached (app_router (gw_app g)) (app_router (gw_app g'))"
  using assms by cases simp_all

lemma db_later_trans: "db_later db db' \<Longrightarrow> db_later db' db'' \<Longrightarrow> db_later db db''"
  by (cases db; cases db'; cases db'') (auto simp: db_later_def intro: keys_later_trans)

lemma evolves_trans: "evolves db db' \<Longrightarrow> evolves db' db'' \<Longrightarrow> evolves db db''"
  using db_later_trans by (auto simp: evolves_def)

lemma sys_reach_db:
  "sys_reach h secret caps g g' \<Longrightarrow> evolves (app_db (gw_app g)) (app_db (gw_app g'))"
  by (induction rule: sys_reach.induct) (auto intro: evolves_trans sys_step_db)

section \<open>The invariant\<close>

definition flight_place :: "'b flight option \<Rightarrow> place" where
  "flight_place fo =
     (case fo of
        None \<Rightarrow> Outside
      | Some f \<Rightarrow> (case fl_phase f of Serving _ \<Rightarrow> Inside | Waiting _ \<Rightarrow> Suspended | _ \<Rightarrow> Outside))"

fun phase_prepared :: "'b phase \<Rightarrow> 'b prepared option" where
  "phase_prepared Checking = None"
| "phase_prepared Routing = None"
| "phase_prepared (Acquiring pp) = Some pp"
| "phase_prepared (Waiting pp) = Some pp"
| "phase_prepared (Serving pp) = Some pp"
| "phase_prepared (Recording pp _) = Some pp"

definition caller_ok :: "store option \<Rightarrow> principal \<Rightarrow> api_key \<Rightarrow> client \<Rightarrow> bool" where
  \<comment> \<open>the snapshot a request keeps of its caller is one of a stored key that was not revoked\<close>
  "caller_ok db p k cl \<longleftrightarrow>
     p_api_key_id p = k_id k \<and> p_client_id p = c_id cl \<and> k_revoked_at k = None \<and>
     (\<exists>s. db = Some s \<and> (\<exists>k'\<in>set (api_keys s). key_later k k'))"

definition prepared_ok ::
  "('b \<Rightarrow> backend_capability list) \<Rightarrow> principal \<Rightarrow> api_request \<Rightarrow> 'b prepared \<Rightarrow> bool" where
  "prepared_ok caps p r pp \<longleftrightarrow>
     can_use_model p (pp_canonical pp) \<and> CapChatCompletions \<in> set (caps (pp_backend pp)) \<and>
     (ar_stream r \<longrightarrow> CapStreaming \<in> set (caps (pp_backend pp))) \<and>
     (\<exists>m. pp_request pp = internal_request m r)"

definition flight_ok :: "('b \<Rightarrow> backend_capability list) \<Rightarrow> store option \<Rightarrow> 'b flight \<Rightarrow> bool" where
  "flight_ok caps db f \<longleftrightarrow>
     valid_request (fl_request f) \<and> caller_ok db (fl_principal f) (fl_key f) (fl_client f) \<and>
     (\<forall>pp. phase_prepared (fl_phase f) = Some pp \<longrightarrow> prepared_ok caps (fl_principal f) (fl_request f) pp)"

definition sys_inv :: "('b \<Rightarrow> backend_capability list) \<Rightarrow> 'b gateway \<Rightarrow> bool" where
  "sys_inv caps g \<longleftrightarrow>
     adm_inv (gw_admission g) \<and> db_ok (app_db (gw_app g)) \<and> finite (dom (gw_flights g)) \<and>
     (\<forall>c. place_of c (gw_admission g) = flight_place (gw_flights g c)) \<and>
     (\<forall>c f. gw_flights g c = Some f \<longrightarrow> flight_ok caps (app_db (gw_app g)) f)"

lemma caller_ok_later: "caller_ok db p k cl \<Longrightarrow> db_later db db' \<Longrightarrow> caller_ok db' p k cl"
  unfolding caller_ok_def db_later_def keys_later_def using key_later_trans by fastforce

lemma flight_ok_later: "flight_ok caps db f \<Longrightarrow> db_later db db' \<Longrightarrow> flight_ok caps db' f"
  by (auto simp: flight_ok_def intro: caller_ok_later)

lemma caller_authenticated:
  assumes "authenticate_with_orm h ok now hdr db = (Inr (p, k, cl), db')"
  shows "caller_ok db' p k cl"
proof -
  obtain s t k0 where db: "db = Some s" and f: "find_key (h t) s = Inr (Some k0)" and u: "key_usable k0 now"
    and p: "principal_from_api_key_with_session k0 s = Inr p" and cl: "key_client k0 s = Inr cl"
    and k: "k = (if ok then k0\<lparr> k_last_used_at := Some now \<rparr> else k0)"
    and db': "db' = Some (touched ok now (k_id k0) s)"
    by (rule authenticate_with_orm_Inr [OF assms])
  have "k0 \<in> set (api_keys s)" using key_store.find_sound [OF f] ..
  then obtain k' where "k' \<in> set (api_keys (touched ok now (k_id k0) s))" "key_later k0 k'"
    using touched_later [of s ok now "k_id k0"] unfolding keys_later_def by blast
  moreover have "key_later k k' \<longleftrightarrow> key_later k0 k'" by (simp add: k key_later_def)
  moreover have "p_client_id p = c_id cl" using principal_client [OF p] cl by auto
  moreover have "k_id k = k_id k0" "k_revoked_at k = None"
    using u by (simp_all add: k key_usable_def)
  ultimately show ?thesis
    using principal_fields(1) [OF p] unfolding caller_ok_def db' by auto
qed

lemma prepared_chosen: "choose_backend caps discovered a r p = Inr pp \<Longrightarrow> prepared_ok caps p r pp"
  using chosen_backend by (simp add: prepared_ok_def)

lemma flight_place_entered: "flight_place (Some (f\<lparr> fl_phase := entered_phase pp res \<rparr>)) = place_after (Some res)"
  by (cases res) (simp_all add: flight_place_def)

lemma phase_prepared_entered [simp]: "phase_prepared (entered_phase pp res) = Some pp"
  by (cases res) simp_all

lemma flight_ok_phase:
  "flight_ok caps db f \<Longrightarrow> phase_prepared ph = None \<or> phase_prepared ph = phase_prepared (fl_phase f) \<Longrightarrow>
     flight_ok caps db (f\<lparr> fl_phase := ph \<rparr>)"
  by (auto simp: flight_ok_def)

lemma set_flight_inv:
  assumes "sys_inv caps g" "adm_inv (gw_admission g')" "gw_flights g' = (gw_flights g)(c := fo)"
    "evolves (app_db (gw_app g)) (app_db (gw_app g'))"
    "settled c (flight_place fo) (gw_admission g) (gw_admission g')"
    "\<And>f. fo = Some f \<Longrightarrow> flight_ok caps (app_db (gw_app g')) f"
  shows "sys_inv caps g'"
proof -
  have "finite (dom (gw_flights g'))" using assms(1,3) by (cases fo) (simp_all add: sys_inv_def)
  moreover have "place_of d (gw_admission g') = flight_place (gw_flights g' d)" for d
    using assms(1,3,5) by (simp add: sys_inv_def settled_def)
  moreover have "flight_ok caps (app_db (gw_app g')) f" if "gw_flights g' d = Some f" for d f
  proof (cases "d = c")
    case False
    then have "flight_ok caps (app_db (gw_app g)) f" using that assms(1,3) by (simp add: sys_inv_def)
    then show ?thesis using assms(4) by (auto simp: evolves_def intro: flight_ok_later)
  qed (use that assms(3,6) in simp)
  ultimately show ?thesis using assms(1,2,4) by (simp add: sys_inv_def evolves_def)
qed

lemma settled_same: "place_of c s = pl \<Longrightarrow> settled c pl s s"
  by (simp add: settled_def)

lemma sys_inv_parts:
  assumes "sys_inv caps g"
  shows "adm_inv (gw_admission g)" "db_ok (app_db (gw_app g))" "finite (dom (gw_flights g))"
    "place_of c (gw_admission g) = flight_place (gw_flights g c)"
    "gw_flights g c = Some f \<Longrightarrow> flight_ok caps (app_db (gw_app g)) f"
  using assms by (simp_all add: sys_inv_def)

lemma sys_inv_limiter [simp]: "sys_inv caps (g\<lparr> gw_limiter := rl \<rparr>) \<longleftrightarrow> sys_inv caps g"
  by (simp add: sys_inv_def)

lemma sys_inv_db: "sys_inv caps g \<Longrightarrow> evolves (app_db (gw_app g)) db \<Longrightarrow> sys_inv caps (with_db db g)"
  by (auto simp: sys_inv_def evolves_def intro: flight_ok_later)

lemma sys_inv_router [simp]: "sys_inv caps (with_router ro g) \<longleftrightarrow> sys_inv caps g"
  by (simp add: sys_inv_def)

lemma sys_inv_gone:
  assumes "sys_inv caps g" "flight_place (gw_flights g c) = Outside"
  shows "sys_inv caps (set_flight c None g)"
  by (rule set_flight_inv [OF assms(1), where c = c and fo = None])
    (use assms sys_inv_parts [OF assms(1)] in \<open>auto simp: flight_place_def intro: settled_same\<close>)

lemma sys_inv_outside:
  assumes "sys_inv caps g" "flight_place (gw_flights g c) = Outside" "flight_place (Some f) = Outside"
    "flight_ok caps (app_db (gw_app g)) f"
  shows "sys_inv caps (set_flight c (Some f) g)"
  by (rule set_flight_inv [OF assms(1), where c = c and fo = "Some f"])
    (use assms sys_inv_parts [OF assms(1)] in \<open>auto intro: settled_same\<close>)

lemma sys_inv_moved:
  assumes "sys_inv caps g" "gw_flights g c = Some f" "adm_step (gw_admission g) e r adm" "adm_who e = c"
    "place_after r = flight_place (Some (f\<lparr> fl_phase := ph \<rparr>))" "phase_prepared ph = phase_prepared (fl_phase f)"
  shows "sys_inv caps (to_phase c f ph (g\<lparr> gw_admission := adm \<rparr>))"
proof (rule set_flight_inv [OF assms(1), where c = c and fo = "Some (f\<lparr> fl_phase := ph \<rparr>)"])
  show "adm_inv (gw_admission (to_phase c f ph (g\<lparr> gw_admission := adm \<rparr>)))"
    using adm_step_inv [OF assms(3)] sys_inv_parts(1) [OF assms(1)] by simp
  show "settled c (flight_place (Some (f\<lparr> fl_phase := ph \<rparr>))) (gw_admission g)
      (gw_admission (to_phase c f ph (g\<lparr> gw_admission := adm \<rparr>)))"
    using adm_step_settled [OF assms(3) sys_inv_parts(1) [OF assms(1)]] assms(4,5) by simp
qed (use flight_ok_phase [of caps _ f ph] sys_inv_parts(5) [OF assms(1,2)] assms(6) in auto)

lemma sys_step_inv:
  assumes "sys_step h secret caps g g'" "sys_inv caps g"
  shows "sys_inv caps g'"
  using assms(1)
proof cases
  case (accept c r ok now hdr p k cl db rid)
  let ?f = "\<lparr> fl_request_id = rid, fl_request = r, fl_principal = p, fl_key = k, fl_client = cl,
    fl_phase = Checking \<rparr>"
  have "flight_ok caps db ?f"
    using accept(4) caller_authenticated [OF accept(5)] by (simp add: flight_ok_def)
  moreover have "sys_inv caps (with_db db g)"
    by (rule sys_inv_db [OF assms(2) evolves_orm [OF accept(5)]])
  ultimately show ?thesis
    unfolding accept(1) by (intro sys_inv_outside) (simp_all add: flight_place_def accept(2))
next
  case (check_passed c f tick now1 now2 rl)
  then show ?thesis
    using sys_inv_outside [of caps "g\<lparr> gw_limiter := rl \<rparr>" c "f\<lparr> fl_phase := Routing \<rparr>"]
      flight_ok_phase [of caps _ f Routing] sys_inv_parts(5) [OF assms(2)] assms(2)
    by (simp add: flight_place_def)
next
  case (routed c f discovered pp)
  then show ?thesis
    using sys_inv_outside [of caps g c "f\<lparr> fl_phase := Acquiring pp \<rparr>"] prepared_chosen [OF routed(4)]
      sys_inv_parts(5) [OF assms(2)] assms(2)
    by (simp add: flight_place_def flight_ok_def)
next
  case (enter c f pp e res adm)
  then show ?thesis
    using sys_inv_moved [OF assms(2) enter(2,6,5), of "entered_phase pp res"]
    by (auto simp: flight_place_entered)
next
  case (finish c f pp adm)
  then show ?thesis
    using sys_inv_moved [OF assms(2) finish(2,4), of "Recording pp None"] by (simp add: flight_place_def)
next
  case (account c f pp slot en answer streamed interrupt tr db)
  have "sys_inv caps (with_db db g)"
    by (rule sys_inv_db [OF assms(2) evolves_usage [OF account(6)]])
  then show ?thesis
    unfolding account(1) by (rule sys_inv_gone) (simp add: account(2,3) flight_place_def)
next
  case (manage s x auth s')
  then show ?thesis using sys_inv_db [OF assms(2), of "Some s'"] evolves_admin [OF manage(3)] by simp
qed (use assms(2) in \<open>auto simp: flight_place_def intro: sys_inv_gone sys_inv_db evolves_intros\<close>)

lemma sys_reach_inv: "sys_reach h secret caps g g' \<Longrightarrow> sys_inv caps g \<Longrightarrow> sys_inv caps g'"
  by (induction rule: sys_reach.induct) (auto intro: sys_step_inv)

lemma sys_reach_trans:
  "sys_reach h secret caps g' g'' \<Longrightarrow> sys_reach h secret caps g g' \<Longrightarrow> sys_reach h secret caps g g''"
  by (induction rule: sys_reach.induct) (auto intro: sys_more)

lemma sys_reach_step: "sys_step h secret caps g g' \<Longrightarrow> sys_reach h secret caps g g'"
  by (blast intro: sys_reach.intros)

lemma sys_reach_app:
  assumes "sys_reach h secret caps g g'"
  shows "gw_app g' = (gw_app g)\<lparr> app_db := app_db (gw_app g'), app_router := app_router (gw_app g') \<rparr> \<and>
    recached (app_router (gw_app g)) (app_router (gw_app g'))"
  using assms
proof (induction rule: sys_reach.induct)
  case (sys_more g g' g'')
  have "gw_app g'' = (gw_app g')\<lparr> app_db := app_db (gw_app g''), app_router := app_router (gw_app g'') \<rparr>"
    "recached (app_router (gw_app g)) (app_router (gw_app g''))"
    using sys_step_app [OF sys_more(2)] sys_more.IH recached_trans by blast+
  moreover have "gw_app g' = (gw_app g)\<lparr> app_db := app_db (gw_app g'), app_router := app_router (gw_app g') \<rparr>"
    using sys_more.IH ..
  ultimately show ?case by (cases "gw_app g"; cases "gw_app g'"; cases "gw_app g''") simp
qed simp

lemma sys_reach_has_admission:
  "sys_reach h secret caps g g' \<Longrightarrow> app_has_admission (gw_app g') = app_has_admission (gw_app g)"
  by (drule sys_reach_app) (cases "gw_app g"; cases "gw_app g'"; simp)

lemma sys_step_max_active:
  "sys_step h secret caps g g' \<Longrightarrow> max_active (gw_admission g') = max_active (gw_admission g)"
  by (cases rule: sys_step.cases) (auto dest: adm_step_frame)

lemma sys_reach_max_active:
  "sys_reach h secret caps g g' \<Longrightarrow> max_active (gw_admission g') = max_active (gw_admission g)"
  by (induction rule: sys_reach.induct) (auto dest: sys_step_max_active)

section \<open>A gateway that has started\<close>

definition gateway_of :: "app_state \<Rightarrow> store option \<Rightarrow> backend gateway" where
  \<comment> \<open>what \<open>lifespan\<close> leaves on the application's state, over the database it finds\<close>
  "gateway_of st db =
     \<lparr> gw_app = \<lparr> app_backend = Some (as_backend st), app_router = Some (as_router st),
                  app_has_admission = True, app_usage = Some (as_usage_service st), app_db = db \<rparr>,
       gw_limiter = as_rate_limiter st, gw_admission = as_admission st, gw_flights = Map.empty \<rparr>"

lemma started_admission:
  assumes "lifespan_start env se = (Inr st, evs)"
  shows "as_admission st = new_admission (nat (se_max_active_requests se)) (nat (se_max_queue_size se))
    (se_queue_timeout_seconds se)"
proof -
  obtain b rs reg adm where "make_admission se = Inr adm" "as_admission st = adm"
    by (rule lifespan_started [OF assms]) simp
  then show ?thesis by (simp add: make_admission_def split: if_splits)
qed

lemma started_inv:
  assumes "lifespan_start env se = (Inr st, evs)" "db_ok db"
  shows "sys_inv caps (gateway_of st db)"
  using assms(2) adm_inv_new
  by (simp add: sys_inv_def gateway_of_def started_admission [OF assms(1)] flight_place_def place_of_def)
    (simp add: new_admission_def sem_cids_def)

definition serving :: "'b gateway \<Rightarrow> cid set" where
  "serving g = {c. \<exists>f pp. gw_flights g c = Some f \<and> fl_phase f = Serving pp}"

lemma serving_holders:
  assumes "sys_inv caps g"
  shows "serving g = set (holders (gw_admission g))"
proof -
  have "c \<in> serving g \<longleftrightarrow> flight_place (gw_flights g c) = Inside" for c
    by (auto simp: serving_def flight_place_def split: option.splits phase.splits)
  then show ?thesis
    using sys_inv_parts(4) [OF assms] by (auto simp: place_of_simps(1) [symmetric])
qed

lemma holders_bound: "adm_inv s \<Longrightarrow> card (set (holders s)) \<le> max_active s"
  using card_length [of "holders s"] by (simp add: adm_inv_def)

text \<open>C1: Whatever requests arrive and however their handlers interleave with each other and with the
  management plane, a gateway that started from validated settings never has more requests at its
  backends than \<open>max_active_requests\<close>, and each of them was made with a key that is stored and was
  not revoked when it was read, for a model its principal may use.\<close>

theorem serving_bounded:
  assumes "validate_settings pr raw = Inr se" "lifespan_start env se = (Inr st, evs)" "db_ok db"
    "sys_reach h secret caps (gateway_of st db) g"
  shows "finite (serving g) \<and> int (card (serving g)) \<le> se_max_active_requests raw \<and> db_ok (app_db (gw_app g)) \<and>
    (\<forall>c f pp. gw_flights g c = Some f \<and> fl_phase f = Serving pp \<longrightarrow>
       caller_ok (app_db (gw_app g)) (fl_principal f) (fl_key f) (fl_client f) \<and>
       can_use_model (fl_principal f) (pp_canonical pp))"
proof -
  have inv: "sys_inv caps g"
    by (rule sys_reach_inv [OF assms(4) started_inv [OF assms(2,3)]])
  have "settings_errors pr raw = []" "se = raw\<lparr> se_log_level := py_upper (py_strip (se_log_level raw)) \<rparr>"
    using assms(1) by (auto simp: validate_settings_def split: if_splits)
  then have "1 \<le> se_max_active_requests raw" "se_max_active_requests se = se_max_active_requests raw"
    by (simp_all add: settings_errors_Nil settings_ok_def)
  then have "int (max_active (gw_admission g)) = se_max_active_requests raw"
    using sys_reach_max_active [OF assms(4)] by (simp add: gateway_of_def started_admission [OF assms(2)])
  then have "int (card (serving g)) \<le> se_max_active_requests raw"
    using holders_bound [OF sys_inv_parts(1) [OF inv]] by (simp add: serving_holders [OF inv])
  moreover have "caller_ok (app_db (gw_app g)) (fl_principal f) (fl_key f) (fl_client f) \<and>
       can_use_model (fl_principal f) (pp_canonical pp)"
    if "gw_flights g c = Some f" "fl_phase f = Serving pp" for c f pp
    using sys_inv_parts(5) [OF inv that(1)] that(2) by (simp add: flight_ok_def prepared_ok_def)
  ultimately show ?thesis
    using sys_inv_parts(2) [OF inv] by (auto simp: serving_holders [OF inv])
qed

section \<open>Revocation\<close>

definition key_revoked :: "string \<Rightarrow> store option \<Rightarrow> bool" where
  "key_revoked i db \<longleftrightarrow> (\<exists>s k. db = Some s \<and> k \<in> set (api_keys s) \<and> k_id k = i \<and> k_revoked_at k \<noteq> None)"

lemma key_revoked_later: "key_revoked i db \<Longrightarrow> db_later db db' \<Longrightarrow> key_revoked i db'"
  unfolding key_revoked_def db_later_def keys_later_def key_later_def by fastforce

lemma revoked_not_authenticated:
  assumes "authenticate_with_orm h ok now hdr db = (Inr (p, k, cl), db')" "key_revoked i db" "db_ok db"
  shows "k_id k \<noteq> i"
proof
  assume i: "k_id k = i"
  obtain s t k0 where s: "db = Some s" and f: "find_key (h t) s = Inr (Some k0)" and u: "key_usable k0 now"
    and k: "k = (if ok then k0\<lparr> k_last_used_at := Some now \<rparr> else k0)"
    by (rule authenticate_with_orm_Inr [OF assms(1)])
  obtain k1 where k1: "k1 \<in> set (api_keys s)" "k_id k1 = i" "k_revoked_at k1 \<noteq> None"
    using assms(2) s by (auto simp: key_revoked_def)
  have "k0 \<in> set (api_keys s)" "k_id k0 = k_id k1"
    using key_store.find_sound [OF f] i k k1(2) by auto
  then have "k0 = k1" using assms(3) s k1(1) by (intro key_by_id [of s]) (simp_all add: db_ok_def)
  with u k1(3) show False by (simp add: key_usable_def)
qed

definition same_request :: "'b flight \<Rightarrow> 'b flight \<Rightarrow> bool" where
  \<comment> \<open>one request at two times: all but the phase\<close>
  "same_request f f' \<longleftrightarrow> f' = f\<lparr> fl_phase := fl_phase f' \<rparr>"

lemma same_request_refl [simp]: "same_request f f" "same_request f (f\<lparr> fl_phase := ph \<rparr>)"
  by (simp_all add: same_request_def)

lemma same_request_trans: "same_request f f' \<Longrightarrow> same_request f' f'' \<Longrightarrow> same_request f f''"
  unfolding same_request_def by (cases f; cases f'; cases f'') simp

lemma same_request_key: "same_request f f' \<Longrightarrow> fl_key f' = fl_key f"
  unfolding same_request_def by (cases f; cases f') simp

lemma sys_step_flight:
  assumes "sys_step h secret caps g g'" "gw_flights g' c = Some f'"
  obtains f where "gw_flights g c = Some f" "same_request f f'"
  | ok now hdr p k cl where "authenticate_with_orm h ok now hdr (app_db (gw_app g)) = (Inr (p, k, cl), app_db (gw_app g'))"
      "fl_key f' = k" "fl_phase f' = Checking"
  using assms
  by cases (auto split: if_splits)

lemma revoked_flights:
  assumes "sys_reach h secret caps g g'" "key_revoked i (app_db (gw_app g))" "db_ok (app_db (gw_app g))"
    "gw_flights g' c = Some f'" "k_id (fl_key f') = i"
  shows "\<exists>f. gw_flights g c = Some f \<and> same_request f f'"
  using assms
proof (induction arbitrary: f' rule: sys_reach.induct)
  case (sys_more g g' g'')
  have db: "evolves (app_db (gw_app g)) (app_db (gw_app g'))" by (rule sys_reach_db [OF sys_more(1)])
  show ?case
  proof (cases rule: sys_step_flight [OF sys_more(2) sys_more.prems(3)])
    case (1 f)
    then have "k_id (fl_key f) = i" using same_request_key sys_more.prems(4) by metis
    then show ?thesis using sys_more.IH [OF sys_more.prems(1,2) 1(1)] 1(2) same_request_trans by blast
  next
    case (2 ok now hdr p k cl)
    have "k_id k \<noteq> i"
      by (rule revoked_not_authenticated [OF 2(1)])
        (use db sys_more.prems(1,2) in \<open>auto simp: evolves_def intro: key_revoked_later\<close>)
    with 2 sys_more.prems(4) show ?thesis by simp
  qed
qed auto

text \<open>C7: Revocation is immediate: once a management request has revoked a key, every request of that
  key that is ever in flight was already in flight then, whatever happens in between.\<close>

theorem revoked_key_drains:
  assumes "app_db (gw_app g) = Some s" "store_ok s"
    "guarded secret x auth (revoke_api_key_route i now (Some s)) = Inr (out, s')"
    "sys_reach h secret caps (with_db (Some s') g) g'"
    "gw_flights g' c = Some f'" "k_id (fl_key f') = i"
  shows "\<exists>f. gw_flights g c = Some f \<and> same_request f f'"
proof -
  obtain k where k: "revoke_api_key i now s = Inr (k, s')"
    using assms(3) by (auto simp: guarded_Inr revoke_api_key_route_def with_session_def get_db_session_def
        split: sum.splits)
  then have "k_id k = i" "k_revoked_at k \<noteq> None" "k \<in> set (api_keys s')"
    using keys_with_id_in [of i s k]
    by (cases rule: revoke_api_key_row; auto simp: update_key_def dest!: keys_with_id_in)+
  then have "key_revoked i (app_db (gw_app (with_db (Some s') g)))" by (auto simp: key_revoked_def)
  moreover have "db_ok (app_db (gw_app (with_db (Some s') g)))"
    using revoke_api_key_ok [OF k assms(2)] by (simp add: db_ok_def)
  ultimately show ?thesis using revoked_flights [OF assms(4) _ _ assms(5,6)] by simp
qed

section \<open>Ending requests\<close>

abbreviation drops :: "(string \<Rightarrow> string) \<Rightarrow> string \<Rightarrow> ('b \<Rightarrow> backend_capability list) \<Rightarrow> cid \<Rightarrow> 'b gateway \<Rightarrow> bool" where
  \<comment> \<open>steps end the request and touch no other\<close>
  "drops h secret caps c g \<equiv>
     \<exists>g'. sys_reach h secret caps g g' \<and> gw_flights g' = (gw_flights g)(c := None)"

lemma drops_recording:
  assumes "gw_flights g c = Some f" "fl_phase f = Recording pp slot"
  shows "drops h secret caps c g"
proof -
  let ?en = "(undefined :: request_env)\<lparr> en_slot := slot, en_request_id := fl_request_id f \<rparr>"
  obtain tr db where u: "finish_usage (gw_app g) (en_record_id ?en) (fl_key f) (fl_client f)
      (flight_args ?en pp undefined undefined undefined) = (tr, db)"
    by (metis surj_pair)
  show ?thesis
    by (intro exI conjI, rule sys_reach_step, rule account [OF assms _ _ u]) simp_all
qed

lemma drops_after:
  assumes "sys_step h secret caps g (to_phase c f ph g1)" "gw_flights g1 = gw_flights g"
    "\<And>g2. gw_flights g2 c = Some (f\<lparr> fl_phase := ph \<rparr>) \<Longrightarrow> drops h secret caps c g2"
  shows "drops h secret caps c g"
proof -
  obtain g3 where "sys_reach h secret caps (to_phase c f ph g1) g3"
      "gw_flights g3 = (gw_flights (to_phase c f ph g1))(c := None)"
    using assms(3) [of "to_phase c f ph g1"] assms(2) by auto
  with sys_reach_trans [OF _ sys_reach_step [OF assms(1)]] assms(2) show ?thesis by auto
qed

lemma drops_flight:
  assumes "sys_inv caps g" "app_has_admission (gw_app g)" "gw_flights g c = Some f"
  shows "drops h secret caps c g"
proof -
  have adm: "get_admission (gw_app g) = Inr ()" using assms(2) by (simp add: get_admission_def)
  have inv: "adm_inv (gw_admission g)" and pl: "place_of c (gw_admission g) = flight_place (Some f)"
    using sys_inv_parts(1,4) [OF assms(1)] assms(3) by simp_all
  have gone: ?thesis if "fl_phase f \<in> {Checking, Routing} \<or> (\<exists>pp. fl_phase f = Acquiring pp)"
    by (intro exI conjI, rule sys_reach_step, rule abandon [OF assms(3) that]) simp
  show ?thesis
  proof (cases "fl_phase f")
    case (Waiting pp)
    then consider q where "q \<in> set (waiting (gw_admission g))" "q_cid q = c"
      | b where "(c, b) \<in> set (sem_waiters (sem (gw_admission g)))"
      using pl by (auto simp: flight_place_def place_of_simps(2) [OF inv] w_cids_def sem_cids_def)
    then obtain e x adm' where "adm_who e = c" "adm_step (gw_admission g) e (Some (Raised x)) adm'"
    proof cases
      case 1
      then show ?thesis using that [of "Timeout c"] adm_step.timeout [OF 1(1) timeout_queued_def] by auto
    next
      case 2
      then show ?thesis using that [of "CancelSem c"] adm_step.cancel_sem [OF 2 cancel_sem_def] by auto
    qed
    from enter [OF assms(3) disjI2 [OF Waiting] adm this] show ?thesis
      by (rule drops_after) (auto intro: drops_recording)
  next
    case (Serving pp)
    then have c: "c \<in> set (holders (gw_admission g))"
      using pl by (simp add: flight_place_def place_of_simps(1))
    then obtain adm' where "adm_step (gw_admission g) (Leave c) None adm'"
      using leave_total [OF inv] adm_step.leave by blast
    from finish [OF assms(3) Serving this] show ?thesis
      by (rule drops_after) (auto intro: drops_recording)
  qed (use gone drops_recording [OF assms(3)] in auto)
qed

lemma drains:
  assumes "sys_inv caps g" "app_has_admission (gw_app g)"
  shows "\<exists>g'. sys_reach h secret caps g g' \<and> gw_flights g' = Map.empty"
  using assms
proof (induction "card (dom (gw_flights g))" arbitrary: g rule: less_induct)
  case less
  show ?case
  proof (cases "gw_flights g = Map.empty")
    case True
    then show ?thesis using sys_refl by blast
  next
    case False
    then obtain c f where c: "gw_flights g c = Some f" by fastforce
    obtain g1 where g1: "sys_reach h secret caps g g1" "gw_flights g1 = (gw_flights g)(c := None)"
      using drops_flight [OF less.prems c] by blast
    have "dom (gw_flights g1) \<subset> dom (gw_flights g)" using g1(2) c by auto
    then have "card (dom (gw_flights g1)) < card (dom (gw_flights g))"
      using sys_inv_parts(3) [OF less.prems(1)] psubset_card_mono by blast
    moreover have "app_has_admission (gw_app g1)"
      using less.prems(2) sys_reach_has_admission [OF g1(1)] by simp
    ultimately show ?thesis
      using less.hyps sys_reach_inv [OF g1(1) less.prems(1)] sys_reach_trans g1(1) by blast
  qed
qed

text \<open>C27: The gateway can always come to rest: from every state a started gateway reaches, the requests in
  flight can all end, and then no slot is missing: the semaphore is back at its maximum, nobody is
  counted as active, and the database is consistent.\<close>

theorem gateway_drains:
  assumes "lifespan_start env se = (Inr st, evs)" "db_ok db"
    "sys_reach h secret caps (gateway_of st db) g"
  shows "\<exists>g'. sys_reach h secret caps g g' \<and> gw_flights g' = Map.empty \<and> db_ok (app_db (gw_app g')) \<and>
    st_active (status (gw_admission g')) = 0 \<and>
    int (sem_value (sem (gw_admission g'))) = se_max_active_requests se"
proof -
  have inv: "sys_inv caps g" by (rule sys_reach_inv [OF assms(3) started_inv [OF assms(1,2)]])
  have "app_has_admission (gw_app g)"
    using sys_reach_has_admission [OF assms(3)] by (simp add: gateway_of_def)
  then obtain g' where g': "sys_reach h secret caps g g'" "gw_flights g' = Map.empty"
    using drains [OF inv] by blast
  have inv': "sys_inv caps g'" by (rule sys_reach_inv [OF g'(1) inv])
  have "parked (gw_admission g') = []"
    using sys_inv_parts(4) [OF inv'] g'(2)
    by (metis flight_place_def list.set_intros(1) neq_Nil_conv option.simps(4) place_of_simps(3))
  then have "holders (gw_admission g') = []" "sem_waiters (sem (gw_admission g')) = []"
    by (simp_all add: parked_def sem_cids_def)
  moreover have "max_active (gw_admission g') = nat (se_max_active_requests se)"
    using sys_reach_max_active [OF g'(1)] sys_reach_max_active [OF assms(3)]
    by (simp add: gateway_of_def started_admission [OF assms(1)])
  moreover have "0 \<le> se_max_active_requests se"
  proof -
    obtain adm where "make_admission se = Inr adm" by (rule lifespan_started [OF assms(1)])
    then show ?thesis by (simp add: make_admission_def split: if_splits)
  qed
  ultimately show ?thesis
    using g' sys_inv_parts(1,2) [OF inv'] by (auto simp: adm_inv_def slots_def status_def)
qed

section \<open>One request alone\<close>

text \<open>A call that gets a slot and gives it back, or is refused, with nobody else moving.\<close>

fun slot_used :: "cid \<Rightarrow> exn option \<Rightarrow> admission \<Rightarrow> admission \<Rightarrow> bool" where
  "slot_used c None s s' \<longleftrightarrow>
     (\<exists>t s1. adm_step s (Arrive c t) (Some Entered) s1 \<and> adm_step s1 (Leave c) None s')"
| "slot_used c (Some e) s s' \<longleftrightarrow> (\<exists>t. adm_step s (Arrive c t) (Some (Raised e)) s')"

fun refused_result :: "chat_result \<Rightarrow> bool" where
  "refused_result (Refused e) = True"
| "refused_result _ = False"

fun result_db :: "store option \<Rightarrow> chat_result \<Rightarrow> store option" where
  "result_db db (JsonResult _ _ db') = db'"
| "result_db db (StreamResult _ _ db') = db'"
| "result_db db (Refused _) = db"

lemma flight_runs:
  assumes "gw_flights g c = Some f" "fl_phase f = Acquiring pp" "app_has_admission (gw_app g)"
    "slot_used c (en_slot en) (gw_admission g) adm" "en_request_id en = fl_request_id f"
    "db = snd (finish_usage (gw_app g) (en_record_id en) (fl_key f) (fl_client f)
       (flight_args en pp answer streamed interrupt))"
  shows "sys_reach h secret caps g (set_flight c None (with_db db (g\<lparr> gw_admission := adm \<rparr>)))"
proof -
  have adm: "get_admission (gw_app g) = Inr ()" using assms(3) by (simp add: get_admission_def)
  obtain tr where u: "finish_usage (gw_app g) (en_record_id en) (fl_key f) (fl_client f)
      (flight_args en pp answer streamed interrupt) = (tr, db)"
    by (metis assms(6) prod.collapse)
  let ?rec = "to_phase c f (Recording pp (en_slot en)) (g\<lparr> gw_admission := adm \<rparr>)"
  have "sys_reach h secret caps g ?rec"
  proof (cases "en_slot en")
    case None
    then obtain t a1 where t: "adm_step (gw_admission g) (Arrive c t) (Some Entered) a1"
      "adm_step a1 (Leave c) None adm" using assms(4) by auto
    let ?g1 = "to_phase c f (Serving pp) (g\<lparr> gw_admission := a1 \<rparr>)"
    have "sys_step h secret caps g ?g1"
      using enter [OF assms(1) disjI1 [OF assms(2)] adm _ t(1)] by simp
    moreover have "sys_step h secret caps ?g1 (to_phase c (f\<lparr> fl_phase := Serving pp \<rparr>) (Recording pp None)
        (?g1\<lparr> gw_admission := adm \<rparr>))"
      by (rule finish) (use t(2) in simp_all)
    moreover have "to_phase c (f\<lparr> fl_phase := Serving pp \<rparr>) (Recording pp None) (?g1\<lparr> gw_admission := adm \<rparr>) = ?rec"
      by (simp add: set_flight_def None)
    ultimately show ?thesis by (metis sys_reach.intros)
  next
    case (Some e)
    then obtain t where "adm_step (gw_admission g) (Arrive c t) (Some (Raised e)) adm" using assms(4) by auto
    then show ?thesis
      using sys_reach_step [OF enter [OF assms(1) disjI1 [OF assms(2)] adm, of "Arrive c t" "Raised e" adm]]
      by (simp add: Some)
  qed
  moreover have "sys_step h secret caps ?rec (set_flight c None (with_db db ?rec))"
    by (rule account [where f = "f\<lparr> fl_phase := Recording pp (en_slot en) \<rparr>"]) (use u assms(5) in simp_all)
  moreover have "set_flight c None (with_db db ?rec) = set_flight c None (with_db db (g\<lparr> gw_admission := adm \<rparr>))"
    by (simp add: set_flight_def with_db_def)
  ultimately show ?thesis using sys_more [of h secret caps g ?rec] by simp
qed

lemma handler_result:
  assumes "create_chat_completion caps discovered a r (p, k, cl) tick now1 now2 en mk answers streams interrupt rl =
      (res, rl')" "app_has_admission a"
  shows "(\<exists>e. usage_precheck a k cl tick now1 now2 rl = (Inl e, rl') \<and> res = Refused e) \<or>
    (\<exists>e. usage_precheck a k cl tick now1 now2 rl = (Inr (), rl') \<and>
       choose_backend caps discovered a r p = Inl e \<and> res = Refused e) \<or>
    (\<exists>pp. usage_precheck a k cl tick now1 now2 rl = (Inr (), rl') \<and>
       choose_backend caps discovered a r p = Inr pp \<and>
       \<not> refused_result res \<and>
       result_db (app_db a) res = snd (finish_usage a (en_record_id en) k cl
         (flight_args en pp (answers (pp_backend pp) (pp_request pp))
            (streams (pp_backend pp) (pp_request pp)) interrupt)))"
proof -
  obtain u rl1 where u: "usage_precheck a k cl tick now1 now2 rl = (u, rl1)" by (metis surj_pair)
  show ?thesis
  proof (cases u)
    case (Inr x)
    show ?thesis
    proof (cases "choose_backend caps discovered a r p")
      case pp: (Inr pp)
      then show ?thesis
        using assms u Inr
        by (auto simp: create_chat_completion_def prepare_completion_def get_admission_def flight_args_def
            non_streaming_wired stream_generator_eq split_beta Let_def split: if_splits)
    qed (use assms(1) u Inr in \<open>auto simp: create_chat_completion_def prepare_completion_def\<close>)
  qed (use assms(1) u in \<open>auto simp: create_chat_completion_def prepare_completion_def\<close>)
qed

text \<open>The handler is its flight: what \<open>create_chat_completion\<close> does to the database and the rate
  limiter is what the steps of a request do when no other request moves in between, its slot taken
  and given back, or refused, on the way.\<close>

lemma handler_is_flight:
  assumes "create_chat_completion caps discovered (gw_app g) (fl_request f) (fl_principal f, fl_key f, fl_client f)
      tick now1 now2 en mk answers streams interrupt (gw_limiter g) = (res, rl)"
    "gw_flights g c = Some f" "fl_phase f = Checking" "app_has_admission (gw_app g)"
    "en_request_id en = fl_request_id f"
    "if refused_result res then adm = gw_admission g else slot_used c (en_slot en) (gw_admission g) adm"
  shows "sys_reach h secret caps g
    (set_flight c None (with_db (result_db (app_db (gw_app g)) res) (g\<lparr> gw_limiter := rl, gw_admission := adm \<rparr>)))"
proof -
  have same: "with_db (app_db (gw_app g)) (g\<lparr> gw_limiter := rl \<rparr>) = g\<lparr> gw_limiter := rl \<rparr>"
    by (simp add: with_db_def)
  let ?g1 = "to_phase c f Routing (g\<lparr> gw_limiter := rl \<rparr>)"
  consider e where "usage_precheck (gw_app g) (fl_key f) (fl_client f) tick now1 now2 (gw_limiter g) = (Inl e, rl)" "res = Refused e"
    | e where "usage_precheck (gw_app g) (fl_key f) (fl_client f) tick now1 now2 (gw_limiter g) = (Inr (), rl)"
        "choose_backend caps discovered (gw_app g) (fl_request f) (fl_principal f) = Inl e" "res = Refused e"
    | pp where "usage_precheck (gw_app g) (fl_key f) (fl_client f) tick now1 now2 (gw_limiter g) = (Inr (), rl)"
        "choose_backend caps discovered (gw_app g) (fl_request f) (fl_principal f) = Inr pp"
        "\<not> refused_result res"
        "result_db (app_db (gw_app g)) res = snd (finish_usage (gw_app g) (en_record_id en) (fl_key f) (fl_client f)
           (flight_args en pp (answers (pp_backend pp) (pp_request pp)) (streams (pp_backend pp) (pp_request pp)) interrupt))"
    using handler_result [OF assms(1,4)] by blast
  then show ?thesis
  proof cases
    case 1
    then show ?thesis using sys_reach_step [OF check_refused [OF assms(2,3) 1(1)]] assms(6) by (simp add: same)
  next
    case 2
    have "sys_step h secret caps g ?g1" by (rule check_passed [OF assms(2,3) 2(1)])
    moreover have "sys_step h secret caps ?g1 (set_flight c None ?g1)"
      by (rule route_refused [where f = "f\<lparr> fl_phase := Routing \<rparr>"]) (use 2(2) in simp_all)
    moreover have "set_flight c None ?g1 = set_flight c None (g\<lparr> gw_limiter := rl \<rparr>)"
      by (simp add: set_flight_def)
    ultimately show ?thesis using 2(3) assms(6) by (simp add: same) (metis sys_reach.intros)
  next
    case 3
    let ?g2 = "to_phase c f (Acquiring pp) (g\<lparr> gw_limiter := rl \<rparr>)" and ?db = "result_db (app_db (gw_app g)) res"
    have "sys_step h secret caps g ?g1" by (rule check_passed [OF assms(2,3) 3(1)])
    moreover have "sys_step h secret caps ?g1 (to_phase c (f\<lparr> fl_phase := Routing \<rparr>) (Acquiring pp) ?g1)"
      by (rule routed) (use 3(2) in simp_all)
    moreover have "to_phase c (f\<lparr> fl_phase := Routing \<rparr>) (Acquiring pp) ?g1 = ?g2"
      by (simp add: set_flight_def)
    ultimately have "sys_reach h secret caps g ?g2" by (metis sys_reach.intros)
    moreover have "sys_reach h secret caps ?g2 (set_flight c None (with_db ?db (?g2\<lparr> gw_admission := adm \<rparr>)))"
      by (rule flight_runs [where f = "f\<lparr> fl_phase := Acquiring pp \<rparr>"]) (use assms 3 in simp_all)
    moreover have "set_flight c None (with_db ?db (?g2\<lparr> gw_admission := adm \<rparr>)) =
        set_flight c None (with_db ?db (g\<lparr> gw_limiter := rl, gw_admission := adm \<rparr>))"
      by (simp add: set_flight_def with_db_def)
    ultimately show ?thesis by (metis sys_reach_trans)
  qed
qed

section \<open>Instances\<close>

theorem serving_bounded_witness:
  "\<exists>st evs. lifespan_start Lifecycle.sample_env default_settings = (Inr st, evs) \<and>
     int (card (serving (gateway_of st (Some sample_store)))) \<le> 1"
proof -
  obtain st evs where s: "lifespan_start Lifecycle.sample_env default_settings = (Inr st, evs)"
    using sample_start by blast
  have "db_ok (Some sample_store)" by (simp add: db_ok_def sample_store_ok)
  from serving_bounded [OF default_settings_valid s this sys_refl [of id "''s''" "\<lambda>_. []"]] s show ?thesis
    by (auto simp: default_settings_def)
qed

theorem gateway_drains_witness:
  "\<exists>st evs g'. lifespan_start Lifecycle.sample_env default_settings = (Inr st, evs) \<and>
     sys_reach id ''s'' (\<lambda>_. []) (gateway_of st (Some sample_store)) g' \<and> sem_value (sem (gw_admission g')) = 1"
proof -
  obtain st evs where s: "lifespan_start Lifecycle.sample_env default_settings = (Inr st, evs)"
    using sample_start by blast
  have "db_ok (Some sample_store)" by (simp add: db_ok_def sample_store_ok)
  from gateway_drains [OF s this sys_refl [of id "''s''" "\<lambda>_. []"]] s show ?thesis
    by (fastforce simp: default_settings_def)
qed

definition sample_flight :: "string \<Rightarrow> unit flight" where
  "sample_flight i = \<lparr> fl_request_id = ''r'', fl_request = sample_request True,
     fl_principal = sample_principal (Some [''m'']), fl_key = sample_key\<lparr> k_id := i \<rparr>,
     fl_client = sample_client, fl_phase = Checking \<rparr>"

definition sample_gateway :: "string \<Rightarrow> store option \<Rightarrow> unit gateway" where
  "sample_gateway i db = \<lparr> gw_app = sample_app\<lparr> app_usage := None, app_db := db \<rparr>,
     gw_limiter = new_limiter 60, gw_admission = new_admission 1 1 30,
     gw_flights = [0 \<mapsto> sample_flight i] \<rparr>"

lemma sample_checked:
  "sys_step h secret caps (sample_gateway i db) (to_phase 0 (sample_flight i) Routing (sample_gateway i db))"
proof -
  have same: "sample_gateway i db\<lparr> gw_limiter := new_limiter 60 \<rparr> = sample_gateway i db"
    by (simp add: sample_gateway_def)
  have "sys_step h secret caps (sample_gateway i db)
      (to_phase 0 (sample_flight i) Routing (sample_gateway i db\<lparr> gw_limiter := new_limiter 60 \<rparr>))"
    by (rule check_passed) (simp_all add: sample_gateway_def usage_precheck_def, simp add: sample_flight_def)
  then show ?thesis unfolding same .
qed

theorem revoked_key_drains_witness:
  "\<exists>out s' f. guarded ''s'' (Some ''s'') None (revoke_api_key_route ''k1'' 5 (Some sample_store)) = Inr (out, s') \<and>
     gw_flights (sample_gateway ''k1'' (Some sample_store)) 0 = Some f \<and>
     same_request f (sample_flight ''k1''\<lparr> fl_phase := Routing \<rparr>)"
proof -
  let ?g = "sample_gateway ''k1'' (Some sample_store)"
  have "require_admin ''s'' (Some ''s'') None = Inr ()"
    by (simp add: require_admin_def provided_secret_def compare_digest_def)
  then obtain out s' where r: "guarded ''s'' (Some ''s'') None (revoke_api_key_route ''k1'' 5 (Some sample_store)) = Inr (out, s')"
    by (simp add: guarded_def revoke_api_key_route_def with_session_def get_db_session_def revoke_api_key_def
        get_api_key_def keys_with_id_def sample_store_def)
  have g: "with_db (Some s') ?g = sample_gateway ''k1'' (Some s')"
    by (simp add: with_db_def sample_gateway_def)
  have "sys_reach id ''s'' (\<lambda>_. []) (with_db (Some s') ?g)
      (to_phase 0 (sample_flight ''k1'') Routing (sample_gateway ''k1'' (Some s')))"
    unfolding g by (rule sys_reach_step [OF sample_checked])
  from revoked_key_drains [OF _ sample_store_ok r this, of 0 "sample_flight ''k1''\<lparr> fl_phase := Routing \<rparr>"] r
  show ?thesis by (auto simp: sample_gateway_def sample_flight_def)
qed

lemma handler_is_flight_witness:
  "\<exists>res rl adm db. create_chat_completion (\<lambda>_. [CapChatCompletions, CapStreaming]) sample_models_of
       (sample_app\<lparr> app_usage := None \<rparr>) (sample_request True) (sample_principal (Some [''m'']), sample_key, sample_client)
       0 50 50 (Serving.sample_env None) Inr (\<lambda>_ _. Inl CancelledError) (\<lambda>_ _. ([sample_chunk], None))
       (Some (1, GeneratorExit)) (new_limiter 60) = (res, rl) \<and> \<not> refused_result res \<and>
     sys_reach id ''s'' (\<lambda>_. [CapChatCompletions, CapStreaming]) (sample_gateway ''k'' (Some empty_store))
       (set_flight 0 None (with_db (result_db (Some empty_store) res)
          (sample_gateway ''k'' (Some empty_store)\<lparr> gw_limiter := rl, gw_admission := adm \<rparr>)))"
proof -
  let ?g = "sample_gateway ''k'' (Some empty_store)" and ?f = "sample_flight ''k''"
  have app: "gw_app ?g = sample_app\<lparr> app_usage := None \<rparr>" "gw_limiter ?g = new_limiter 60"
    "gw_flights ?g 0 = Some ?f" "fl_phase ?f = Checking" "app_has_admission (gw_app ?g)"
    by (simp_all add: sample_gateway_def sample_app_def sample_flight_def)
  have f: "fl_request ?f = sample_request True" "fl_principal ?f = sample_principal (Some [''m''])"
    "fl_key ?f = sample_key" "fl_client ?f = sample_client"
    "en_request_id (Serving.sample_env None) = fl_request_id ?f"
    by (simp_all add: sample_flight_def sample_key_def Serving.sample_env_def)
  obtain res rl where run: "create_chat_completion (\<lambda>_. [CapChatCompletions, CapStreaming]) sample_models_of
       (sample_app\<lparr> app_usage := None \<rparr>) (sample_request True) (sample_principal (Some [''m'']), sample_key, sample_client)
       0 50 50 (Serving.sample_env None) Inr (\<lambda>_ _. Inl CancelledError) (\<lambda>_ _. ([sample_chunk], None))
       (Some (1, GeneratorExit)) (new_limiter 60) = (res, rl)" by (metis surj_pair)
  have "result_trace res \<noteq> []" using sample_run_trace run by simp
  then have nr: "\<not> refused_result res" by (cases res) simp_all
  obtain a1 adm where e: "adm_exec (new_admission 1 1 30) (Arrive 0 0) = Some (Some Entered, a1)"
      "adm_exec a1 (Leave 0) = Some (None, adm)"
    by (auto simp: new_admission_def known_def acquire_def take_slot_def sem_acquire_def sem_locked_def leave_eq)
  have "slot_used 0 None (gw_admission ?g) adm"
    using adm_exec_step [OF e(1)] adm_exec_step [OF e(2)] by (auto simp: sample_gateway_def)
  then have "if refused_result res then adm = gw_admission ?g
      else slot_used 0 (en_slot (Serving.sample_env None)) (gw_admission ?g) adm"
    using nr by (simp add: Serving.sample_env_def)
  from handler_is_flight [OF _ app(3-5) f(5) this, unfolded f(1-4) app(1,2), OF run] run nr
  show ?thesis by (auto simp: sample_app_def)
qed

end
