(* ===== verification/Responses.thy ===== *)
theory Responses
  imports Serving
begin

text \<open>
  The response schemas of \<open>app/api/chat_schemas.py\<close> and the JSON they write: what a client of
  \<open>/v1/models\<close> and of a completion without streaming receives.  The conversion of a value to an
  integer field is pydantic's, the parameter \<open>lax\<close>; what is used of it is \<open>lax_ok\<close>.
\<close>

section \<open>Fields\<close>

definition lax_ok :: "(json \<Rightarrow> int option) \<Rightarrow> bool" where
  "lax_ok lax \<longleftrightarrow> (\<forall>i. lax (JInt i) = Some i)"

definition str_field :: "json \<Rightarrow> bool" where
  "str_field v = (case v of JStr _ \<Rightarrow> True | _ \<Rightarrow> False)"

definition opt_field :: "(json \<Rightarrow> bool) \<Rightarrow> json \<Rightarrow> bool" where
  "opt_field P v \<longleftrightarrow> v = JNull \<or> P v"

definition int_value :: "(json \<Rightarrow> int option) \<Rightarrow> json \<Rightarrow> json option" where
  "int_value lax v = map_option JInt (lax v)"

definition schema_error :: exn where
  "schema_error = PyError ''ValidationError''"

section \<open>Models\<close>

definition new_model_info :: "(json \<Rightarrow> int option) \<Rightarrow> model_info \<Rightarrow> exn + model_info" where
  "new_model_info lax m =
     (case (if i_created m = JNull then Some JNull else int_value lax (i_created m)) of
        None \<Rightarrow> Inl schema_error
      | Some created \<Rightarrow>
          if i_object m = JStr ''model'' \<and> str_field (i_owned_by m) then Inr (m\<lparr> i_created := created \<rparr>)
          else Inl schema_error)"

definition model_info_json :: "model_info \<Rightarrow> json" where
  "model_info_json m =
     JObj [(''id'', JStr (i_id m)), (''object'', i_object m), (''owned_by'', i_owned_by m),
           (''created'', i_created m)]"

definition models_list_json :: "model_info list \<Rightarrow> json" where
  "models_list_json ms = JObj [(''object'', JStr ''list''), (''data'', JList (map model_info_json ms))]"

section \<open>Completions\<close>

definition valid_choice :: "chat_choice \<Rightarrow> bool" where
  "valid_choice c \<longleftrightarrow>
     msg_role (cc_message c) = JStr ''assistant'' \<and> str_field (msg_content (cc_message c)) \<and>
     opt_field str_field (cc_finish_reason c)"

definition new_usage :: "(json \<Rightarrow> int option) \<Rightarrow> chat_usage \<Rightarrow> chat_usage option" where
  "new_usage lax u =
     (case (int_value lax (cu_prompt_tokens u), int_value lax (cu_completion_tokens u),
            int_value lax (cu_total_tokens u)) of
        (Some p, Some c, Some t) \<Rightarrow>
          Some \<lparr> cu_prompt_tokens = p, cu_completion_tokens = c, cu_total_tokens = t \<rparr>
      | _ \<Rightarrow> None)"

definition new_completion :: "(json \<Rightarrow> int option) \<Rightarrow> chat_response \<Rightarrow> exn + chat_response" where
  "new_completion lax r =
     (case (int_value lax (cp_created r), new_usage lax (cp_usage r)) of
        (Some created, Some usage) \<Rightarrow>
          if str_field (cp_id r) \<and> cp_object r = JStr ''chat.completion'' \<and> str_field (cp_model r) \<and>
             list_all valid_choice (cp_choices r) \<and> opt_field str_field (cp_system_fingerprint r)
          then Inr (r\<lparr> cp_created := created, cp_usage := usage \<rparr>)
          else Inl schema_error
      | _ \<Rightarrow> Inl schema_error)"

definition choice_json :: "chat_choice \<Rightarrow> json" where
  "choice_json c =
     JObj [(''index'', JInt (cc_index c)),
           (''message'', JObj [(''role'', msg_role (cc_message c)), (''content'', msg_content (cc_message c))]),
           (''finish_reason'', cc_finish_reason c)]"

definition completion_json :: "chat_response \<Rightarrow> json" where
  "completion_json r =
     JObj [(''id'', cp_id r), (''object'', cp_object r), (''created'', cp_created r), (''model'', cp_model r),
           (''choices'', JList (map choice_json (cp_choices r))),
           (''usage'', JObj [(''prompt_tokens'', cu_prompt_tokens (cp_usage r)),
                             (''completion_tokens'', cu_completion_tokens (cp_usage r)),
                             (''total_tokens'', cu_total_tokens (cp_usage r))]),
           (''system_fingerprint'', cp_system_fingerprint r)]"

section \<open>What the client receives\<close>

lemma new_completion_id:
  "new_completion lax r = Inr r' \<Longrightarrow> cp_id r' = cp_id r \<and> cp_choices r' = cp_choices r \<and> cp_model r' = cp_model r"
  by (auto simp: new_completion_def split: option.splits if_splits)

text \<open>The answer of an OpenAI server, as JSON: the contents of the choices with their finish reasons, in
  order, and the three counts of tokens.\<close>

definition openai_answer ::
  "string \<Rightarrow> int \<Rightarrow> string \<Rightarrow> (string \<times> string option) list \<Rightarrow> int \<times> int \<times> int \<Rightarrow> string option \<Rightarrow> json" where
  "openai_answer i created model choices u fingerprint =
     JObj [(''id'', JStr i), (''object'', JStr ''chat.completion''), (''created'', JInt created),
           (''model'', JStr model),
           (''choices'', JList (map (\<lambda>(n, text, fin).
              JObj [(''index'', JInt (int n)),
                    (''message'', JObj [(''role'', JStr ''assistant''), (''content'', JStr text)]),
                    (''finish_reason'', opt_json JStr fin)]) (enumerate 0 choices))),
           (''usage'', JObj [(''prompt_tokens'', JInt (fst u)), (''completion_tokens'', JInt (fst (snd u))),
                             (''total_tokens'', JInt (snd (snd u)))]),
           (''system_fingerprint'', opt_json JStr fingerprint)]"

definition answer_choice :: "nat \<times> string \<times> string option \<Rightarrow> chat_choice" where
  "answer_choice = (\<lambda>(n, text, fin).
     \<lparr> cc_index = int n, cc_message = \<lparr> msg_role = JStr ''assistant'', msg_content = JStr text \<rparr>,
       cc_finish_reason = opt_json JStr fin \<rparr>)"

lemma parse_answer_choices:
  "map_res parse_choice (enumerate m (map (\<lambda>(n, text, fin).
      JObj [(''index'', JInt (int n)),
            (''message'', JObj [(''role'', JStr ''assistant''), (''content'', JStr text)]),
            (''finish_reason'', opt_json JStr fin)]) (enumerate m cs))) = Inr (map answer_choice (enumerate m cs))"
  by (induction cs arbitrary: m)
    (auto simp: parse_choice_def as_object_def get_default_def json_get_def answer_choice_def)

lemma normalize_answer:
  "normalize_response requested (openai_answer i created model cs u fp) =
     Inr \<lparr> cp_id = JStr i, cp_object = JStr ''chat.completion'', cp_created = JInt created, cp_model = JStr model,
           cp_choices = map answer_choice (enumerate 0 cs),
           cp_usage = \<lparr> cu_prompt_tokens = JInt (fst u), cu_completion_tokens = JInt (fst (snd u)),
                        cu_total_tokens = JInt (snd (snd u)) \<rparr>,
           cp_system_fingerprint = opt_json JStr fp \<rparr>"
  by (simp add: normalize_response_def openai_answer_def as_object_def iterate_def get_default_def json_get_def
      json_or_def parse_answer_choices)

lemma answer_choice_simps:
  "list_all valid_choice (map answer_choice xs)"
  "choice_json (answer_choice x) = (case x of (n, text, fin) \<Rightarrow>
      JObj [(''index'', JInt (int n)),
            (''message'', JObj [(''role'', JStr ''assistant''), (''content'', JStr text)]),
            (''finish_reason'', opt_json JStr fin)])"
  by (auto simp: list_all_iff valid_choice_def answer_choice_def opt_field_def str_field_def opt_json_def
      choice_json_def split: option.splits prod.split)

lemma field_simps:
  "json_or (JStr i) (JStr j) = JStr (if i = [] then j else i)"
  "json_or (JInt x) (JInt y) = JInt (if x = 0 then y else x)"
  "str_field (JStr v)" "opt_field str_field (opt_json JStr w)"
  by (simp_all add: json_or_def str_field_def opt_field_def opt_json_def split: option.split)

text \<open>C29: A completion is relayed: when the backend answers with an OpenAI completion, the client receives the
  same JSON, with the contents and finish reasons of all choices in order, the counts of tokens and the
  fingerprint, under the model's public name; only an empty id and a zero time are replaced.\<close>

theorem completion_relayed:
  assumes "lax_ok lax" "app_has_admission a" "en_slot en = None" "posted = Inr \<lparr> status_code = 200, body_json = Inr data \<rparr>"
    "data = openai_answer i created model cs u fp"
    "non_streaming_completion a en (new_completion lax) k c pp (chat_completion isa (pp_request pp) posted) = (res, tr, db)"
  shows "map_sum id completion_json res = Inr (openai_answer
      (if i = [] then ''chatcmpl-'' @ show_int \<lfloor>en_unix_time en * 1000\<rfloor> else i)
      (if created = 0 then \<lfloor>en_unix_time en\<rfloor> else created)
      (model_name (pp_canonical pp) (pp_request pp)) cs u fp)"
proof -
  have answer: "chat_completion isa (pp_request pp) posted = normalize_response (cr_model (pp_request pp)) data"
    by (simp add: assms(4) chat_completion_def)
  have int: "int_value lax (JInt x) = Some (JInt x)" for x
    using assms(1) by (simp add: int_value_def lax_ok_def)
  have "res = (case snd (snd (completion_outcome None (normalize_response (cr_model (pp_request pp)) data))) of
      Inl e \<Rightarrow> Inl e | Inr resp \<Rightarrow> new_completion lax (api_response en (pp_canonical pp) (pp_request pp) resp))"
    using assms(6) by (simp add: non_streaming_wired [OF assms(2)] assms(3) answer)
  then have "res = new_completion lax (api_response en (pp_canonical pp) (pp_request pp)
      (projr (normalize_response (cr_model (pp_request pp)) data)))"
    by (simp add: completion_outcome_def assms(5) normalize_answer)
  then show ?thesis
    by (simp add: assms(5) normalize_answer api_response_def new_completion_def new_usage_def int field_simps
        answer_choice_simps completion_json_def)
      (simp add: openai_answer_def answer_choice_simps)
qed

theorem completion_relayed_witness:
  "\<exists>res tr db. non_streaming_completion sample_app (sample_env None) (new_completion (\<lambda>v. case v of JInt i \<Rightarrow> Some i | _ \<Rightarrow> None))
      sample_key sample_client sample_prepared
      (chat_completion (\<lambda>_ _. False) (pp_request sample_prepared) (Inr \<lparr> status_code = 200, body_json =
         Inr (openai_answer ''c1'' 7 ''gguf'' [(''hi'', Some ''stop''), (''ho'', None)] (1, 2, 3) None) \<rparr>)) = (res, tr, db) \<and>
    map_sum id completion_json res =
      Inr (openai_answer ''c1'' 7 ''m'' [(''hi'', Some ''stop''), (''ho'', None)] (1, 2, 3) None)"
proof -
  let ?lax = "\<lambda>v. case v of JInt i \<Rightarrow> Some i | _ \<Rightarrow> None"
  let ?posted = "Inr \<lparr> status_code = 200, body_json =
    Inr (openai_answer ''c1'' 7 ''gguf'' [(''hi'', Some ''stop''), (''ho'', None)] (1, 2, 3) None) \<rparr>"
  have lax: "lax_ok ?lax" by (simp add: lax_ok_def)
  have env: "app_has_admission sample_app" "en_slot (sample_env None) = None"
    "model_name (pp_canonical sample_prepared) (pp_request sample_prepared) = ''m''"
    by (simp_all add: sample_app_def sample_env_def sample_prepared_def model_name_def)
  obtain res tr db where run: "non_streaming_completion sample_app (sample_env None) (new_completion ?lax)
      sample_key sample_client sample_prepared
      (chat_completion (\<lambda>_ _. False) (pp_request sample_prepared) ?posted) = (res, tr, db)"
    by (metis prod_cases3)
  from completion_relayed [OF lax env(1,2) refl refl this] run env(3) show ?thesis by auto
qed

text \<open>The schema accepts a text as content only.  For an answer with a null content, which OpenAI servers
  give for tool calls, the record says completed while the client gets an internal error.\<close>

lemma null_content_lost:
  assumes "app_has_admission a" "en_slot en = None" "app_usage a \<noteq> None"
    "ch \<in> set (cp_choices resp)" "msg_content (cc_message ch) = JNull"
    "non_streaming_completion a en (new_completion lax) k c pp (Inr resp) = (res, tr, db)"
  shows "res = Inl schema_error \<and> (\<exists>args. Recorded args \<in> set tr \<and> a_outcome args = completed)"
proof -
  have "\<not> valid_choice ch" using assms(5) by (simp add: valid_choice_def str_field_def)
  then have "new_completion lax (api_response en m r resp) = Inl schema_error" for m r
    using assms(4) by (auto simp: new_completion_def api_response_def list_all_iff split: option.split)
  moreover have "Recorded (completion_args en (pp_canonical pp) (pp_request pp) (pp_backend_id pp) (Inr resp)) \<in> set tr"
    using assms(6,3) by (auto simp: non_streaming_wired [OF assms(1)] finish_usage_trace)
  moreover have "a_outcome (completion_args en (pp_canonical pp) (pp_request pp) (pp_backend_id pp) (Inr resp)) = completed"
    by (simp add: completion_args_def completion_outcome_def assms(2) Let_def)
  ultimately show ?thesis
    using assms(6) by (auto simp: non_streaming_wired [OF assms(1)] completion_outcome_def assms(2))
qed

text \<open>One served model whose \<open>object\<close> is not the literal \<open>model\<close> takes the whole list down.\<close>

lemma listing_lost:
  assumes "m \<in> set ms" "i_object m \<noteq> JStr ''model''"
  shows "map_res (new_model_info lax) ms = Inl schema_error"
proof (cases "map_res (new_model_info lax) ms")
  case (Inl e)
  then show ?thesis
    by (induction ms) (auto simp: new_model_info_def split: sum.splits option.splits if_splits)
next
  case (Inr ys)
  with assms have "\<exists>y. new_model_info lax m = Inr y"
    by (induction ms arbitrary: ys) (auto simp: res_simps)
  with assms(2) show ?thesis by (auto simp: new_model_info_def split: option.splits)
qed

end
