(* ===== verification/Gateway.thy ===== *)
theory Gateway
  imports System Responses AdminStatus Dashboard
begin

text \<open>
  The application that \<open>create_app\<close> of \<open>app/main.py\<close> builds, as a function from a request to its
  response: the middlewares in the order in which they are added, the table of routes with the
  dependencies each has, the exception handlers, and the endpoints of the data plane.  What FastAPI
  and Starlette do is the record \<open>framework\<close>, and what \<open>create_app\<close> relies on is \<open>framework_ok\<close>.  The
  handlers of the management plane and of health are an argument here; \<open>Management\<close> gives it, over the
  operations of \<open>AdminApi\<close>, \<open>AdminStatus\<close>, \<open>Dashboard\<close> and \<open>Health\<close>.
\<close>

section \<open>Routes\<close>

datatype endpoint =
    Liveness | Readiness
  | ListModels | CreateChatCompletion
  | CreateUser | ListUsers | CreateClient | ListClients
  | CreateApiKey | ListApiKeys | RevokeApiKey | RotateApiKey
  | GetStatus | GetUsageSummary | GetClientUsage | GetApiKeyUsage
  | GetClientPolicy | UpdateClientPolicy
  | ObservabilitySummary | ObservabilityLatency | ObservabilityRecent | ObservabilityClients
  | ObservabilityModels | RoutingPreview | ObservabilityBackends
  | AdminDashboard | PrometheusMetrics | GetOverview | GetModels | GetBackends | GetSettings
  | AdminUi | Root

datatype guard = NoGuard | RequireAdmin | AuthenticateRequest | AuthenticateWithOrm

record route =
  rt_endpoint :: endpoint
  rt_method :: string
  rt_path :: string
  rt_guard :: guard

definition under :: "string \<Rightarrow> guard \<Rightarrow> (string \<times> string \<times> endpoint) list \<Rightarrow> route list" where
  \<comment> \<open>an \<open>APIRouter\<close> with a prefix and a dependency\<close>
  "under pre dep rs =
     map (\<lambda>(m, p, e). \<lparr> rt_endpoint = e, rt_method = m, rt_path = pre @ p, rt_guard = dep \<rparr>) rs"

definition health_router :: "route list" where
  "health_router = under [] NoGuard
     [(''GET'', ''/health/liveness'', Liveness), (''GET'', ''/health'', Liveness),
      (''GET'', ''/health/ready'', Readiness)]"

definition chat_router :: "route list" where
  "chat_router =
     under ''/v1'' AuthenticateRequest [(''GET'', ''/models'', ListModels)] @
     under ''/v1'' AuthenticateWithOrm [(''POST'', ''/chat/completions'', CreateChatCompletion)]"

definition admin_router :: "route list" where
  "admin_router = under ''/admin'' RequireAdmin
     [(''POST'', ''/users'', CreateUser), (''GET'', ''/users'', ListUsers),
      (''POST'', ''/clients'', CreateClient), (''GET'', ''/clients'', ListClients),
      (''POST'', ''/api-keys'', CreateApiKey), (''GET'', ''/api-keys'', ListApiKeys),
      (''POST'', ''/api-keys/{api_key_id}/revoke'', RevokeApiKey),
      (''POST'', ''/api-keys/{api_key_id}/rotate'', RotateApiKey),
      (''GET'', ''/status'', GetStatus), (''GET'', ''/usage'', GetUsageSummary),
      (''GET'', ''/usage/clients/{client_id}'', GetClientUsage),
      (''GET'', ''/usage/keys/{api_key_id}'', GetApiKeyUsage),
      (''GET'', ''/clients/{client_id}/policy'', GetClientPolicy),
      (''PUT'', ''/clients/{client_id}/policy'', UpdateClientPolicy),
      (''GET'', ''/observability/summary'', ObservabilitySummary),
      (''GET'', ''/observability/latency'', ObservabilityLatency),
      (''GET'', ''/observability/recent'', ObservabilityRecent),
      (''GET'', ''/observability/clients'', ObservabilityClients),
      (''GET'', ''/observability/models'', ObservabilityModels),
      (''POST'', ''/routing/preview'', RoutingPreview),
      (''GET'', ''/observability/backends'', ObservabilityBackends),
      (''GET'', ''/dashboard'', AdminDashboard), (''GET'', ''/metrics'', PrometheusMetrics),
      (''GET'', ''/overview'', GetOverview), (''GET'', ''/models'', GetModels),
      (''GET'', ''/backends'', GetBackends), (''GET'', ''/settings'', GetSettings)]"

definition ui_router :: "route list" where
  "ui_router = under ''/admin'' NoGuard [(''GET'', ''/ui'', AdminUi)]"

definition app_routes :: "route list" where
  "app_routes = health_router @ chat_router @ admin_router @ ui_router @
     under [] NoGuard [(''GET'', ''/'', Root)]"

definition render_admin_ui :: "string option \<Rightarrow> string" where
  \<comment> \<open>of the template's text, if the file exists\<close>
  "render_admin_ui template =
     (case template of
        Some t \<Rightarrow> t
      | None \<Rightarrow> ''<!doctype html><html><head><meta charset=\"utf-8\"><title>Syn Admin</title></head><body>'' @
          ''<h1>Syn Admin UI</h1><p>Place admin_base.html in app/templates/.</p></body></html>'')"

section \<open>Requests, and what the framework does\<close>

record http_request =
  hq_method :: string
  hq_path :: string
  hq_headers :: "(string \<times> string) list" \<comment> \<open>by lower case names\<close>
  hq_body :: string

definition header :: "string \<Rightarrow> http_request \<Rightarrow> string option" where
  "header name req = map_of (hq_headers req) name"

type_synonym 'st application = "http_request \<Rightarrow> string option \<Rightarrow> 'st \<Rightarrow> (exn + response) \<times> 'st"

datatype endpoint_result = Answer response | Raise exn | Invalid "validation_detail list"

record 'st framework =
  fw_stack :: "('st application \<Rightarrow> 'st application) list \<Rightarrow> 'st application \<Rightarrow> 'st application"
  fw_cors :: "string list \<Rightarrow> 'st application \<Rightarrow> 'st application"
  fw_resolve :: "route list \<Rightarrow> http_request \<Rightarrow> (route \<times> string list) option"
  fw_read_body :: "route \<Rightarrow> http_request \<Rightarrow> validation_detail list + json"
  fw_schema :: "json \<Rightarrow> validation_detail list + api_request"
  fw_lax :: "json \<Rightarrow> int option"
  fw_fallback :: "http_request \<Rightarrow> response"

definition last_added_outermost ::
  "(('st application \<Rightarrow> 'st application) list \<Rightarrow> 'st application \<Rightarrow> 'st application) \<Rightarrow> bool" where
  "last_added_outermost stack \<longleftrightarrow>
     (\<forall>app. stack [] app = app) \<and> (\<forall>mws mw app. stack (mws @ [mw]) app = mw (stack mws app))"

definition decorates :: "(string list \<Rightarrow> 'st application \<Rightarrow> 'st application) \<Rightarrow> bool" where
  \<comment> \<open>the CORS middleware answers a preflight request itself, and only adds headers to the rest\<close>
  "decorates cors \<longleftrightarrow>
     (\<forall>origins app req rid st.
        hq_method req = ''OPTIONS'' \<and> (\<exists>r. cors origins app req rid st = (Inr r, st)) \<or>
        (\<exists>hs. cors origins app req rid st =
           apfst (map_sum id (\<lambda>r. r\<lparr> rsp_headers := rsp_headers r @ hs \<rparr>)) (app req rid st)))"

definition framework_ok :: "'st framework \<Rightarrow> bool" where
  "framework_ok fw \<longleftrightarrow>
     last_added_outermost (fw_stack fw) \<and> decorates (fw_cors fw) \<and>
     (\<forall>rs req r ps. fw_resolve fw rs req = Some (r, ps) \<longrightarrow>
        r \<in> set rs \<and> rt_method r = hq_method req \<and> (CHR ''{'' \<in> set (rt_path r) \<or> hq_path req = rt_path r)) \<and>
     (\<forall>j r. fw_schema fw j = Inr r \<longrightarrow> valid_request r)"

section \<open>Middlewares and handlers\<close>

definition request_id_middleware :: "string \<Rightarrow> 'st application \<Rightarrow> 'st application" where
  "request_id_middleware fresh app req bound st =
     (case request_id_dispatch (header ''x-request-id'' req) fresh (\<lambda>rid. app req (Some rid)) bound st of
        (res, _, st') \<Rightarrow> (res, st'))"

definition request_size_middleware :: "int \<Rightarrow> 'st application \<Rightarrow> 'st application" where
  "request_size_middleware limit app req rid st =
     request_size_dispatch limit (header ''content-length'' req) (hq_path req) rid (app req rid) st"

definition exception_handlers :: "string \<Rightarrow> string option \<Rightarrow> endpoint_result \<Rightarrow> exn + response" where
  "exception_handlers path rid res =
     (case res of
        Answer r \<Rightarrow> Inr r
      | Raise (Syn e) \<Rightarrow> Inr (handle_error path rid e)
      | Raise e \<Rightarrow> Inl e
      | Invalid errors \<Rightarrow> Inr (validation_error_handler path rid errors))"

section \<open>Endpoints\<close>

record 'b http_state =
  hs_app :: "'b app"
  hs_limiter :: rate_limiter
  hs_actions :: "action list"

definition db_of :: "'b http_state \<Rightarrow> store option" where
  "db_of st = app_db (hs_app st)"

definition put_db :: "store option \<Rightarrow> 'b http_state \<Rightarrow> 'b http_state" where
  "put_db db st = st\<lparr> hs_app := (hs_app st)\<lparr> app_db := db \<rparr> \<rparr>"

record 'b world =
  \<comment> \<open>what one request meets: clocks, random values and the backends\<close>
  wo_fresh_id :: string
  wo_hash :: "string \<Rightarrow> string"
  wo_commit_ok :: bool
  wo_now :: datetime
  wo_tick :: time
  wo_now1 :: datetime
  wo_now2 :: datetime
  wo_env :: request_env
  wo_caps :: "'b \<Rightarrow> backend_capability list"
  wo_discovered :: "'b \<Rightarrow> exn + model_info list"
  wo_answers :: "'b \<Rightarrow> chat_request \<Rightarrow> exn + chat_response"
  wo_streams :: "'b \<Rightarrow> chat_request \<Rightarrow> chat_chunk list \<times> exn option"
  wo_interrupt :: "(nat \<times> exn) option"
  wo_ui_template :: "string option"

definition request_env_of :: "'b world \<Rightarrow> string option \<Rightarrow> request_env" where
  \<comment> \<open>\<open>get_request_id\<close> while the request is handled\<close>
  "request_env_of w rid = (case rid of None \<Rightarrow> wo_env w | Some i \<Rightarrow> (wo_env w)\<lparr> en_request_id := i \<rparr>)"

definition stream_response :: "string \<Rightarrow> response" where
  "stream_response rid =
     \<lparr> rsp_status = 200,
       rsp_headers = [(''content-type'', ''text/event-stream; charset=utf-8''), (''cache-control'', ''no-cache''),
                      (''x-request-id'', rid)],
       rsp_payload = JNull \<rparr>"

definition chat_endpoint ::
  "'b http_state framework \<Rightarrow> 'b world \<Rightarrow> json \<Rightarrow> http_request \<Rightarrow> string option \<Rightarrow> 'b http_state
     \<Rightarrow> endpoint_result \<times> 'b http_state" where
  \<comment> \<open>the dependency comes before the schema of the body\<close>
  "chat_endpoint fw w body req rid st =
     (case authenticate_with_orm (wo_hash w) (wo_commit_ok w) (wo_now w) (header ''authorization'' req) (db_of st) of
        (Inl e, db) \<Rightarrow> (Raise e, put_db db st)
      | (Inr auth, db) \<Rightarrow>
          (case fw_schema fw body of
             Inl errors \<Rightarrow> (Invalid errors, put_db db st)
           | Inr r \<Rightarrow>
               let st = put_db db st; en = request_env_of w rid;
                   (res, rl) = create_chat_completion (wo_caps w) (wo_discovered w) (hs_app st) r auth
                     (wo_tick w) (wo_now1 w) (wo_now2 w) en (new_completion (fw_lax fw)) (wo_answers w) (wo_streams w)
                     (wo_interrupt w) (hs_limiter st);
                   st = (put_db (result_db (db_of st) res) st)
                     \<lparr> hs_limiter := rl, hs_actions := hs_actions st @ result_trace res \<rparr>
               in (case res of
                     Refused e \<Rightarrow> (Raise e, st)
                   | JsonResult (Inl e) _ _ \<Rightarrow> (Raise e, st)
                   | JsonResult (Inr resp) _ _ \<Rightarrow> (Answer (json_response 200 (completion_json resp)), st)
                   | StreamResult _ _ _ \<Rightarrow> (Answer (stream_response (en_request_id en)), st))))"

definition list_models_endpoint ::
  "'b http_state framework \<Rightarrow> 'b world \<Rightarrow> http_request \<Rightarrow> 'b http_state \<Rightarrow> endpoint_result \<times> 'b http_state" where
  "list_models_endpoint fw w req st =
     (case authenticate_request (wo_hash w) (wo_commit_ok w) (wo_now w) (header ''authorization'' req) (db_of st) of
        (Inl e, db) \<Rightarrow> (Raise e, put_db db st)
      | (Inr p, db) \<Rightarrow>
          (case chat_list_models (wo_discovered w) (new_model_info (fw_lax fw)) (hs_app st) p of
             Inl e \<Rightarrow> (Raise e, put_db db st)
           | Inr ms \<Rightarrow> (Answer (json_response 200 (models_list_json ms)), put_db db st)))"

definition root :: "settings \<Rightarrow> response" where
  "root se = json_response 200
     (JObj [(''service'', JStr (py_lower (se_app_name se))), (''version'', JStr (se_app_version se))])"

type_synonym 'b handlers =
  "endpoint \<Rightarrow> string list \<Rightarrow> json \<Rightarrow> http_request \<Rightarrow> string option \<Rightarrow> 'b http_state
     \<Rightarrow> endpoint_result \<times> 'b http_state"

definition run_route ::
  "'b http_state framework \<Rightarrow> settings \<Rightarrow> 'b world \<Rightarrow> 'b handlers \<Rightarrow> route \<Rightarrow> string list \<Rightarrow> json
     \<Rightarrow> http_request \<Rightarrow> string option \<Rightarrow> 'b http_state \<Rightarrow> endpoint_result \<times> 'b http_state" where
  "run_route fw se w others r ps body req rid st =
     (case rt_guard r of
        RequireAdmin \<Rightarrow>
          (case require_admin (se_admin_secret se) (header ''x-admin-secret'' req) (header ''authorization'' req) of
             Inl e \<Rightarrow> (Raise e, st)
           | Inr _ \<Rightarrow> others (rt_endpoint r) ps body req rid st)
      | AuthenticateRequest \<Rightarrow> list_models_endpoint fw w req st
      | AuthenticateWithOrm \<Rightarrow> chat_endpoint fw w body req rid st
      | NoGuard \<Rightarrow>
          (case rt_endpoint r of
             Root \<Rightarrow> (Answer (root se), st)
           | AdminUi \<Rightarrow> (Answer (json_response 200 (JStr (render_admin_ui (wo_ui_template w)))), st)
           | e \<Rightarrow> others e ps body req rid st))"

definition route_request ::
  "'b http_state framework \<Rightarrow> settings \<Rightarrow> 'b world \<Rightarrow> 'b handlers \<Rightarrow> 'b http_state application" where
  \<comment> \<open>the body's JSON is read before any dependency runs\<close>
  "route_request fw se w others req rid st =
     (case fw_resolve fw app_routes req of
        None \<Rightarrow> (Inr (fw_fallback fw req), st)
      | Some (r, ps) \<Rightarrow>
          (case fw_read_body fw r req of
             Inl errors \<Rightarrow> (exception_handlers (hq_path req) rid (Invalid errors), st)
           | Inr body \<Rightarrow>
               apfst (exception_handlers (hq_path req) rid) (run_route fw se w others r ps body req rid st)))"

definition create_app ::
  "'b http_state framework \<Rightarrow> settings \<Rightarrow> 'b world \<Rightarrow> 'b handlers \<Rightarrow> 'b http_state application" where
  "create_app fw se w others =
     fw_stack fw
       ((if cors_origins_list (se_cors_allowed_origins se) = [] then []
         else [fw_cors fw (cors_origins_list (se_cors_allowed_origins se))]) @
        [request_size_middleware (se_max_request_body_bytes se), request_id_middleware (wo_fresh_id w)])
       (route_request fw se w others)"

section \<open>The table of routes\<close>

lemmas route_defs =
  app_routes_def health_router_def chat_router_def admin_router_def ui_router_def under_def

lemma route_guards:
  "list_all (\<lambda>r. rt_guard r =
      (if starts_with ''/admin/'' (rt_path r) \<and> rt_endpoint r \<noteq> AdminUi then RequireAdmin
       else if rt_endpoint r = CreateChatCompletion then AuthenticateWithOrm
       else if rt_endpoint r = ListModels then AuthenticateRequest else NoGuard)) app_routes"
  by (simp add: route_defs starts_with_def)

lemma route_guard:
  assumes "r \<in> set app_routes"
  shows "rt_guard r =
    (if starts_with ''/admin/'' (rt_path r) \<and> rt_endpoint r \<noteq> AdminUi then RequireAdmin
     else if rt_endpoint r = CreateChatCompletion then AuthenticateWithOrm
     else if rt_endpoint r = ListModels then AuthenticateRequest else NoGuard)"
  using assms route_guards by (simp add: list_all_iff)

lemma chat_route:
  assumes "r \<in> set app_routes" "rt_endpoint r = CreateChatCompletion"
  shows "r = \<lparr> rt_endpoint = CreateChatCompletion, rt_method = ''POST'', rt_path = ''/v1/chat/completions'',
    rt_guard = AuthenticateWithOrm \<rparr>"
proof -
  have "list_all (\<lambda>r. rt_endpoint r = CreateChatCompletion \<longrightarrow> r = \<lparr> rt_endpoint = CreateChatCompletion,
      rt_method = ''POST'', rt_path = ''/v1/chat/completions'', rt_guard = AuthenticateWithOrm \<rparr>) app_routes"
    by (simp add: route_defs)
  with assms show ?thesis by (simp add: list_all_iff)
qed

section \<open>The layers\<close>

definition behind_cors ::
  "'b http_state framework \<Rightarrow> settings \<Rightarrow> 'b world \<Rightarrow> 'b handlers \<Rightarrow> 'b http_state application" where
  "behind_cors fw se w others =
     (let origins = cors_origins_list (se_cors_allowed_origins se)
      in if origins = [] then route_request fw se w others else fw_cors fw origins (route_request fw se w others))"

lemma create_app_layers:
  assumes "framework_ok fw"
  shows "create_app fw se w others =
    request_id_middleware (wo_fresh_id w)
      (request_size_middleware (se_max_request_body_bytes se) (behind_cors fw se w others))"
proof -
  have nil: "fw_stack fw [] app = app" and snoc: "fw_stack fw (mws @ [mw]) app = mw (fw_stack fw mws app)" for mws mw app
    using assms by (simp_all add: framework_ok_def last_added_outermost_def)
  have two: "fw_stack fw (mws @ [a, b]) app = b (a (fw_stack fw mws app))" for mws a b app
    using snoc [of "mws @ [a]" b app] snoc [of mws a app] by simp
  show ?thesis
    using snoc [of "[]"] nil by (simp add: create_app_def two behind_cors_def Let_def)
qed

lemma behind_cors_cases:
  assumes "framework_ok fw"
  obtains (preflight) r where "hq_method req = ''OPTIONS''" "behind_cors fw se w others req rid st = (Inr r, st)"
  | (passed) hs where "behind_cors fw se w others req rid st =
      apfst (map_sum id (\<lambda>r. r\<lparr> rsp_headers := rsp_headers r @ hs \<rparr>)) (route_request fw se w others req rid st)"
proof (cases "cors_origins_list (se_cors_allowed_origins se) = []")
  case True
  have same: "apfst (map_sum id (\<lambda>r. r\<lparr> rsp_headers := rsp_headers r @ [] \<rparr>)) x = x" for x :: "('e + response) \<times> 's"
    by (cases x; cases "fst x") auto
  from passed [of "[]"] True show ?thesis unfolding same by (simp add: behind_cors_def)
next
  case False
  let ?b = "behind_cors fw se w others req rid st" and ?app = "route_request fw se w others"
  have b: "?b = fw_cors fw (cors_origins_list (se_cors_allowed_origins se)) ?app req rid st"
    using False by (simp add: behind_cors_def Let_def)
  have "decorates (fw_cors fw)" using assms by (simp add: framework_ok_def)
  then have "hq_method req = ''OPTIONS'' \<and> (\<exists>r. ?b = (Inr r, st)) \<or>
      (\<exists>hs. ?b = apfst (map_sum id (\<lambda>r. r\<lparr> rsp_headers := rsp_headers r @ hs \<rparr>)) (?app req rid st))"
    unfolding b decorates_def by (elim allE)
  then show ?thesis using preflight passed by blast
qed

definition oversize :: "settings \<Rightarrow> http_request \<Rightarrow> bool" where
  "oversize se req \<longleftrightarrow>
     (case header ''content-length'' req of
        None \<Rightarrow> False
      | Some cl \<Rightarrow> (case py_int cl of None \<Rightarrow> 0 | Some n \<Rightarrow> n) > se_max_request_body_bytes se)"

lemma size_layer:
  "request_size_middleware (se_max_request_body_bytes se) app req rid st =
     (if oversize se req then
        (Inr (json_response 413
          (let e = too_large (case py_int (the (header ''content-length'' req)) of None \<Rightarrow> 0 | Some n \<Rightarrow> n)
                     (se_max_request_body_bytes se)
           in if starts_with ''/v1/'' (hq_path req)
              then error_envelope e ''invalid_request_error'' JNull rid
              else JObj (set_default ''request_id'' (opt_json JStr rid) (to_dict e)))), st)
      else app req rid st)"
  by (cases "header ''content-length'' req")
    (simp_all add: request_size_middleware_def request_size_dispatch_def oversize_def Let_def)

lemma id_layer:
  assumes "request_id_middleware fresh app req bound st = (res, st')"
  obtains rid x where "app req (Some rid) st = (x, st')"
    "res = map_sum id (\<lambda>r. r\<lparr> rsp_headers := dict_set ''x-request-id'' rid (rsp_headers r) \<rparr>) x"
    "rid = (case sanitize (header ''x-request-id'' req) of Some v \<Rightarrow> v | None \<Rightarrow> fresh)"
  using assms
  by (auto simp: request_id_middleware_def request_id_dispatch_def Let_def split: prod.splits sum.splits)

text \<open>The response a client gets, through all layers.\<close>

lemma create_app_cases:
  assumes "framework_ok fw" "create_app fw se w others req bound st = (res, st')"
  obtains (too_long) rid r where "oversize se req" "st' = st" "res = Inr r" "rsp_status r = 413"
    "map_of (rsp_headers r) ''x-request-id'' = Some rid"
    "starts_with ''/v1/'' (hq_path req) \<longrightarrow>
       (\<exists>e. rsp_payload r = error_envelope e ''invalid_request_error'' JNull (Some rid))"
    "rid = (case sanitize (header ''x-request-id'' req) of Some v \<Rightarrow> v | None \<Rightarrow> wo_fresh_id w)"
  | (preflight) rid r where "\<not> oversize se req" "hq_method req = ''OPTIONS''" "st' = st" "res = Inr r"
    "map_of (rsp_headers r) ''x-request-id'' = Some rid"
    "rid = (case sanitize (header ''x-request-id'' req) of Some v \<Rightarrow> v | None \<Rightarrow> wo_fresh_id w)"
  | (handled) rid x where "\<not> oversize se req" "route_request fw se w others req (Some rid) st = (x, st')"
    "case x of Inl e \<Rightarrow> res = Inl e
     | Inr r0 \<Rightarrow> (\<exists>r. res = Inr r \<and> rsp_status r = rsp_status r0 \<and> rsp_payload r = rsp_payload r0 \<and>
         map_of (rsp_headers r) ''x-request-id'' = Some rid)"
    "rid = (case sanitize (header ''x-request-id'' req) of Some v \<Rightarrow> v | None \<Rightarrow> wo_fresh_id w)"
proof -
  obtain rid x where x: "request_size_middleware (se_max_request_body_bytes se) (behind_cors fw se w others) req (Some rid) st = (x, st')"
    "res = map_sum id (\<lambda>r. r\<lparr> rsp_headers := dict_set ''x-request-id'' rid (rsp_headers r) \<rparr>) x"
    "rid = (case sanitize (header ''x-request-id'' req) of Some v \<Rightarrow> v | None \<Rightarrow> wo_fresh_id w)"
    using assms(2) unfolding create_app_layers [OF assms(1)] by (rule id_layer)
  show thesis
  proof (cases "oversize se req")
    case True
    then show thesis
      using x by (intro too_long [OF True, of _ rid]) (auto simp: size_layer json_response_def Let_def)
  next
    case False
    then have b: "behind_cors fw se w others req (Some rid) st = (x, st')" using x(1) by (simp add: size_layer)
    from behind_cors_cases [OF assms(1), of req se w others "Some rid" st] show thesis
    proof cases
      case (1 r)
      then show thesis using x(2,3) b by (intro that(2) [OF False, of _ rid]) auto
    next
      case (2 hs)
      obtain y where y: "route_request fw se w others req (Some rid) st = (y, st')"
        "x = map_sum id (\<lambda>r. r\<lparr> rsp_headers := rsp_headers r @ hs \<rparr>) y"
        using b unfolding 2 by (cases "route_request fw se w others req (Some rid) st") auto
      then show thesis using x(2,3) by (intro handled [OF False y(1)]) (auto split: sum.split)
    qed
  qed
qed

text \<open>A request refused for its size never reaches the CORS middleware, which is added first and so is the
  innermost: whatever origins are configured, the 413 carries no header but the request id.\<close>

lemma oversize_without_cors:
  assumes "framework_ok fw" "oversize se req"
  shows "\<exists>r rid. create_app fw se w others req bound st = (Inr r, st) \<and> rsp_status r = 413 \<and>
    rsp_headers r = [(''x-request-id'', rid)]"
  unfolding create_app_layers [OF assms(1)] using assms(2)
  by (simp add: request_id_middleware_def request_id_dispatch_def size_layer json_response_def Let_def)

section \<open>The endpoint of completions\<close>

lemma finish_recorded:
  "args \<in> set (recorded (fst (finish_usage a rid k c args'))) \<Longrightarrow> args = args'"
  by (simp add: finish_usage_trace split: if_splits)

lemma completion_recorded_id:
  assumes "create_chat_completion caps discovered a r auth tick now1 now2 en mk answers streams interrupt rl = (res, rl')"
    "args \<in> set (recorded (result_trace res))"
  shows "a_request_id args = en_request_id en"
proof -
  have c: "a_request_id (completion_args en canonical q bid answer) = en_request_id en" for canonical q bid answer
    by (simp add: completion_args_def split_beta Let_def)
  have s: "a_request_id (stream_args en canonical q bid first raised) = en_request_id en" for canonical q bid first raised
    by (simp add: stream_args_def split_beta Let_def)
  have 1: "a_request_id args = en_request_id en"
    if "non_streaming_completion a en mk k cl pp answer = (x, tr, db)" "args \<in> set (recorded tr)" for k cl pp answer x tr db
  proof (cases "app_has_admission a")
    case True
    then show ?thesis using that
      by (auto simp: non_streaming_wired c dest!: finish_recorded split: if_splits)
  next
    case False
    then have "tr = []" using that(1) by (simp add: non_streaming_completion_def get_admission_def)
    then show ?thesis using that(2) by simp
  qed
  have 2: "a_request_id args = en_request_id en"
    if "stream_generator a en k cl pp answer i = (x, tr, db)" "args \<in> set (recorded tr)" for k cl pp answer i x tr db
    using that by (auto simp: stream_generator_eq s Let_def split_beta dest!: finish_recorded split: if_splits)
  show ?thesis
    using assms unfolding create_chat_completion_def
    by (auto split: prod.splits sum.splits if_splits dest: 1 2)
qed

text \<open>A chat request either stops before it does anything, or its body is valid, its key is
  authenticated, and it does what the handler does.\<close>

lemma chat_endpoint_cases:
  assumes "chat_endpoint fw w body req rid st = (res, st')"
  obtains (stopped) o' db where "authenticate_with_orm (wo_hash w) (wo_commit_ok w) (wo_now w)
      (header ''authorization'' req) (db_of st) = (o', db)" "st' = put_db db st"
      "(\<exists>e. res = Raise e \<and> o' = Inl e) \<or> (\<exists>errors. res = Invalid errors \<and> fw_schema fw body = Inl errors)"
  | (run) auth db r out rl where "authenticate_with_orm (wo_hash w) (wo_commit_ok w) (wo_now w)
      (header ''authorization'' req) (db_of st) = (Inr auth, db)" "fw_schema fw body = Inr r"
      "create_chat_completion (wo_caps w) (wo_discovered w) (hs_app (put_db db st)) r auth (wo_tick w) (wo_now1 w)
         (wo_now2 w) (request_env_of w rid) (new_completion (fw_lax fw)) (wo_answers w) (wo_streams w) (wo_interrupt w)
         (hs_limiter st) = (out, rl)"
      "st' = (put_db (result_db db out) (put_db db st))
         \<lparr> hs_limiter := rl, hs_actions := hs_actions st @ result_trace out \<rparr>"
      "(\<exists>e. res = Raise e) \<or> (\<exists>r. res = Answer r \<and> rsp_status r = 200)"
proof -
  obtain o' db where auth: "authenticate_with_orm (wo_hash w) (wo_commit_ok w) (wo_now w)
      (header ''authorization'' req) (db_of st) = (o', db)" by (metis surj_pair)
  show thesis
  proof (cases o')
    case (Inl e)
    then show thesis using assms auth by (intro stopped [OF auth]) (auto simp: chat_endpoint_def)
  next
    case (Inr a)
    show thesis
    proof (cases "fw_schema fw body")
      case (Inl errors)
      then show thesis using assms auth Inr by (intro stopped [OF auth]) (auto simp: chat_endpoint_def)
    next
      case r: (Inr r)
      obtain out rl where c: "create_chat_completion (wo_caps w) (wo_discovered w) (hs_app (put_db db st)) r a (wo_tick w)
         (wo_now1 w) (wo_now2 w) (request_env_of w rid) (new_completion (fw_lax fw)) (wo_answers w) (wo_streams w)
         (wo_interrupt w) (hs_limiter st) = (out, rl)" by (metis surj_pair)
      have l: "hs_limiter (put_db db st) = hs_limiter st" "hs_actions (put_db db st) = hs_actions st"
        "db_of (put_db db st) = db" by (simp_all add: put_db_def db_of_def)
      have "st' = (put_db (result_db db out) (put_db db st))
         \<lparr> hs_limiter := rl, hs_actions := hs_actions st @ result_trace out \<rparr>"
        "(\<exists>e. res = Raise e) \<or> (\<exists>r. res = Answer r \<and> rsp_status r = 200)"
        using assms auth Inr r c
        by (auto simp: chat_endpoint_def l Let_def json_response_def stream_response_def
            split: chat_result.splits sum.splits)
      with run [OF auth [unfolded Inr] r c] show thesis by blast
    qed
  qed
qed

section \<open>Requests end to end\<close>

definition chat_request_of :: "'b http_state framework \<Rightarrow> http_request \<Rightarrow> bool" where
  "chat_request_of fw req \<longleftrightarrow>
     (\<exists>r ps. fw_resolve fw app_routes req = Some (r, ps) \<and> rt_endpoint r = CreateChatCompletion)"

lemma chat_request_route:
  assumes "framework_ok fw" "chat_request_of fw req"
  obtains r ps where "fw_resolve fw app_routes req = Some (r, ps)" "rt_guard r = AuthenticateWithOrm"
    "hq_method req = ''POST''" "starts_with ''/v1/'' (hq_path req)"
proof -
  obtain r ps where r: "fw_resolve fw app_routes req = Some (r, ps)" "rt_endpoint r = CreateChatCompletion"
    using assms(2) by (auto simp: chat_request_of_def)
  then have l: "r \<in> set app_routes" "rt_method r = hq_method req" "CHR ''{'' \<in> set (rt_path r) \<or> hq_path req = rt_path r"
    using assms(1) by (auto simp: framework_ok_def)
  note c = chat_route [OF l(1) r(2)]
  show thesis
    by (rule that [OF r(1)]) (use l(2,3) in \<open>auto simp: c starts_with_def\<close>)
qed

lemma chat_routed:
  assumes "framework_ok fw" "chat_request_of fw req" "route_request fw se w others req rid st = (x, st')"
  obtains (no_json) errors where "x = Inr (validation_error_handler (hq_path req) rid errors)" "st' = st"
  | (endpoint) body res where "chat_endpoint fw w body req rid st = (res, st')"
      "x = exception_handlers (hq_path req) rid res"
proof -
  obtain r ps where r: "fw_resolve fw app_routes req = Some (r, ps)" "rt_guard r = AuthenticateWithOrm"
    by (rule chat_request_route [OF assms(1,2)])
  show thesis
  proof (cases "fw_read_body fw r req")
    case (Inl errors)
    with assms(3) r show thesis by (intro no_json) (auto simp: route_request_def exception_handlers_def)
  next
    case (Inr body)
    obtain res st1 where c: "chat_endpoint fw w body req rid st = (res, st1)" by (metis surj_pair)
    with assms(3) r Inr show thesis by (intro endpoint [of body res]) (auto simp: route_request_def run_route_def)
  qed
qed

definition payload_request_id :: "json \<Rightarrow> json option" where
  "payload_request_id j = (case j of JObj d \<Rightarrow> map_of d ''request_id'' | _ \<Rightarrow> None)"

lemma error_payload_id:
  assumes "starts_with ''/v1/'' path"
  shows "payload_request_id (rsp_payload (handle_error path rid e)) = Some (opt_json JStr rid)"
    "payload_request_id (rsp_payload (validation_error_handler path rid errors)) = Some (opt_json JStr rid)"
  using assms
  by (simp_all add: handler_of not_found_handler_def syn_error_handler_def validation_error_handler_def
      payload_request_id_def error_envelope_def json_response_def Let_def)

definition clean_id :: "string \<Rightarrow> bool" where
  "clean_id i \<longleftrightarrow> i \<noteq> [] \<and> length i \<le> 64 \<and> \<not> list_ex py_space i"

lemma chosen_id_clean:
  "clean_id fresh \<Longrightarrow> clean_id (case sanitize v of Some i \<Rightarrow> i | None \<Rightarrow> fresh)"
  using sanitize_Some [of v] by (auto simp: clean_id_def split: option.split)

text \<open>C28: One id runs through a completion: the response carries an id that is safe in a header, every error
  the gateway answers a completion with names it in its body, and so does every usage record that the
  request leaves.\<close>

theorem one_request_id:
  assumes "framework_ok fw" "chat_request_of fw req" "clean_id (wo_fresh_id w)"
    "create_app fw se w others req bound st = (Inr r, st')"
  shows "\<exists>rid tr. clean_id rid \<and> map_of (rsp_headers r) ''x-request-id'' = Some rid \<and>
    (rsp_status r = 200 \<or> payload_request_id (rsp_payload r) = Some (JStr rid)) \<and>
    hs_actions st' = hs_actions st @ tr \<and> (\<forall>args\<in>set (recorded tr). a_request_id args = rid)"
proof -
  obtain r0 ps where post: "hq_method req = ''POST''" and path: "starts_with ''/v1/'' (hq_path req)"
    by (rule chat_request_route [OF assms(1,2)])
  let ?rid = "case sanitize (header ''x-request-id'' req) of Some v \<Rightarrow> v | None \<Rightarrow> wo_fresh_id w"
  have clean: "clean_id ?rid" by (rule chosen_id_clean [OF assms(3)])
  show ?thesis
  proof (cases rule: create_app_cases [OF assms(1,4)])
    case (1 rid r')
    then show ?thesis using clean path
      by (intro exI [of _ rid] exI [of _ "[]"])
        (auto simp: payload_request_id_def error_envelope_def)
  next
    case (3 rid x)
    then obtain r1 where r1: "x = Inr r1" "rsp_status r = rsp_status r1" "rsp_payload r = rsp_payload r1"
        "map_of (rsp_headers r) ''x-request-id'' = Some rid"
      by (auto split: sum.splits)
    have routed: "route_request fw se w others req (Some rid) st = (Inr r1, st')" using 3(2) r1(1) by simp
    have "\<exists>tr. (rsp_status r1 = 200 \<or> payload_request_id (rsp_payload r1) = Some (JStr rid)) \<and>
        hs_actions st' = hs_actions st @ tr \<and> (\<forall>args\<in>set (recorded tr). a_request_id args = rid)"
    proof (cases rule: chat_routed [OF assms(1,2) routed])
      case (1 errors)
      then show ?thesis using error_payload_id(2) [OF path, of "Some rid"] by (intro exI [of _ "[]"]) simp
    next
      case (2 body res)
      have answer: "(\<exists>x. res = Answer x \<and> rsp_status x = 200) \<or> \<not> (\<exists>x. res = Answer x) \<Longrightarrow>
          rsp_status r1 = 200 \<or> payload_request_id (rsp_payload r1) = Some (JStr rid)"
        using 2(2) error_payload_id [OF path, of "Some rid"]
        by (cases res) (auto simp: exception_handlers_def split: exn.splits)
      from 2(1) show ?thesis
      proof (cases rule: chat_endpoint_cases)
        case (stopped o' db)
        then show ?thesis using answer by (intro exI [of _ "[]"]) (auto simp: put_db_def)
      next
        case (run auth db q out rl)
        have "\<forall>args\<in>set (recorded (result_trace out)). a_request_id args = rid"
          using completion_recorded_id [OF run(3)] by (simp add: request_env_of_def)
        then show ?thesis using run(4,5) answer by (intro exI [of _ "result_trace out"]) auto
      qed
    qed
    with clean 3(4) r1 show ?thesis by auto
  qed (use post in simp)
qed


section \<open>The management plane\<close>

lemma require_admin_refused:
  assumes "require_admin expected x auth = Inl e"
  shows "(\<exists>y. e = Syn y \<and> e_class y = AdminAuthErrorC \<and> e_status y = 401) \<or> e = PyError ''TypeError''"
proof -
  have "e \<in> admin_error ` UNIV \<or> e = PyError ''TypeError''"
    using assms by (auto simp: require_admin_def compare_digest_def split: option.splits if_splits)
  then show ?thesis by (auto simp: admin_error_def new_error_def)
qed

lemma handle_error_status: "e_class e = AdminAuthErrorC \<Longrightarrow> rsp_status (handle_error path rid e) = e_status e"
  by (simp add: handler_of is_instance_leaf syn_error_handler_def json_response_def Let_def)

text \<open>C26: Every route of the management plane but the static shell is closed: without the admin secret a
  request to it changes nothing, whatever its handler would do, and is answered 401, or 413 or 422 when
  its size or its JSON is wrong; only a secret that is not ASCII ends in an error of the server.\<close>

theorem admin_routes_closed:
  assumes "framework_ok fw" "fw_resolve fw app_routes req = Some (r, ps)"
    "starts_with ''/admin/'' (rt_path r)" "rt_endpoint r \<noteq> AdminUi"
    "require_admin (se_admin_secret se) (header ''x-admin-secret'' req) (header ''authorization'' req) = Inl e"
    "hq_method req \<noteq> ''OPTIONS''"
    "create_app fw se w others req bound st = (res, st')"
  shows "st' = st \<and>
    (case res of
       Inr rsp \<Rightarrow> rsp_status rsp \<in> {401, 413, 422}
     | Inl e' \<Rightarrow> e' = e \<and> e = PyError ''TypeError'')"
proof -
  have "r \<in> set app_routes" using assms(1,2) by (auto simp: framework_ok_def)
  then have guard: "rt_guard r = RequireAdmin" using route_guard assms(3,4) by simp
  have e: "(\<exists>y. e = Syn y \<and> e_class y = AdminAuthErrorC \<and> e_status y = 401) \<or> e = PyError ''TypeError''"
    by (rule require_admin_refused [OF assms(5)])
  show ?thesis
  proof (cases rule: create_app_cases [OF assms(1,7)])
    case (3 rid x)
    show ?thesis
    proof (cases "fw_read_body fw r req")
      case (Inl errors)
      then have "st' = st \<and> x = Inr (validation_error_handler (hq_path req) (Some rid) errors)"
        using 3(2) assms(2) by (simp add: route_request_def exception_handlers_def)
      then show ?thesis using 3(3) by (auto simp: validation_error_handler_def json_response_def Let_def)
    next
      case (Inr body)
      then have "st' = st \<and> x = exception_handlers (hq_path req) (Some rid) (Raise e)"
        using 3(2) assms(2,5) guard by (simp add: route_request_def run_route_def)
      then show ?thesis using e 3(3) handle_error_status by (auto simp: exception_handlers_def)
    qed
  qed (use assms(6) in simp_all)
qed

section \<open>A request on the running gateway\<close>

lemma request_env_slot [simp]: "en_slot (request_env_of w rid) = en_slot (wo_env w)"
  by (simp add: request_env_of_def split: option.split)

lemma put_db_gateway:
  assumes "gw_app g = hs_app st" "gw_limiter g = hs_limiter st"
  shows "with_db db g = g\<lparr> gw_app := hs_app (put_db db st), gw_limiter := hs_limiter (put_db db st) \<rparr>"
  using assms by (simp add: with_db_def put_db_def)

lemma chat_endpoint_is_run:
  assumes "framework_ok fw" "chat_endpoint fw w body req (Some rid) st = (res, st')"
    "gw_app g = hs_app st" "gw_limiter g = hs_limiter st" "app_has_admission (hs_app st)"
    "gw_flights g c = None" "\<not> known c (gw_admission g)"
    "slot_used c (en_slot (wo_env w)) (gw_admission g) adm"
  shows "\<exists>adm'\<in>{gw_admission g, adm}. sys_reach (wo_hash w) secret (wo_caps w) g
    (g\<lparr> gw_app := hs_app st', gw_limiter := hs_limiter st', gw_admission := adm' \<rparr>)"
  using assms(2)
proof (cases rule: chat_endpoint_cases)
  case (stopped o'' db)
  then have "sys_step (wo_hash w) secret (wo_caps w) g (with_db db g)"
    by (intro refuse) (simp add: assms(3) db_of_def)
  then show ?thesis
    using stopped(2) by (intro bexI [of _ "gw_admission g"] sys_reach_step)
      (simp_all add: put_db_gateway [OF assms(3,4)])
next
  case (run auth db q out rl)
  obtain p k cl where a: "auth = (p, k, cl)" by (cases auth)
  let ?en = "request_env_of w (Some rid)"
  let ?f = "\<lparr> fl_request_id = rid, fl_request = q, fl_principal = p, fl_key = k, fl_client = cl,
    fl_phase = Checking \<rparr>"
  let ?g1 = "set_flight c (Some ?f) (with_db db g)"
  let ?adm = "if refused_result out then gw_admission g else adm"
  have app: "gw_app ?g1 = hs_app (put_db db st)" "gw_limiter ?g1 = hs_limiter st"
    by (simp_all add: assms(3,4) put_db_def)
  have "sys_step (wo_hash w) secret (wo_caps w) g ?g1"
    by (rule accept [OF assms(6,7)])
      (use run(1,2) assms(1,3) a in \<open>auto simp: framework_ok_def db_of_def\<close>)
  moreover have "sys_reach (wo_hash w) secret (wo_caps w) ?g1
      (set_flight c None (with_db (result_db (app_db (gw_app ?g1)) out) (?g1\<lparr> gw_limiter := rl, gw_admission := ?adm \<rparr>)))"
    by (rule handler_is_flight [where f = ?f and en = ?en])
      (use run(3) a app assms(5,8) in \<open>simp_all add: request_env_of_def put_db_def\<close>)
  moreover have "set_flight c None (with_db (result_db (app_db (gw_app ?g1)) out) (?g1\<lparr> gw_limiter := rl, gw_admission := ?adm \<rparr>)) =
      g\<lparr> gw_app := hs_app st', gw_limiter := hs_limiter st', gw_admission := ?adm \<rparr>"
    using assms(3,6) run(4)
    by (cases g) (auto simp: set_flight_def with_db_def put_db_def intro!: ext)
  ultimately have "sys_reach (wo_hash w) secret (wo_caps w) g
      (g\<lparr> gw_app := hs_app st', gw_limiter := hs_limiter st', gw_admission := ?adm \<rparr>)"
    by (metis sys_reach_step sys_reach_trans)
  then show ?thesis by (cases "refused_result out") auto
qed

section \<open>Instances\<close>

definition sample_framework :: "unit http_state framework" where
  "sample_framework = \<lparr> fw_stack = (\<lambda>mws app. fold (\<lambda>mw a. mw a) mws app), fw_cors = (\<lambda>origins app. app),
     fw_resolve = (\<lambda>rs req. map_option (\<lambda>r. (r, []))
        (List.find (\<lambda>r. rt_method r = hq_method req \<and> rt_path r = hq_path req) rs)),
     fw_read_body = (\<lambda>r req. Inr JNull), fw_schema = (\<lambda>j. Inr (sample_request True)),
     fw_lax = (\<lambda>v. case v of JInt i \<Rightarrow> Some i | _ \<Rightarrow> None),
     fw_fallback = (\<lambda>req. json_response 404 JNull) \<rparr>"

lemma sample_framework_ok: "framework_ok sample_framework"
proof -
  have "decorates (fw_cors sample_framework)"
    unfolding decorates_def
  proof (intro allI disjI2 exI [of _ "[]"])
    fix origins app req rid and st :: "unit http_state"
    show "fw_cors sample_framework origins app req rid st =
        apfst (map_sum id (\<lambda>r. r\<lparr> rsp_headers := rsp_headers r @ [] \<rparr>)) (app req rid st)"
      by (cases "app req rid st"; cases "fst (app req rid st)") (auto simp: sample_framework_def)
  qed
  then show ?thesis
    by (auto simp: framework_ok_def last_added_outermost_def sample_framework_def find_Some_iff
        sample_request_def valid_request_def valid_message_def in_range_def py_defs)
qed

definition sample_http :: "string \<Rightarrow> string \<Rightarrow> (string \<times> string) list \<Rightarrow> http_request" where
  "sample_http verb path hs = \<lparr> hq_method = verb, hq_path = path, hq_headers = hs, hq_body = [] \<rparr>"

abbreviation sample_chat :: "(string \<times> string) list \<Rightarrow> http_request" where
  "sample_chat \<equiv> sample_http ''POST'' ''/v1/chat/completions''"

definition sample_world :: "unit world" where
  "sample_world = \<lparr> wo_fresh_id = ''0000'', wo_hash = (\<lambda>_. ''x''), wo_commit_ok = True, wo_now = 5, wo_tick = 0,
     wo_now1 = 50, wo_now2 = 50, wo_env = Serving.sample_env None,
     wo_caps = (\<lambda>_. [CapChatCompletions, CapStreaming]), wo_discovered = sample_models_of,
     wo_answers = (\<lambda>_ _. Inl CancelledError), wo_streams = (\<lambda>_ _. ([sample_chunk], None)),
     wo_interrupt = Some (1, GeneratorExit), wo_ui_template = None \<rparr>"

definition sample_state :: "store \<Rightarrow> unit http_state" where
  "sample_state s = \<lparr> hs_app = sample_app\<lparr> app_usage := None, app_db := Some s \<rparr>,
     hs_limiter = new_limiter 60, hs_actions = [] \<rparr>"

lemma sample_resolve_chat:
  "fw_resolve sample_framework app_routes (sample_chat hs) =
     Some (\<lparr> rt_endpoint = CreateChatCompletion, rt_method = ''POST'', rt_path = ''/v1/chat/completions'',
             rt_guard = AuthenticateWithOrm \<rparr>, [])"
  by (simp add: sample_framework_def sample_http_def route_defs)

lemma sample_chat_request: "chat_request_of sample_framework (sample_chat hs)"
  by (simp add: chat_request_of_def sample_resolve_chat)

abbreviation sample_run :: "unit handlers \<Rightarrow> http_request \<Rightarrow> unit http_state \<Rightarrow> (exn + response) \<times> unit http_state" where
  "sample_run others req st \<equiv> create_app sample_framework default_settings sample_world others req None st"

abbreviation sample_create_app :: "http_request \<Rightarrow> unit http_state \<Rightarrow> (exn + response) \<times> unit http_state" where
  "sample_create_app \<equiv> sample_run (\<lambda>_ _ _ _ _ st. (Raise GeneratorExit, st))"

lemma sample_chat_run:
  assumes "map_of hs ''content-length'' = None"
  shows "sample_run others (sample_chat hs) st =
    (let rid = (case sanitize (map_of hs ''x-request-id'') of Some v \<Rightarrow> v | None \<Rightarrow> ''0000'');
         (res, st') = chat_endpoint sample_framework sample_world JNull (sample_chat hs) (Some rid) st
     in (map_sum id (\<lambda>r. r\<lparr> rsp_headers := dict_set ''x-request-id'' rid (rsp_headers r) \<rparr>)
           (exception_handlers ''/v1/chat/completions'' (Some rid) res), st'))"
proof -
  have req: "header n (sample_chat hs) = map_of hs n" "hq_path (sample_chat hs) = ''/v1/chat/completions''" for n
    by (simp_all add: header_def sample_http_def)
  have fw: "fw_read_body sample_framework r q = Inr JNull" for r q by (simp add: sample_framework_def)
  have "behind_cors sample_framework default_settings sample_world others =
      route_request sample_framework default_settings sample_world others" for others
    by (simp add: behind_cors_def default_settings_def cors_origins_list_def py_defs)
  moreover have "route_request sample_framework default_settings sample_world others (sample_chat hs) rid st =
      apfst (exception_handlers ''/v1/chat/completions'' rid)
        (chat_endpoint sample_framework sample_world JNull (sample_chat hs) rid st)" for others rid
    by (simp add: route_request_def sample_resolve_chat run_route_def fw req)
  ultimately show ?thesis
    unfolding create_app_layers [OF sample_framework_ok]
    by (simp add: request_id_middleware_def request_id_dispatch_def request_size_middleware_def
        request_size_dispatch_def req assms sample_world_def Let_def split: prod.split sum.split)
qed

theorem one_request_id_witness:
  "\<exists>r st'. sample_create_app (sample_chat [(''x-request-id'', '' abc '')]) (sample_state sample_store) = (Inr r, st') \<and>
     map_of (rsp_headers r) ''x-request-id'' = Some ''abc'' \<and> payload_request_id (rsp_payload r) = Some (JStr ''abc'')"
proof -
  let ?hs = "[(''x-request-id'', '' abc '')]"
  have s: "sanitize (Some '' abc '') = Some ''abc''" by (simp add: sanitize_def py_defs Let_def)
  have "header ''authorization'' (sample_chat ?hs) = None" by (simp add: header_def sample_http_def)
  then obtain e where e: "chat_endpoint sample_framework sample_world JNull (sample_chat ?hs) rid (sample_state sample_store) =
      (Raise (Syn e), put_db (Some sample_store) (sample_state sample_store))"
      "e_class e = AuthenticationErrorC" "e_status e = 401" for rid
    by (simp add: chat_endpoint_def authenticate_with_orm_def get_db_session_def extract_bearer_token_def
        sample_state_def db_of_def new_error_def)
  obtain r st' where run: "sample_create_app (sample_chat ?hs) (sample_state sample_store) = (Inr r, st')"
    and r: "rsp_status r = 401" "map_of (rsp_headers r) ''x-request-id'' = Some ''abc''"
    using e(2,3) by (simp add: sample_chat_run s e(1) exception_handlers_def handler_of is_instance_leaf
        syn_error_handler_def json_response_def Let_def)
  have "clean_id (wo_fresh_id sample_world)" by (simp add: clean_id_def sample_world_def py_space_def)
  from one_request_id [OF sample_framework_ok sample_chat_request this run] r
  have "payload_request_id (rsp_payload r) = Some (JStr ''abc'')" by auto
  with run r show ?thesis by blast
qed

lemma sample_bearer:
  obtains b t where "extract_bearer_token (Some b) = Inr t"
proof -
  obtain t pr hs where g: "generate_api_key id sample_rng = (t, pr, hs)" by (metis prod_cases3)
  show thesis
    by (rule that, rule extract_bearer)
      (use generated_valid [OF sample_rng_ok g] generated_no_space [OF sample_rng_ok g] in blast)+
qed

lemma sample_served:
  assumes "extract_bearer_token (Some b) = Inr t"
  obtains r st' where
    "sample_run others (sample_chat [(''authorization'', b)]) (sample_state sample_store) = (Inr r, st')"
    "rsp_status r = 200" "hs_actions st' = [SlotTaken, BackendCalled, Sent (chunk_frame ''m'' sample_chunk), SlotReleased]"
proof -
  let ?h = "\<lambda>_. ''x''" and ?hs = "[(''authorization'', b)]"
  obtain p k cl db where a: "authenticate_with_orm ?h True 5 (Some b) (Some sample_store) = (Inr (p, k, cl), db)"
    and p: "p_allowed_models p = None"
    by (simp add: authenticate_with_orm_def get_db_session_def assms keys_with_hash_def sample_store_def
        empty_store_def verify_api_key_def hash_api_key_def expired_def update_key_def Let_def
        principal_from_api_key_with_session_def key_client_def client_user_def clients_with_id_def
        users_with_id_def models_of_client_def)
  let ?app = "sample_app\<lparr> app_usage := None, app_db := db \<rparr>"
  have "choose_backend (\<lambda>_. [CapChatCompletions, CapStreaming]) sample_models_of ?app (sample_request True) p = Inr sample_prepared"
    by (simp add: choose_backend_def get_router_def configured_def get_app_backend_def check_capability_def
        get_available_models_def validate_and_normalize_request_def enforce_model_access_def can_use_model_def
        sample_app_def p sample_request_def sample_prepared_def)
  then obtain db' where c: "create_chat_completion (\<lambda>_. [CapChatCompletions, CapStreaming]) sample_models_of ?app (sample_request True)
      (p, k, cl) 0 50 50 ((Serving.sample_env None)\<lparr> en_request_id := i \<rparr>) mk (\<lambda>_ _. Inl CancelledError)
      (\<lambda>_ _. ([sample_chunk], None)) (Some (1, GeneratorExit)) (new_limiter 60) =
      (StreamResult (Some GeneratorExit) [SlotTaken, BackendCalled, Sent (chunk_frame ''m'' sample_chunk), SlotReleased] db',
       new_limiter 60)" for i mk
    by (simp add: create_chat_completion_def prepare_completion_def usage_precheck_def sample_prepared_def
        internal_request_def sample_request_def get_admission_def sample_app_def stream_generator_def
        Serving.sample_env_def stream_body_def finish_usage_def stream_outcome_def stream_except_def
        backend_failure_code_def)
  have "header ''authorization'' (sample_chat ?hs) = Some b"
    by (simp add: header_def sample_http_def)
  then have e: "\<exists>st'. chat_endpoint sample_framework sample_world JNull (sample_chat ?hs) (Some i) (sample_state sample_store) =
      (Answer (stream_response i), st') \<and>
      hs_actions st' = [SlotTaken, BackendCalled, Sent (chunk_frame ''m'' sample_chunk), SlotReleased]" for i
    using a c [of i]
    by (simp add: chat_endpoint_def sample_world_def sample_framework_def sample_state_def db_of_def put_db_def
        request_env_of_def Let_def)
  define i where "i = (case sanitize (map_of ?hs ''x-request-id'') of Some v \<Rightarrow> v | None \<Rightarrow> ''0000'')"
  obtain st' where st': "chat_endpoint sample_framework sample_world JNull (sample_chat ?hs) (Some i) (sample_state sample_store) =
      (Answer (stream_response i), st')"
      "hs_actions st' = [SlotTaken, BackendCalled, Sent (chunk_frame ''m'' sample_chunk), SlotReleased]"
    using e by blast
  have "map_of ?hs ''content-length'' = None" by simp
  from sample_chat_run [OF this, of others "sample_state sample_store"]
  have "sample_run others (sample_chat ?hs) (sample_state sample_store) =
      (Inr ((stream_response i)\<lparr> rsp_headers := dict_set ''x-request-id'' i (rsp_headers (stream_response i)) \<rparr>), st')"
    unfolding i_def [symmetric] Let_def st'(1) by (simp add: exception_handlers_def)
  then show thesis by (rule that) (simp_all add: stream_response_def st'(2))
qed


theorem admin_routes_closed_witness:
  "\<exists>rsp. sample_create_app (sample_http ''GET'' ''/admin/users'' []) (sample_state sample_store) =
      (Inr rsp, sample_state sample_store) \<and> rsp_status rsp \<in> {401, 413, 422}"
proof -
  let ?req = "sample_http ''GET'' ''/admin/users'' []"
  have r: "fw_resolve sample_framework app_routes ?req =
      Some (\<lparr> rt_endpoint = ListUsers, rt_method = ''GET'', rt_path = ''/admin/users'', rt_guard = RequireAdmin \<rparr>, [])"
    by (simp add: sample_framework_def sample_http_def route_defs)
  have a: "require_admin (se_admin_secret default_settings) (header ''x-admin-secret'' ?req) (header ''authorization'' ?req) =
      Inl (admin_error ''admin plane is not configured'')"
    by (simp add: require_admin_def default_settings_def)
  obtain res st' where run: "sample_create_app ?req (sample_state sample_store) = (res, st')" by (metis surj_pair)
  have "admin_error ''admin plane is not configured'' \<noteq> PyError ''TypeError''" by (simp add: admin_error_def)
  with admin_routes_closed [OF sample_framework_ok r _ _ a _ run] run show ?thesis
    by (cases res) (auto simp: starts_with_def sample_http_def)
qed

end
