(* ===== verification/Migrations.thy ===== *)
theory Migrations
  imports Store
begin

text \<open>
  The migrations under \<open>alembic/versions\<close>: each revision's \<open>upgrade\<close> and \<open>downgrade\<close> as a list of the
  statements they issue, and the statements as partial operations on an explicit schema, with the
  refusals of SQLite (a name that exists, a table or column that does not, an added column with a key
  or without a value for the rows there are, a dropped column that an index or a constraint uses).  The head of the chain is the schema \<open>Store\<close> works on.
\<close>

section \<open>Schemas\<close>

datatype column_type = VarChar nat | Text | Integer | DateTime

datatype on_delete = Cascade | SetNull

record column =
  cn_name :: string
  cn_type :: column_type
  cn_nullable :: bool
  cn_primary :: bool
  cn_unique :: bool
  cn_foreign :: "(string \<times> string \<times> on_delete) option"
  cn_default :: "string option"

record table =
  tb_name :: string
  tb_columns :: "column list"
  tb_uniques :: "(string \<times> string list) list"

record index =
  ix_name :: string
  ix_table :: string
  ix_columns :: "string list"

record schema =
  sc_tables :: "table list"
  sc_indexes :: "index list"

definition empty_schema :: schema where
  "empty_schema = \<lparr> sc_tables = [], sc_indexes = [] \<rparr>"

definition column_names :: "table \<Rightarrow> string list" where
  "column_names t = map cn_name (tb_columns t)"

definition find_table :: "string \<Rightarrow> schema \<Rightarrow> table option" where
  "find_table n s = List.find (\<lambda>t. tb_name t = n) (sc_tables s)"

section \<open>Statements\<close>

datatype statement =
    CreateTable table
  | DropTable string
  | AddColumn string column
  | DropColumn string string
  | CreateIndex index
  | DropIndex string string

definition update_table :: "string \<Rightarrow> (table \<Rightarrow> table) \<Rightarrow> schema \<Rightarrow> schema" where
  "update_table n f s = s\<lparr> sc_tables := map (\<lambda>t. if tb_name t = n then f t else t) (sc_tables s) \<rparr>"

definition column_used :: "string \<Rightarrow> string \<Rightarrow> schema \<Rightarrow> bool" where
  \<comment> \<open>by an index or by a constraint of its table\<close>
  "column_used n c s \<longleftrightarrow>
     (\<exists>i\<in>set (sc_indexes s). ix_table i = n \<and> c \<in> set (ix_columns i)) \<or>
     (\<exists>t\<in>set (sc_tables s). tb_name t = n \<and>
        ((\<exists>u\<in>set (tb_uniques t). c \<in> set (snd u)) \<or>
         (\<exists>x\<in>set (tb_columns t). cn_name x = c \<and> (cn_primary x \<or> cn_unique x \<or> cn_foreign x \<noteq> None))))"

fun run_statement :: "statement \<Rightarrow> schema \<Rightarrow> schema option" where
  "run_statement (CreateTable t) s =
     (if tb_name t \<in> tb_name ` set (sc_tables s) then None
      else Some (s\<lparr> sc_tables := sc_tables s @ [t] \<rparr>))"
| "run_statement (DropTable n) s =
     (if n \<notin> tb_name ` set (sc_tables s) then None
      else Some (s\<lparr> sc_tables := filter (\<lambda>t. tb_name t \<noteq> n) (sc_tables s),
                   sc_indexes := filter (\<lambda>i. ix_table i \<noteq> n) (sc_indexes s) \<rparr>))"
| "run_statement (AddColumn n c) s =
     (case find_table n s of
        None \<Rightarrow> None
      | Some t \<Rightarrow>
          if cn_name c \<in> set (column_names t) \<or> cn_primary c \<or> cn_unique c \<or>
             (\<not> cn_nullable c \<and> cn_default c = None) then None
          else Some (update_table n (\<lambda>t. t\<lparr> tb_columns := tb_columns t @ [c] \<rparr>) s))"
| "run_statement (DropColumn n c) s =
     (case find_table n s of
        None \<Rightarrow> None
      | Some t \<Rightarrow>
          if c \<notin> set (column_names t) \<or> column_used n c s then None
          else Some (update_table n (\<lambda>t. t\<lparr> tb_columns := filter (\<lambda>x. cn_name x \<noteq> c) (tb_columns t) \<rparr>) s))"
| "run_statement (CreateIndex i) s =
     (case find_table (ix_table i) s of
        None \<Rightarrow> None
      | Some t \<Rightarrow>
          if ix_name i \<in> ix_name ` set (sc_indexes s) \<or> \<not> set (ix_columns i) \<subseteq> set (column_names t) then None
          else Some (s\<lparr> sc_indexes := sc_indexes s @ [i] \<rparr>))"
| "run_statement (DropIndex n tn) s =
     (if n \<notin> ix_name ` set (sc_indexes s) then None
      else Some (s\<lparr> sc_indexes := filter (\<lambda>i. ix_name i \<noteq> n) (sc_indexes s) \<rparr>))"

fun run_statements :: "statement list \<Rightarrow> schema \<Rightarrow> schema option" where
  "run_statements [] s = Some s"
| "run_statements (x # xs) s = (case run_statement x s of None \<Rightarrow> None | Some s' \<Rightarrow> run_statements xs s')"

section \<open>The revisions\<close>

definition nullable :: "string \<Rightarrow> column_type \<Rightarrow> column" where
  "nullable n ty = \<lparr> cn_name = n, cn_type = ty, cn_nullable = True, cn_primary = False, cn_unique = False,
     cn_foreign = None, cn_default = None \<rparr>"

definition required :: "string \<Rightarrow> column_type \<Rightarrow> column" where
  "required n ty = (nullable n ty)\<lparr> cn_nullable := False \<rparr>"

definition primary_key :: "string \<Rightarrow> column_type \<Rightarrow> column" where
  "primary_key n ty = (required n ty)\<lparr> cn_primary := True \<rparr>"

definition references :: "string \<Rightarrow> on_delete \<Rightarrow> column \<Rightarrow> column" where
  "references tn d c = c\<lparr> cn_foreign := Some (tn, ''id'', d) \<rparr>"

definition with_default :: "string \<Rightarrow> column \<Rightarrow> column" where
  "with_default v c = c\<lparr> cn_default := Some v \<rparr>"

definition upgrade_0002 :: "statement list" where
  "upgrade_0002 =
     [CreateTable \<lparr> tb_name = ''users'',
        tb_columns =
          [primary_key ''id'' (VarChar 36),
           (required ''name'' (VarChar 255))\<lparr> cn_unique := True \<rparr>,
           with_default ''active'' (required ''status'' (VarChar 32)),
           with_default ''now()'' (required ''created_at'' DateTime),
           with_default ''now()'' (required ''updated_at'' DateTime)],
        tb_uniques = [] \<rparr>,
      CreateTable \<lparr> tb_name = ''clients'',
        tb_columns =
          [primary_key ''id'' (VarChar 36),
           references ''users'' Cascade (required ''user_id'' (VarChar 36)),
           required ''name'' (VarChar 255), nullable ''description'' Text,
           with_default ''active'' (required ''status'' (VarChar 32)),
           with_default ''now()'' (required ''created_at'' DateTime),
           with_default ''now()'' (required ''updated_at'' DateTime)],
        tb_uniques = [(''uq_client_user_name'', [''user_id'', ''name''])] \<rparr>,
      CreateIndex \<lparr> ix_name = ''ix_clients_user_id'', ix_table = ''clients'', ix_columns = [''user_id''] \<rparr>,
      CreateTable \<lparr> tb_name = ''api_keys'',
        tb_columns =
          [primary_key ''id'' (VarChar 36),
           references ''clients'' Cascade (required ''client_id'' (VarChar 36)),
           required ''name'' (VarChar 255), required ''key_prefix'' (VarChar 64),
           required ''key_hash'' (VarChar 128),
           with_default ''now()'' (required ''created_at'' DateTime),
           nullable ''expires_at'' DateTime, nullable ''revoked_at'' DateTime,
           nullable ''last_used_at'' DateTime],
        tb_uniques = [] \<rparr>,
      CreateIndex \<lparr> ix_name = ''ix_api_keys_client_id'', ix_table = ''api_keys'', ix_columns = [''client_id''] \<rparr>,
      CreateIndex \<lparr> ix_name = ''ix_api_keys_key_prefix'', ix_table = ''api_keys'', ix_columns = [''key_prefix''] \<rparr>,
      CreateIndex \<lparr> ix_name = ''ix_api_keys_key_hash'', ix_table = ''api_keys'', ix_columns = [''key_hash''] \<rparr>,
      CreateTable \<lparr> tb_name = ''client_allowed_models'',
        tb_columns =
          [primary_key ''id'' Integer,
           references ''clients'' Cascade (required ''client_id'' (VarChar 36)),
           required ''model_id'' (VarChar 255)],
        tb_uniques = [(''uq_client_model'', [''client_id'', ''model_id''])] \<rparr>,
      CreateIndex \<lparr> ix_name = ''ix_client_allowed_models_client_id'', ix_table = ''client_allowed_models'',
        ix_columns = [''client_id''] \<rparr>]"

definition downgrade_0002 :: "statement list" where
  "downgrade_0002 =
     [DropIndex ''ix_client_allowed_models_client_id'' ''client_allowed_models'',
      DropTable ''client_allowed_models'',
      DropIndex ''ix_api_keys_key_hash'' ''api_keys'',
      DropIndex ''ix_api_keys_key_prefix'' ''api_keys'',
      DropIndex ''ix_api_keys_client_id'' ''api_keys'',
      DropTable ''api_keys'',
      DropIndex ''ix_clients_user_id'' ''clients'',
      DropTable ''clients'',
      DropTable ''users'']"

definition upgrade_0003 :: "statement list" where
  "upgrade_0003 =
     [AddColumn ''clients'' (nullable ''requests_per_minute'' Integer),
      AddColumn ''clients'' (nullable ''requests_per_day'' Integer),
      AddColumn ''clients'' (nullable ''tokens_per_day'' Integer),
      AddColumn ''api_keys'' (nullable ''requests_per_minute'' Integer),
      AddColumn ''api_keys'' (nullable ''requests_per_day'' Integer),
      AddColumn ''api_keys'' (nullable ''tokens_per_day'' Integer),
      CreateTable \<lparr> tb_name = ''usage_records'',
        tb_columns =
          [primary_key ''id'' (VarChar 36), required ''request_id'' (VarChar 64),
           references ''users'' SetNull (nullable ''user_id'' (VarChar 36)),
           references ''clients'' SetNull (nullable ''client_id'' (VarChar 36)),
           references ''api_keys'' SetNull (nullable ''api_key_id'' (VarChar 36)),
           required ''model'' (VarChar 255), with_default ''0'' (required ''streaming'' Integer),
           required ''started_at'' DateTime, nullable ''completed_at'' DateTime,
           required ''status'' (VarChar 32), nullable ''prompt_tokens'' Integer,
           nullable ''completion_tokens'' Integer, nullable ''total_tokens'' Integer,
           nullable ''queue_wait_ms'' Integer, nullable ''error_code'' (VarChar 64)],
        tb_uniques = [] \<rparr>,
      CreateIndex \<lparr> ix_name = ''ix_usage_records_request_id'', ix_table = ''usage_records'', ix_columns = [''request_id''] \<rparr>,
      CreateIndex \<lparr> ix_name = ''ix_usage_records_api_key_id'', ix_table = ''usage_records'', ix_columns = [''api_key_id''] \<rparr>,
      CreateIndex \<lparr> ix_name = ''ix_usage_records_client_id'', ix_table = ''usage_records'', ix_columns = [''client_id''] \<rparr>,
      CreateIndex \<lparr> ix_name = ''ix_usage_records_started_at'', ix_table = ''usage_records'', ix_columns = [''started_at''] \<rparr>,
      CreateIndex \<lparr> ix_name = ''ix_usage_records_client_started'', ix_table = ''usage_records'',
        ix_columns = [''client_id'', ''started_at''] \<rparr>,
      CreateIndex \<lparr> ix_name = ''ix_usage_records_api_key_started'', ix_table = ''usage_records'',
        ix_columns = [''api_key_id'', ''started_at''] \<rparr>]"

definition downgrade_0003 :: "statement list" where
  "downgrade_0003 =
     [DropIndex ''ix_usage_records_api_key_started'' ''usage_records'',
      DropIndex ''ix_usage_records_client_started'' ''usage_records'',
      DropIndex ''ix_usage_records_started_at'' ''usage_records'',
      DropIndex ''ix_usage_records_client_id'' ''usage_records'',
      DropIndex ''ix_usage_records_api_key_id'' ''usage_records'',
      DropIndex ''ix_usage_records_request_id'' ''usage_records'',
      DropTable ''usage_records'',
      DropColumn ''api_keys'' ''tokens_per_day'',
      DropColumn ''api_keys'' ''requests_per_day'',
      DropColumn ''api_keys'' ''requests_per_minute'',
      DropColumn ''clients'' ''tokens_per_day'',
      DropColumn ''clients'' ''requests_per_day'',
      DropColumn ''clients'' ''requests_per_minute'']"

definition upgrade_0004 :: "statement list" where
  "upgrade_0004 =
     [AddColumn ''usage_records'' (nullable ''backend_latency_ms'' Integer),
      AddColumn ''usage_records'' (nullable ''ttft_ms'' Integer),
      AddColumn ''usage_records'' (nullable ''stream_duration_ms'' Integer),
      AddColumn ''usage_records'' (nullable ''total_duration_ms'' Integer),
      CreateIndex \<lparr> ix_name = ''ix_usage_records_status'', ix_table = ''usage_records'', ix_columns = [''status''] \<rparr>,
      CreateIndex \<lparr> ix_name = ''ix_usage_records_model'', ix_table = ''usage_records'', ix_columns = [''model''] \<rparr>,
      CreateIndex \<lparr> ix_name = ''ix_usage_records_status_started'', ix_table = ''usage_records'',
        ix_columns = [''status'', ''started_at''] \<rparr>,
      CreateIndex \<lparr> ix_name = ''ix_usage_records_model_started'', ix_table = ''usage_records'',
        ix_columns = [''model'', ''started_at''] \<rparr>]"

definition downgrade_0004 :: "statement list" where
  "downgrade_0004 =
     [DropIndex ''ix_usage_records_model_started'' ''usage_records'',
      DropIndex ''ix_usage_records_status_started'' ''usage_records'',
      DropIndex ''ix_usage_records_model'' ''usage_records'',
      DropIndex ''ix_usage_records_status'' ''usage_records'',
      DropColumn ''usage_records'' ''total_duration_ms'',
      DropColumn ''usage_records'' ''stream_duration_ms'',
      DropColumn ''usage_records'' ''ttft_ms'',
      DropColumn ''usage_records'' ''backend_latency_ms'']"

definition upgrade_0005 :: "statement list" where
  "upgrade_0005 =
     [AddColumn ''usage_records'' (nullable ''backend_id'' (VarChar 64)),
      CreateIndex \<lparr> ix_name = ''ix_usage_records_backend_id'', ix_table = ''usage_records'',
        ix_columns = [''backend_id''] \<rparr>]"

definition downgrade_0005 :: "statement list" where
  "downgrade_0005 =
     [DropIndex ''ix_usage_records_backend_id'' ''usage_records'',
      DropColumn ''usage_records'' ''backend_id'']"

record revision =
  rv_revision :: string
  rv_down_revision :: "string option"
  rv_upgrade :: "statement list"
  rv_downgrade :: "statement list"

definition revision_0001 :: revision where
  "revision_0001 = \<lparr> rv_revision = ''0001_initial'', rv_down_revision = None, rv_upgrade = [], rv_downgrade = [] \<rparr>"

definition revision_0002 :: revision where
  "revision_0002 = \<lparr> rv_revision = ''0002_m3_auth'', rv_down_revision = Some ''0001_initial'',
     rv_upgrade = upgrade_0002, rv_downgrade = downgrade_0002 \<rparr>"

definition revision_0003 :: revision where
  "revision_0003 = \<lparr> rv_revision = ''0003_m6_usage'', rv_down_revision = Some ''0002_m3_auth'',
     rv_upgrade = upgrade_0003, rv_downgrade = downgrade_0003 \<rparr>"

definition revision_0004 :: revision where
  "revision_0004 = \<lparr> rv_revision = ''0004_m7_observability'', rv_down_revision = Some ''0003_m6_usage'',
     rv_upgrade = upgrade_0004, rv_downgrade = downgrade_0004 \<rparr>"

definition revision_0005 :: revision where
  "revision_0005 = \<lparr> rv_revision = ''0005_m9_routing'', rv_down_revision = Some ''0004_m7_observability'',
     rv_upgrade = upgrade_0005, rv_downgrade = downgrade_0005 \<rparr>"

definition revisions :: "revision list" where
  "revisions = [revision_0001, revision_0002, revision_0003, revision_0004, revision_0005]"

lemma revisions_chained:
  "list_all (\<lambda>i. rv_down_revision (revisions ! Suc i) = Some (rv_revision (revisions ! i))) [0..<4]"
  by (simp add: revisions_def revision_0001_def revision_0002_def revision_0003_def revision_0004_def
      revision_0005_def upt_rec)

definition upgrade_to :: "nat \<Rightarrow> schema \<Rightarrow> schema option" where
  \<comment> \<open>the first revisions, from the base on\<close>
  "upgrade_to n = run_statements (concat (map rv_upgrade (take n revisions)))"

definition downgrade_from :: "nat \<Rightarrow> schema \<Rightarrow> schema option" where
  "downgrade_from n = run_statements (concat (map rv_downgrade (rev (take n revisions))))"

section \<open>Well-formed schemas and the inverse of a statement\<close>

definition table_ok :: "table \<Rightarrow> bool" where
  "table_ok t \<longleftrightarrow> distinct (column_names t) \<and> (\<forall>u\<in>set (tb_uniques t). set (snd u) \<subseteq> set (column_names t))"

definition schema_ok :: "schema \<Rightarrow> bool" where
  "schema_ok s \<longleftrightarrow>
     distinct (map tb_name (sc_tables s)) \<and> distinct (map ix_name (sc_indexes s)) \<and>
     (\<forall>t\<in>set (sc_tables s). table_ok t) \<and>
     (\<forall>i\<in>set (sc_indexes s). \<exists>t\<in>set (sc_tables s).
        tb_name t = ix_table i \<and> set (ix_columns i) \<subseteq> set (column_names t))"

lemma index_table:
  assumes "schema_ok s" "i \<in> set (sc_indexes s)"
  obtains t where "t \<in> set (sc_tables s)" "tb_name t = ix_table i" "set (ix_columns i) \<subseteq> set (column_names t)"
  using assms unfolding schema_ok_def by blast

lemma table_unique:
  "schema_ok s \<Longrightarrow> t \<in> set (sc_tables s) \<Longrightarrow> t' \<in> set (sc_tables s) \<Longrightarrow> tb_name t' = tb_name t \<Longrightarrow> t' = t"
  unfolding schema_ok_def distinct_map inj_on_def by blast

lemma schema_okI:
  assumes "distinct (map tb_name (sc_tables s))" "distinct (map ix_name (sc_indexes s))"
    "\<And>t. t \<in> set (sc_tables s) \<Longrightarrow> table_ok t"
    "\<And>i. i \<in> set (sc_indexes s) \<Longrightarrow> \<exists>t\<in>set (sc_tables s).
       tb_name t = ix_table i \<and> set (ix_columns i) \<subseteq> set (column_names t)"
  shows "schema_ok s"
  using assms unfolding schema_ok_def by blast

lemma schema_okD:
  assumes "schema_ok s"
  shows "distinct (map tb_name (sc_tables s))" "distinct (map ix_name (sc_indexes s))"
    "t \<in> set (sc_tables s) \<Longrightarrow> table_ok t"
  using assms unfolding schema_ok_def by blast+

definition plain :: "column \<Rightarrow> bool" where
  "plain c \<longleftrightarrow> \<not> cn_primary c \<and> \<not> cn_unique c \<and> cn_foreign c = None"

fun creating :: "statement \<Rightarrow> bool" where
  "creating (CreateTable t) = table_ok t"
| "creating (AddColumn n c) = plain c"
| "creating (CreateIndex i) = True"
| "creating _ = False"

fun undo :: "statement \<Rightarrow> statement" where
  "undo (CreateTable t) = DropTable (tb_name t)"
| "undo (AddColumn n c) = DropColumn n (cn_name c)"
| "undo (CreateIndex i) = DropIndex (ix_name i) (ix_table i)"
| "undo x = x"

lemma find_table_Some:
  "find_table n s = Some t \<Longrightarrow> t \<in> set (sc_tables s) \<and> tb_name t = n"
  by (auto simp: find_table_def find_Some_iff)

lemma find_table_None: "find_table n s = None \<longleftrightarrow> n \<notin> tb_name ` set (sc_tables s)"
  by (auto simp: find_table_def find_None_iff)

lemma find_table_update:
  "(\<And>t. tb_name (f t) = tb_name t) \<Longrightarrow> find_table n (update_table m f s) =
     (if n = m then map_option f (find_table n s) else find_table n s)"
proof -
  assume f: "\<And>t. tb_name (f t) = tb_name t"
  have "List.find (\<lambda>t. tb_name t = n) (map (\<lambda>t. if tb_name t = m then f t else t) ts) =
      (if n = m then map_option f (List.find (\<lambda>t. tb_name t = n) ts) else List.find (\<lambda>t. tb_name t = n) ts)" for ts
    by (induction ts) (auto simp: f)
  then show ?thesis by (simp add: find_table_def update_table_def)
qed

lemma fresh_name: "n \<notin> f ` A \<Longrightarrow> x \<in> A \<Longrightarrow> f x \<noteq> n"
  by blast

lemma undo_create_table:
  assumes "schema_ok s" "table_ok t" "run_statement (CreateTable t) s = Some s'"
  shows "schema_ok s' \<and> run_statement (DropTable (tb_name t)) s' = Some s"
proof -
  have fresh: "tb_name t \<notin> tb_name ` set (sc_tables s)" and s': "s' = s\<lparr> sc_tables := sc_tables s @ [t] \<rparr>"
    using assms(3) by (auto split: if_splits)
  have "ix_table i \<noteq> tb_name t" if "i \<in> set (sc_indexes s)" for i
    by (rule index_table [OF assms(1) that]) (metis fresh fresh_name)
  then have "filter (\<lambda>i. ix_table i \<noteq> tb_name t) (sc_indexes s) = sc_indexes s"
    by simp
  moreover have "filter (\<lambda>u. tb_name u \<noteq> tb_name t) (sc_tables s) = sc_tables s"
    using fresh_name [OF fresh] by (intro filter_True ballI)
  moreover have "schema_ok s'"
  proof (rule schema_okI)
    fix i assume "i \<in> set (sc_indexes s')"
    then have "i \<in> set (sc_indexes s)" by (simp add: s')
    then show "\<exists>t\<in>set (sc_tables s'). tb_name t = ix_table i \<and> set (ix_columns i) \<subseteq> set (column_names t)"
      by (rule index_table [OF assms(1)]) (auto simp: s')
  qed (use schema_okD [OF assms(1)] assms(2) fresh in \<open>auto simp: s'\<close>)
  ultimately show ?thesis by (simp add: s')
qed

lemma undo_create_index:
  assumes "schema_ok s" "run_statement (CreateIndex i) s = Some s'"
  shows "schema_ok s' \<and> run_statement (DropIndex (ix_name i) (ix_table i)) s' = Some s"
proof -
  obtain t where t: "find_table (ix_table i) s = Some t" "set (ix_columns i) \<subseteq> set (column_names t)"
    and fresh: "ix_name i \<notin> ix_name ` set (sc_indexes s)" and s': "s' = s\<lparr> sc_indexes := sc_indexes s @ [i] \<rparr>"
    using assms(2) by (auto split: option.splits if_splits)
  have "filter (\<lambda>j. ix_name j \<noteq> ix_name i) (sc_indexes s) = sc_indexes s"
    using fresh_name [OF fresh] by (intro filter_True ballI)
  moreover have "schema_ok s'"
  proof (rule schema_okI)
    fix j assume "j \<in> set (sc_indexes s')"
    then consider "j = i" | "j \<in> set (sc_indexes s)" by (auto simp: s')
    then show "\<exists>t\<in>set (sc_tables s'). tb_name t = ix_table j \<and> set (ix_columns j) \<subseteq> set (column_names t)"
    proof cases
      case 1
      then show ?thesis using find_table_Some [OF t(1)] t(2) by (auto simp: s')
    next
      case 2
      then show ?thesis by (rule index_table [OF assms(1)]) (auto simp: s')
    qed
  qed (use schema_okD [OF assms(1)] fresh in \<open>auto simp: s'\<close>)
  ultimately show ?thesis by (simp add: s')
qed

lemma unused_column:
  assumes "schema_ok s" "t \<in> set (sc_tables s)" "c \<notin> set (column_names t)"
  shows "i \<in> set (sc_indexes s) \<Longrightarrow> ix_table i = tb_name t \<Longrightarrow> c \<notin> set (ix_columns i)"
    "u \<in> set (tb_uniques t) \<Longrightarrow> c \<notin> set (snd u)"
proof -
  show "i \<in> set (sc_indexes s) \<Longrightarrow> ix_table i = tb_name t \<Longrightarrow> c \<notin> set (ix_columns i)"
    by (erule index_table [OF assms(1)]) (use table_unique [OF assms(1,2)] assms(3) in auto)
  show "u \<in> set (tb_uniques t) \<Longrightarrow> c \<notin> set (snd u)"
    using schema_okD(3) [OF assms(1,2)] assms(3) by (auto simp: table_ok_def)
qed

lemma undo_add_column:
  assumes "schema_ok s" "plain c" "run_statement (AddColumn n c) s = Some s'"
  shows "schema_ok s' \<and> run_statement (DropColumn n (cn_name c)) s' = Some s"
proof -
  let ?f = "\<lambda>t. t\<lparr> tb_columns := tb_columns t @ [c] \<rparr>"
  obtain t where t: "find_table n s = Some t" and fresh: "cn_name c \<notin> set (column_names t)"
    and s': "s' = update_table n ?f s"
    using assms(3) by (auto split: option.splits if_splits)
  have mem: "t \<in> set (sc_tables s)" "tb_name t = n" using find_table_Some [OF t] by auto
  have eq: "t' = t" if "t' \<in> set (sc_tables s)" "tb_name t' = n" for t'
    using table_unique [OF assms(1) mem(1) that(1)] mem(2) that(2) by simp
  have names: "map tb_name (sc_tables s') = map tb_name (sc_tables s)" "sc_indexes s' = sc_indexes s"
    by (simp_all add: s' update_table_def o_def if_distrib cong: if_cong)
  have tabs: "set (sc_tables s') = (\<lambda>u. if u = t then ?f t else u) ` set (sc_tables s)"
    using eq mem(2) by (auto simp: s' update_table_def image_iff)
  have find': "find_table n s' = Some (?f t)" by (simp add: s' find_table_update t)
  have ok': "schema_ok s'"
  proof (rule schema_okI)
    fix u assume "u \<in> set (sc_tables s')"
    then consider "u = ?f t" | "u \<in> set (sc_tables s)" by (auto simp: tabs split: if_splits)
    then show "table_ok u"
    proof cases
      case 1
      then show ?thesis using schema_okD(3) [OF assms(1) mem(1)] fresh
        by (auto simp: table_ok_def column_names_def)
    qed (rule schema_okD(3) [OF assms(1)])
  next
    fix i assume "i \<in> set (sc_indexes s')"
    then have "i \<in> set (sc_indexes s)" by (simp add: names)
    then obtain u where u: "u \<in> set (sc_tables s)" "tb_name u = ix_table i" "set (ix_columns i) \<subseteq> set (column_names u)"
      by (rule index_table [OF assms(1)])
    show "\<exists>t\<in>set (sc_tables s'). tb_name t = ix_table i \<and> set (ix_columns i) \<subseteq> set (column_names t)"
      using u by (intro bexI [of _ "if u = t then ?f t else u"]) (auto simp: tabs column_names_def)
  qed (use schema_okD [OF assms(1)] in \<open>simp_all add: names\<close>)
  have free: "cn_name x \<noteq> cn_name c" if "x \<in> set (tb_columns t)" for x
    using fresh_name [of "cn_name c" cn_name, OF _ that] fresh by (simp add: column_names_def)
  have "\<not> column_used n (cn_name c) s'"
  proof -
    have 1: "\<not> (\<exists>i\<in>set (sc_indexes s'). ix_table i = n \<and> cn_name c \<in> set (ix_columns i))"
      using unused_column(1) [OF assms(1) mem(1) fresh] mem(2) by (auto simp: names)
    have 2: "u = ?f t" if "u \<in> set (sc_tables s')" "tb_name u = n" for u
      using that eq by (auto simp: tabs split: if_splits)
    have 3: "\<not> (\<exists>u\<in>set (tb_uniques (?f t)). cn_name c \<in> set (snd u))"
      using unused_column(2) [OF assms(1) mem(1) fresh] by auto
    have 4: "x = c" if "x \<in> set (tb_columns (?f t))" "cn_name x = cn_name c" for x
      using that free by auto
    show ?thesis
    proof
      assume "column_used n (cn_name c) s'"
      then obtain u where "u \<in> set (sc_tables s')" "tb_name u = n"
        and u: "(\<exists>x\<in>set (tb_uniques u). cn_name c \<in> set (snd x)) \<or>
          (\<exists>x\<in>set (tb_columns u). cn_name x = cn_name c \<and> (cn_primary x \<or> cn_unique x \<or> cn_foreign x \<noteq> None))"
        using 1 unfolding column_used_def by blast
      then have "u = ?f t" using 2 by blast
      with u 3 obtain x where x: "x \<in> set (tb_columns (?f t))" "cn_name x = cn_name c"
          "cn_primary x \<or> cn_unique x \<or> cn_foreign x \<noteq> None"
        by blast
      from x(3) show False using assms(2) unfolding 4 [OF x(1,2)] plain_def by auto
    qed
  qed
  moreover have "update_table n (\<lambda>t. t\<lparr> tb_columns := filter (\<lambda>x. cn_name x \<noteq> cn_name c) (tb_columns t) \<rparr>) s' = s"
  proof -
    have "filter (\<lambda>x. cn_name x \<noteq> cn_name c) (tb_columns t) = tb_columns t" using free by (intro filter_True) simp
    then have "(?f t)\<lparr> tb_columns := filter (\<lambda>x. cn_name x \<noteq> cn_name c) (tb_columns (?f t)) \<rparr> = t" by simp
    then have "map (\<lambda>u. if tb_name u = n then u\<lparr> tb_columns := filter (\<lambda>x. cn_name x \<noteq> cn_name c) (tb_columns u) \<rparr> else u)
        (sc_tables s') = sc_tables s"
      using eq by (auto simp: s' update_table_def intro!: map_idI)
    then show ?thesis by (simp add: update_table_def names)
  qed
  ultimately show ?thesis using ok' find' by (simp add: column_names_def)
qed

lemma undo_statement:
  assumes "creating x" "schema_ok s" "run_statement x s = Some s'"
  shows "schema_ok s' \<and> run_statement (undo x) s' = Some s"
proof (cases x)
  case (CreateTable t)
  with assms undo_create_table [of s t s'] show ?thesis by (simp only: creating.simps undo.simps)
next
  case (AddColumn n c)
  with assms undo_add_column [of s c n s'] show ?thesis by (simp only: creating.simps undo.simps)
next
  case (CreateIndex i)
  with assms undo_create_index [of s i s'] show ?thesis by (simp only: undo.simps)
qed (use assms(1) in simp_all)

lemma run_statements_append:
  "run_statements (xs @ ys) s = (case run_statements xs s of None \<Rightarrow> None | Some s' \<Rightarrow> run_statements ys s')"
  by (induction xs arbitrary: s) (auto split: option.splits)

lemma undo_statements:
  "list_all creating xs \<Longrightarrow> schema_ok s \<Longrightarrow> run_statements xs s = Some s' \<Longrightarrow>
     schema_ok s' \<and> run_statements (rev (map undo xs)) s' = Some s"
proof (induction xs arbitrary: s)
  case (Cons x xs)
  obtain s1 where s1: "run_statement x s = Some s1" "run_statements xs s1 = Some s'"
    using Cons.prems(3) by (auto split: option.splits)
  have "schema_ok s1" "run_statement (undo x) s1 = Some s"
    using undo_statement [OF _ Cons.prems(2) s1(1)] Cons.prems(1) by auto
  with Cons.IH [OF _ _ s1(2)] Cons.prems(1) show ?case by (simp add: run_statements_append)
qed simp

section \<open>The chain\<close>

lemmas upgrade_defs = upgrade_0002_def upgrade_0003_def upgrade_0004_def upgrade_0005_def
lemmas downgrade_defs = downgrade_0002_def downgrade_0003_def downgrade_0004_def downgrade_0005_def
lemmas revision_defs = revision_0001_def revision_0002_def revision_0003_def revision_0004_def revision_0005_def
lemmas column_defs = nullable_def required_def primary_key_def references_def with_default_def

lemma upgrades_creating: "r \<in> set revisions \<Longrightarrow> list_all creating (rv_upgrade r)"
  by (auto simp: revisions_def revision_defs upgrade_defs table_ok_def column_names_def plain_def column_defs)

lemma downgrades_undo: "r \<in> set revisions \<Longrightarrow> rv_downgrade r = rev (map undo (rv_upgrade r))"
  by (auto simp: revisions_def revision_defs upgrade_defs downgrade_defs column_defs)

lemma chain_reversible:
  "set rs \<subseteq> set revisions \<Longrightarrow> schema_ok s \<Longrightarrow> run_statements (concat (map rv_upgrade rs)) s = Some s' \<Longrightarrow>
     schema_ok s' \<and> run_statements (concat (map rv_downgrade (rev rs))) s' = Some s"
proof -
  assume rs: "set rs \<subseteq> set revisions" and s: "schema_ok s" "run_statements (concat (map rv_upgrade rs)) s = Some s'"
  have "list_all creating (concat (map rv_upgrade rs)) \<and>
      concat (map rv_downgrade (rev rs)) = rev (map undo (concat (map rv_upgrade rs)))"
    using rs by (induction rs) (simp_all add: upgrades_creating downgrades_undo)
  with undo_statements [OF _ s] show ?thesis by simp
qed

text \<open>C40: Migrations can be taken back: on any well-formed schema, when the first revisions of the chain run
  without a refusal, they leave a well-formed schema, and the downgrades of the same revisions, in reverse,
  run without a refusal from it and give exactly the schema there was before.\<close>

theorem migrations_reversible:
  assumes "schema_ok s" "upgrade_to n s = Some s'"
  shows "schema_ok s' \<and> downgrade_from n s' = Some s"
  using chain_reversible [OF set_take_subset assms(1) assms(2) [unfolded upgrade_to_def]]
  by (simp add: downgrade_from_def)

theorem migrations_reversible_witness:
  "\<exists>s. upgrade_to 2 empty_schema = Some s \<and> schema_ok s \<and> downgrade_from 2 s = Some empty_schema"
proof -
  have "\<exists>s. upgrade_to 2 empty_schema = Some s"
    by (simp add: upgrade_to_def revisions_def revision_defs upgrade_defs empty_schema_def find_table_def
        column_names_def column_defs)
  moreover have "schema_ok empty_schema" by (simp add: schema_ok_def empty_schema_def)
  ultimately show ?thesis using migrations_reversible by blast
qed

section \<open>The head of the chain and the store\<close>

text \<open>What SQLite checks of the rows of a schema: the columns, types and nulls of each, and the unique
  keys of each table, where a null equals nothing.\<close>

datatype cell = Null | Number int | Chars string | Time datetime

type_synonym row = "(string \<times> cell) list"

definition cell_of :: "string \<Rightarrow> row \<Rightarrow> cell" where
  "cell_of n r = (case map_of r n of None \<Rightarrow> Null | Some x \<Rightarrow> x)"

definition fits :: "column \<Rightarrow> cell \<Rightarrow> bool" where
  "fits c x =
     (case x of
        Null \<Rightarrow> cn_nullable c
      | Number _ \<Rightarrow> cn_type c = Integer
      | Time _ \<Rightarrow> cn_type c = DateTime
      | Chars _ \<Rightarrow> cn_type c \<noteq> Integer \<and> cn_type c \<noteq> DateTime)"

definition row_fits :: "table \<Rightarrow> row \<Rightarrow> bool" where
  "row_fits t r \<longleftrightarrow> list_all2 (\<lambda>c x. fst x = cn_name c \<and> fits c (snd x)) (tb_columns t) r"

definition unique_on :: "string list \<Rightarrow> row list \<Rightarrow> bool" where
  "unique_on ns rows \<longleftrightarrow>
     distinct (map (\<lambda>r. map (\<lambda>n. cell_of n r) ns) (filter (\<lambda>r. list_all (\<lambda>n. cell_of n r \<noteq> Null) ns) rows))"

definition table_keys :: "table \<Rightarrow> string list list" where
  "table_keys t = map (\<lambda>c. [cn_name c]) (filter (\<lambda>c. cn_primary c \<or> cn_unique c) (tb_columns t)) @ map snd (tb_uniques t)"

definition admits :: "schema \<Rightarrow> (string \<Rightarrow> row list) \<Rightarrow> bool" where
  "admits s rows \<longleftrightarrow>
     list_all (\<lambda>t. list_all (row_fits t) (rows (tb_name t)) \<and> list_all (\<lambda>ns. unique_on ns (rows (tb_name t))) (table_keys t))
       (sc_tables s)"

text \<open>The rows of the model's store.  The integer keys of \<open>client_allowed_models\<close>, which the program never
  reads, are positions.\<close>

abbreviation opt :: "('a \<Rightarrow> cell) \<Rightarrow> 'a option \<Rightarrow> cell" where
  "opt f x \<equiv> case_option Null f x"

definition user_row :: "user \<Rightarrow> row" where
  "user_row u =
     [(''id'', Chars (u_id u)), (''name'', Chars (u_name u)), (''status'', Chars (u_status u)),
      (''created_at'', Time (u_created_at u)), (''updated_at'', Time (u_updated_at u))]"

definition client_row :: "client \<Rightarrow> row" where
  "client_row c =
     [(''id'', Chars (c_id c)), (''user_id'', Chars (c_user_id c)), (''name'', Chars (c_name c)),
      (''description'', opt Chars (c_description c)), (''status'', Chars (c_status c)),
      (''created_at'', Time (c_created_at c)), (''updated_at'', Time (c_updated_at c)),
      (''requests_per_minute'', opt Number (c_rpm c)), (''requests_per_day'', opt Number (c_rpd c)),
      (''tokens_per_day'', opt Number (c_tpd c))]"

definition key_row :: "api_key \<Rightarrow> row" where
  "key_row k =
     [(''id'', Chars (k_id k)), (''client_id'', Chars (k_client_id k)), (''name'', Chars (k_name k)),
      (''key_prefix'', Chars (k_prefix k)), (''key_hash'', Chars (k_hash k)), (''created_at'', Time (k_created_at k)),
      (''expires_at'', opt Time (k_expires_at k)), (''revoked_at'', opt Time (k_revoked_at k)),
      (''last_used_at'', opt Time (k_last_used_at k)), (''requests_per_minute'', opt Number (k_rpm k)),
      (''requests_per_day'', opt Number (k_rpd k)), (''tokens_per_day'', opt Number (k_tpd k))]"

definition allowed_row :: "nat \<times> allowed_model \<Rightarrow> row" where
  "allowed_row x =
     [(''id'', Number (int (fst x))), (''client_id'', Chars (m_client_id (snd x))),
      (''model_id'', Chars (m_model_id (snd x)))]"

definition usage_row :: "usage_record \<Rightarrow> row" where
  "usage_row r =
     [(''id'', Chars (r_id r)), (''request_id'', Chars (r_request_id r)), (''user_id'', opt Chars (r_user_id r)),
      (''client_id'', opt Chars (r_client_id r)), (''api_key_id'', opt Chars (r_api_key_id r)),
      (''model'', Chars (r_model r)), (''streaming'', Number (r_streaming r)), (''started_at'', Time (r_started_at r)),
      (''completed_at'', opt Time (r_completed_at r)), (''status'', Chars (r_status r)),
      (''prompt_tokens'', opt Number (r_prompt_tokens r)), (''completion_tokens'', opt Number (r_completion_tokens r)),
      (''total_tokens'', opt Number (r_total_tokens r)), (''queue_wait_ms'', opt Number (r_queue_wait_ms r)),
      (''error_code'', opt Chars (r_error_code r)), (''backend_latency_ms'', opt Number (r_backend_latency_ms r)),
      (''ttft_ms'', opt Number (r_ttft_ms r)), (''stream_duration_ms'', opt Number (r_stream_duration_ms r)),
      (''total_duration_ms'', opt Number (r_total_duration_ms r)), (''backend_id'', opt Chars (r_backend_id r))]"

definition store_rows :: "store \<Rightarrow> string \<Rightarrow> row list" where
  "store_rows st n =
     (if n = ''users'' then map user_row (users st)
      else if n = ''clients'' then map client_row (clients st)
      else if n = ''api_keys'' then map key_row (api_keys st)
      else if n = ''client_allowed_models'' then map allowed_row (enumerate 1 (allowed_models st))
      else if n = ''usage_records'' then map usage_row (usage_records st)
      else [])"

lemmas row_defs = user_row_def client_row_def key_row_def allowed_row_def usage_row_def

lemma unique_on_map:
  "(\<And>x. list_all (\<lambda>n. cell_of n (f x) \<noteq> Null) ns) \<Longrightarrow>
     unique_on ns (map f xs) \<longleftrightarrow> distinct (map (\<lambda>x. map (\<lambda>n. cell_of n (f x)) ns) xs)"
  by (simp add: unique_on_def filter_map o_def)

lemma distinct_map_cong: "(\<And>x y. f x = f y \<longleftrightarrow> g x = g y) \<Longrightarrow> distinct (map f xs) = distinct (map g xs)"
  by (simp add: distinct_map inj_on_def)

lemma unique_keys:
  "unique_on [''id''] (map user_row us) \<longleftrightarrow> distinct (map u_id us)"
  "unique_on [''name''] (map user_row us) \<longleftrightarrow> distinct (map u_name us)"
  "unique_on [''id''] (map client_row cs) \<longleftrightarrow> distinct (map c_id cs)"
  "unique_on [''user_id'', ''name''] (map client_row cs) \<longleftrightarrow> distinct (map (\<lambda>c. (c_user_id c, c_name c)) cs)"
  "unique_on [''id''] (map key_row ks) \<longleftrightarrow> distinct (map k_id ks)"
  "unique_on [''id''] (map usage_row rs) \<longleftrightarrow> distinct (map r_id rs)"
  by (subst unique_on_map; (simp add: cell_of_def row_defs)?; (rule distinct_map_cong; simp))+

lemma unique_allowed:
  "unique_on [''id''] (map allowed_row (enumerate n ms))"
  "unique_on [''client_id'', ''model_id''] (map allowed_row (enumerate n ms)) \<longleftrightarrow> distinct ms"
proof -
  show "unique_on [''id''] (map allowed_row (enumerate n ms))"
  proof (subst unique_on_map)
    have "distinct (map (\<lambda>x. map (\<lambda>n. cell_of n (allowed_row x)) [''id'']) (enumerate n ms)) =
        distinct (map fst (enumerate n ms))"
      by (rule distinct_map_cong) (simp add: cell_of_def row_defs)
    then show "distinct (map (\<lambda>x. map (\<lambda>n. cell_of n (allowed_row x)) [''id'']) (enumerate n ms))"
      by simp
  qed (simp add: cell_of_def row_defs)
  have "distinct (map (\<lambda>x. map (\<lambda>n. cell_of n (allowed_row x)) [''client_id'', ''model_id'']) (enumerate n ms)) =
      distinct (map snd (enumerate n ms))"
    by (rule distinct_map_cong) (auto simp: cell_of_def row_defs intro: allowed_model.equality)
  then show "unique_on [''client_id'', ''model_id''] (map allowed_row (enumerate n ms)) \<longleftrightarrow> distinct ms"
    by (subst unique_on_map) (simp_all add: cell_of_def row_defs)
qed

lemma fits_simps:
  "fits c Null = cn_nullable c" "fits c (Number i) \<longleftrightarrow> cn_type c = Integer" "fits c (Time t) \<longleftrightarrow> cn_type c = DateTime"
  "fits c (Chars v) \<longleftrightarrow> cn_type c \<noteq> Integer \<and> cn_type c \<noteq> DateTime"
  "cn_nullable c \<Longrightarrow> cn_type c = Integer \<Longrightarrow> fits c (opt Number x)"
  "cn_nullable c \<Longrightarrow> cn_type c = DateTime \<Longrightarrow> fits c (opt Time y)"
  "cn_nullable c \<Longrightarrow> cn_type c \<noteq> Integer \<Longrightarrow> cn_type c \<noteq> DateTime \<Longrightarrow> fits c (opt Chars z)"
  by (auto simp: fits_def split: option.split)

lemma admits_head:
  "map_option (\<lambda>sc. admits sc (store_rows st)) (upgrade_to 5 empty_schema) =
     Some (distinct (map u_id (users st)) \<and> distinct (map u_name (users st)) \<and>
       distinct (map c_id (clients st)) \<and> distinct (map (\<lambda>c. (c_user_id c, c_name c)) (clients st)) \<and>
       distinct (map k_id (api_keys st)) \<and> distinct (allowed_models st) \<and> distinct (map r_id (usage_records st)))"
proof -
  note eval = upgrade_to_def revisions_def revision_defs upgrade_defs empty_schema_def find_table_def
      column_names_def column_defs update_table_def
  show ?thesis
    by (simp add: eval admits_def store_rows_def table_keys_def unique_keys unique_allowed,
        simp add: list_all_iff row_fits_def row_defs fits_simps)
qed

definition insert_meets :: "schema \<Rightarrow> store \<Rightarrow> exn + store" where
  \<comment> \<open>what the database answers to an insertion that would give this store\<close>
  "insert_meets sc st = (if admits sc (store_rows st) then Inr st else Inl integrity_error)"

text \<open>C39: Every insertion into the store answers as the database does whose schema the whole chain of
  migrations builds: from rows that schema admits, it stores the row exactly when the schema admits the
  rows with it, by its columns, types, nulls and unique keys, and is an integrity error otherwise.\<close>

theorem inserts_meet_schema:
  assumes "upgrade_to 5 empty_schema = Some sc" "admits sc (store_rows st)"
  shows "insert_user u st = insert_meets sc (st\<lparr> users := users st @ [u] \<rparr>) \<and>
    insert_client c st = insert_meets sc (st\<lparr> clients := clients st @ [c] \<rparr>) \<and>
    insert_key k st = insert_meets sc (st\<lparr> api_keys := api_keys st @ [k] \<rparr>) \<and>
    insert_allowed_model m st = insert_meets sc (st\<lparr> allowed_models := allowed_models st @ [m] \<rparr>) \<and>
    insert_usage r st = insert_meets sc (st\<lparr> usage_records := usage_records st @ [r] \<rparr>)"
proof -
  have "admits sc (store_rows st') \<longleftrightarrow>
      distinct (map u_id (users st')) \<and> distinct (map u_name (users st')) \<and>
      distinct (map c_id (clients st')) \<and> distinct (map (\<lambda>c. (c_user_id c, c_name c)) (clients st')) \<and>
      distinct (map k_id (api_keys st')) \<and> distinct (allowed_models st') \<and> distinct (map r_id (usage_records st'))" for st'
    using admits_head [of st'] assms(1) by simp
  note head = this
  note st = assms(2) [unfolded head]
  show ?thesis
    using st by (simp add: insert_meets_def head insert_user_def insert_client_def insert_key_def
        insert_allowed_model_def insert_usage_def)
qed

theorem inserts_meet_schema_witness:
  "\<exists>sc. upgrade_to 5 empty_schema = Some sc \<and> admits sc (store_rows empty_store) \<and>
     (\<forall>m. insert_allowed_model m empty_store = insert_meets sc (empty_store\<lparr> allowed_models := [m] \<rparr>))"
proof -
  obtain sc where sc: "upgrade_to 5 empty_schema = Some sc" "admits sc (store_rows empty_store)"
    using admits_head [of empty_store] by (auto simp: empty_store_def)
  from inserts_meet_schema [OF sc] have "\<forall>m. insert_allowed_model m empty_store =
      insert_meets sc (empty_store\<lparr> allowed_models := allowed_models empty_store @ [m] \<rparr>)"
    by blast
  with sc show ?thesis by (auto simp: empty_store_def)
qed

section \<open>Tables made without a migration\<close>

definition create_all :: "(table \<times> index list) list \<Rightarrow> schema \<Rightarrow> schema" where
  \<comment> \<open>\<open>Base.metadata.create_all\<close>: the tables that are missing, with their indexes; the metadata is that of
    \<open>app/models\<close>, which is not in the repository\<close>
  "create_all metadata s =
     (let new = filter (\<lambda>x. tb_name (fst x) \<notin> tb_name ` set (sc_tables s)) metadata
      in s\<lparr> sc_tables := sc_tables s @ map fst new, sc_indexes := sc_indexes s @ concat (map snd new) \<rparr>)"

definition create_tables :: "string \<Rightarrow> (table \<times> index list) list \<Rightarrow> schema \<Rightarrow> schema" where
  \<comment> \<open>in \<open>lifespan\<close>, by the value of the environment; the CLI does it in every environment\<close>
  "create_tables environment metadata s =
     (if environment \<in> {''development'', ''testing''} then create_all metadata s else s)"

lemma create_all_names:
  assumes "x \<in> set metadata"
  shows "tb_name (fst x) \<in> tb_name ` set (sc_tables (create_all metadata s))"
proof (cases "tb_name (fst x) \<in> tb_name ` set (sc_tables s)")
  case True
  then show ?thesis by (simp add: create_all_def Let_def image_Un)
next
  case False
  with assms have "fst x \<in> set (sc_tables (create_all metadata s))"
    by (auto simp: create_all_def Let_def intro!: imageI)
  then show ?thesis by (rule imageI)
qed

text \<open>A database that a server in development or a command has opened first cannot be migrated: the chain
  stops at its first table.\<close>

lemma migration_blocked:
  assumes "t \<in> set metadata" "tb_name (fst t) = ''users''"
  shows "upgrade_to 5 (create_all metadata s) = None"
proof -
  have "''users'' \<in> tb_name ` set (sc_tables (create_all metadata s))"
    using create_all_names [OF assms(1), of s] assms(2) by simp
  then have "run_statement (hd upgrade_0002) (create_all metadata s) = None"
    by (simp add: upgrade_0002_def)
  then have "run_statements (upgrade_0002 @ xs) (create_all metadata s) = None" for xs
    by (simp add: upgrade_0002_def)
  then show ?thesis by (simp add: upgrade_to_def revisions_def revision_0001_def revision_0002_def)
qed

section \<open>The URL of the database\<close>

text \<open>\<open>env.py\<close> hands the URL of the settings to Alembic by \<open>set_main_option\<close>, that is to Python's
  \<open>configparser\<close>, whose \<open>before_set\<close> refuses a value in which a percent sign is left once the pairs of
  them and the references \<open>%(name)s\<close> are taken out.\<close>

fun drop_pairs :: "string \<Rightarrow> string" where
  "drop_pairs (c # d # cs) =
     (if c = CHR ''%'' \<and> d = CHR ''%'' then drop_pairs cs else c # drop_pairs (d # cs))"
| "drop_pairs cs = cs"

definition reference_tail :: "string \<Rightarrow> string option" where
  \<comment> \<open>what follows a reference at the start of the text\<close>
  "reference_tail cs =
     (let name = takeWhile (\<lambda>c. c \<noteq> CHR '')'') (drop 2 cs); tail = dropWhile (\<lambda>c. c \<noteq> CHR '')'') (drop 2 cs)
      in if starts_with ''%('' cs \<and> name \<noteq> [] \<and> starts_with '')s'' tail then Some (drop 2 tail) else None)"

lemma reference_tail_shorter: "reference_tail cs = Some t \<Longrightarrow> length t < length cs"
proof -
  assume "reference_tail cs = Some t"
  then have cs: "cs \<noteq> []" and t: "t = drop 2 (dropWhile (\<lambda>c. c \<noteq> CHR '')'') (drop 2 cs))"
    by (auto simp: reference_tail_def starts_with_def Let_def split: if_splits)
  have "length (dropWhile (\<lambda>c. c \<noteq> CHR '')'') (drop 2 cs)) \<le> length (drop 2 cs)" by (rule length_dropWhile_le)
  with cs t show ?thesis by (cases cs) auto
qed

function drop_references :: "string \<Rightarrow> string" where
  "drop_references cs =
     (case reference_tail cs of
        Some t \<Rightarrow> drop_references t
      | None \<Rightarrow> (case cs of [] \<Rightarrow> [] | c # t \<Rightarrow> c # drop_references t))"
  by pat_completeness auto
termination by (relation "measure length") (auto dest: reference_tail_shorter)

declare drop_references.simps [simp del]

definition set_main_option :: "string \<Rightarrow> exn + string" where
  "set_main_option v =
     (if CHR ''%'' \<in> set (drop_references (drop_pairs v)) then Inl (PyError ''ValueError'') else Inr v)"

lemma drop_pairs_keeps:
  "CHR ''%'' \<notin> set a \<Longrightarrow> c \<noteq> CHR ''%'' \<Longrightarrow>
     drop_pairs (a @ CHR ''%'' # c # b) = a @ CHR ''%'' # drop_pairs (c # b)"
  by (induction a rule: drop_pairs.induct) auto

lemma drop_pairs_head: "c \<noteq> CHR ''%'' \<Longrightarrow> \<exists>t. drop_pairs (c # b) = c # t"
  by (cases b) auto

lemma reference_tail_None:
  "x \<noteq> CHR ''%'' \<Longrightarrow> reference_tail (x # cs) = None"
  "c \<noteq> CHR ''('' \<Longrightarrow> reference_tail (CHR ''%'' # c # cs) = None"
  by (simp_all add: reference_tail_def starts_with_def Let_def)

lemma drop_references_Cons:
  "reference_tail (x # cs) = None \<Longrightarrow> drop_references (x # cs) = x # drop_references cs"
  by (subst drop_references.simps) simp

lemma drop_references_keeps:
  assumes "CHR ''%'' \<notin> set a" "c \<noteq> CHR ''(''"
  shows "CHR ''%'' \<in> set (drop_references (a @ CHR ''%'' # c # b))"
  using assms(1) by (induction a) (auto simp: drop_references_Cons reference_tail_None assms(2))

text \<open>So no migration runs on a URL whose credentials are percent-encoded, although the server itself
  connects with it.\<close>

lemma encoded_url_refused:
  assumes "CHR ''%'' \<notin> set a" "c \<noteq> CHR ''%''" "c \<noteq> CHR ''(''"
  shows "set_main_option (a @ CHR ''%'' # c # b) = Inl (PyError ''ValueError'')"
proof -
  obtain t where "drop_pairs (c # b) = c # t" using drop_pairs_head [OF assms(2)] by blast
  then have "drop_pairs (a @ CHR ''%'' # c # b) = a @ CHR ''%'' # c # t"
    using drop_pairs_keeps [OF assms(1,2)] by simp
  then show ?thesis using drop_references_keeps [OF assms(1,3)] by (simp add: set_main_option_def)
qed

lemma plain_url_kept: "CHR ''%'' \<notin> set url \<Longrightarrow> set_main_option url = Inr url"
proof -
  assume url: "CHR ''%'' \<notin> set url"
  have "set (drop_pairs v) \<subseteq> set v" for v by (induction v rule: drop_pairs.induct) auto
  moreover have "CHR ''%'' \<notin> set v \<Longrightarrow> drop_references v = v" for v
    by (induction v) (auto simp: drop_references_Cons reference_tail_None drop_references.simps [of "[]"]
        reference_tail_def starts_with_def)
  ultimately show ?thesis using url by (simp add: set_main_option_def subset_eq) metis
qed

end
