(* ===== verification/AdminJson.thy ===== *)
theory AdminJson
  imports AdminStatus Health
begin

text \<open>
  The JSON of the management plane: what each response schema of \<open>app/api/admin_schemas.py\<close> and
  \<open>app/schemas/health.py\<close> writes, field by field in the order of its class.  \<open>fmt\<close> is pydantic's text
  of a time.
\<close>

section \<open>Users, clients and keys\<close>

definition time_json :: "(datetime \<Rightarrow> string) \<Rightarrow> datetime \<Rightarrow> json" where
  "time_json fmt t = JStr (fmt t)"

definition user_json :: "(datetime \<Rightarrow> string) \<Rightarrow> user_out \<Rightarrow> json" where
  "user_json fmt u =
     JObj [(''id'', JStr (uo_id u)), (''name'', JStr (uo_name u)), (''status'', JStr (uo_status u)),
           (''created_at'', time_json fmt (uo_created_at u)), (''updated_at'', time_json fmt (uo_updated_at u))]"

definition client_json :: "(datetime \<Rightarrow> string) \<Rightarrow> client_out \<Rightarrow> json" where
  "client_json fmt c =
     JObj [(''id'', JStr (co_id c)), (''user_id'', JStr (co_user_id c)), (''name'', JStr (co_name c)),
           (''description'', opt_json JStr (co_description c)), (''status'', JStr (co_status c)),
           (''allowed_models'', JList (map JStr (co_allowed_models c))),
           (''created_at'', time_json fmt (co_created_at c)), (''updated_at'', time_json fmt (co_updated_at c))]"

definition key_created_fields ::
  "(datetime \<Rightarrow> string) \<Rightarrow> 'a api_key_create_out_scheme \<Rightarrow> (string \<times> json) list" where
  "key_created_fields fmt k =
     [(''id'', JStr (kco_id k)), (''name'', JStr (kco_name k)), (''key_prefix'', JStr (kco_key_prefix k)),
      (''key'', JStr (kco_key k)), (''client_id'', JStr (kco_client_id k)),
      (''created_at'', time_json fmt (kco_created_at k)),
      (''expires_at'', opt_json (time_json fmt) (kco_expires_at k))]"

definition key_created_json :: "(datetime \<Rightarrow> string) \<Rightarrow> api_key_create_out \<Rightarrow> json" where
  "key_created_json fmt k = JObj (key_created_fields fmt k)"

definition key_rotated_json :: "(datetime \<Rightarrow> string) \<Rightarrow> api_key_rotate_out \<Rightarrow> json" where
  "key_rotated_json fmt k =
     JObj (key_created_fields fmt k @ [(''rotated_from'', opt_json JStr (kro_rotated_from k))])"

definition key_json :: "(datetime \<Rightarrow> string) \<Rightarrow> api_key_out \<Rightarrow> json" where
  "key_json fmt k =
     JObj [(''id'', JStr (ko_id k)), (''name'', JStr (ko_name k)), (''key_prefix'', JStr (ko_key_prefix k)),
           (''client_id'', JStr (ko_client_id k)), (''created_at'', time_json fmt (ko_created_at k)),
           (''expires_at'', opt_json (time_json fmt) (ko_expires_at k)),
           (''revoked_at'', opt_json (time_json fmt) (ko_revoked_at k)),
           (''last_used_at'', opt_json (time_json fmt) (ko_last_used_at k))]"

section \<open>Usage and limits\<close>

definition usage_json :: "usage_summary \<Rightarrow> json" where
  "usage_json u =
     JObj [(''requests'', JInt (s_requests u)), (''successful_requests'', JInt (s_successful u)),
           (''failed_requests'', JInt (s_failed u)), (''cancelled_requests'', JInt (s_cancelled u)),
           (''rejected_requests'', JInt (s_rejected u)), (''timed_out_requests'', JInt (s_timed_out u)),
           (''requests_with_unknown_usage'', JInt (s_unknown_usage u)),
           (''prompt_tokens'', JInt (s_prompt_tokens u)), (''completion_tokens'', JInt (s_completion_tokens u)),
           (''total_tokens'', JInt (s_total_tokens u))]"

definition policy_json :: "client_policy_out \<Rightarrow> json" where
  "policy_json p =
     JObj [(''id'', JStr (po_id p)), (''name'', JStr (po_name p)),
           (''requests_per_minute'', opt_json JInt (po_rpm p)), (''requests_per_day'', opt_json JInt (po_rpd p)),
           (''tokens_per_day'', opt_json JInt (po_tpd p))]"

section \<open>Observability\<close>

definition latency_json :: "latency_stats \<Rightarrow> json" where
  "latency_json l =
     JObj [(''count'', JInt (ls_count l)), (''avg_ms'', opt_json JInt (ls_avg_ms l)),
           (''p50_ms'', opt_json JInt (ls_p50_ms l)), (''p95_ms'', opt_json JInt (ls_p95_ms l)),
           (''max_ms'', opt_json JInt (ls_max_ms l))]"

definition outcomes_json :: "outcome_summary \<Rightarrow> json" where
  "outcomes_json r =
     JObj [(''completed'', JInt (os_completed r)), (''failed'', JInt (os_failed r)),
           (''cancelled'', JInt (os_cancelled r)), (''timed_out'', JInt (os_timed_out r)),
           (''rejected'', JInt (os_rejected r))]"

definition token_summary_json :: "token_summary \<Rightarrow> json" where
  "token_summary_json t =
     JObj [(''prompt_tokens'', JInt (ts_prompt t)), (''completion_tokens'', JInt (ts_completion t)),
           (''total_tokens'', JInt (ts_total t)), (''requests_with_unknown_usage'', JInt (ts_unknown t))]"

definition obs_summary_json :: "obs_summary \<Rightarrow> json" where
  "obs_summary_json s =
     JObj [(''requests'', outcomes_json (ob_requests s)), (''tokens'', token_summary_json (ob_tokens s)),
           (''latency'', latency_json (ob_latency s)), (''active'', JInt (ob_active s)),
           (''queued'', JInt (ob_queued s))]"

definition latency_dimensions :: "string list" where
  "latency_dimensions =
     [''total_duration_ms'', ''queue_wait_ms'', ''backend_latency_ms'', ''ttft_ms'', ''stream_duration_ms'']"

definition latency_detail_json :: "(string \<times> latency_stats) list \<Rightarrow> exn + json" where
  "latency_detail_json stats =
     map_sum id JObj (map_res (\<lambda>n.
       (case map_of stats n of
          None \<Rightarrow> Inl (PyError ''KeyError'')
        | Some l \<Rightarrow> Inr (n, latency_json l))) latency_dimensions)"

definition recent_json :: "(datetime \<Rightarrow> string) \<Rightarrow> recent_request \<Rightarrow> json" where
  "recent_json fmt r =
     JObj [(''request_id'', JStr (Observability.rr_request_id r)), (''client_id'', opt_json JStr (rr_client_id r)),
           (''model'', JStr (rr_model r)), (''streaming'', JBool (rr_streaming r)),
           (''status'', JStr (Observability.rr_status r)), (''error_code'', opt_json JStr (rr_error_code r)),
           (''started_at'', time_json fmt (rr_started_at r)),
           (''completed_at'', opt_json (time_json fmt) (rr_completed_at r)),
           (''total_duration_ms'', opt_json JInt (rr_total_duration_ms r)),
           (''ttft_ms'', opt_json JInt (rr_ttft_ms r)), (''total_tokens'', opt_json JInt (rr_total_tokens r)),
           (''queue_wait_ms'', opt_json JInt (rr_queue_wait_ms r))]"

definition breakdown_json :: "string \<Rightarrow> ('k \<Rightarrow> json) \<Rightarrow> 'k breakdown_row \<Rightarrow> json" where
  \<comment> \<open>the three breakdowns differ in the name and the type of their key\<close>
  "breakdown_json label key b =
     JObj [(label, key (br_key b)), (''requests'', JInt (br_requests b)), (''completed'', JInt (br_completed b)),
           (''failed'', JInt (br_failed b)), (''cancelled'', JInt (br_cancelled b)),
           (''total_tokens'', JInt (br_total_tokens b))]"

definition client_breakdown_json :: "string option breakdown_row \<Rightarrow> json" where
  "client_breakdown_json = breakdown_json ''client_id'' (opt_json JStr)"

definition model_breakdown_json :: "string breakdown_row \<Rightarrow> json" where
  "model_breakdown_json = breakdown_json ''model'' JStr"

definition backend_breakdown_json :: "string option breakdown_row \<Rightarrow> json" where
  "backend_breakdown_json = breakdown_json ''backend_id'' (opt_json JStr)"

section \<open>Routing, backends and settings\<close>

definition preview_json :: "routing_preview_response \<Rightarrow> json" where
  "preview_json p =
     JObj [(''requested_model'', JStr (rp_requested_model p)), (''canonical_model'', JStr (rp_canonical_model p)),
           (''backend_id'', JStr (rp_backend_id p)), (''reason'', JStr (rp_reason p)),
           (''backend_reachable'', JBool (rp_backend_reachable p))]"

definition model_list_json :: "model_list_out \<Rightarrow> json" where
  "model_list_json m =
     JObj [(''id'', JStr (ml_id m)), (''backend_id'', JStr (ml_backend_id m)), (''enabled'', JBool (ml_enabled m)),
           (''aliases'', JList (map JStr (ml_aliases m))), (''backend_reachable'', JBool (ml_backend_reachable m)),
           (''runtime_loaded'', JBool (ml_runtime_loaded m)),
           (''runtime_model'', opt_json JStr (ml_runtime_model m)),
           (''runtime_status'', JStr (ml_runtime_status m))]"

definition models_json :: "bool \<times> model_list_out list \<Rightarrow> json" where
  "models_json = (\<lambda>(c, ms). JObj [(''configured'', JBool c), (''models'', JList (map model_list_json ms))])"

definition backend_item_json :: "backend_list_item \<Rightarrow> json" where
  "backend_item_json b =
     JObj [(''id'', JStr (bl_id b)), (''type'', JStr (bl_type b)), (''reachable'', JBool (bl_reachable b)),
           (''state'', JStr (bl_state b)), (''reason'', JStr (bl_reason b)),
           (''runtime_model'', opt_json JStr (bl_runtime_model b)),
           (''runtime_models'', JList (map JStr (bl_runtime_models b))),
           (''server_version'', opt_json JStr (bl_server_version b)),
           (''last_checked'', opt_json JStr (bl_last_checked b)), (''endpoint'', opt_json JStr (bl_endpoint b))]"

definition backends_json :: "bool \<times> backend_list_item list \<Rightarrow> json" where
  "backends_json = (\<lambda>(c, bs). JObj [(''configured'', JBool c), (''backends'', JList (map backend_item_json bs))])"

definition float_json :: "int option \<Rightarrow> json" where
  \<comment> \<open>a field that is a float, given an integer\<close>
  "float_json v = opt_json (\<lambda>n. JFloat (of_int n)) v"

definition latency_floats_json :: "latency_stats option \<Rightarrow> json" where
  "latency_floats_json l =
     (let f = (\<lambda>g. float_json (Option.bind l g))
      in JObj [(''avg_ms'', f ls_avg_ms), (''p50_ms'', f ls_p50_ms), (''p95_ms'', f ls_p95_ms)])"

definition overview_json :: "overview_out \<Rightarrow> json" where
  "overview_json v =
     JObj [(''syn_healthy'', JBool (ov_syn_healthy v)),
           (''routing_configured'', JBool (ov_routing_configured v)), (''routing_mode'', JStr (ov_routing_mode v)),
           (''admission'', ov_admission v), (''backends'', JList (map backend_item_json (ov_backends v))),
           (''requests'', outcomes_json (ov_requests v)),
           (''tokens'', JObj [(''prompt'', JInt (ts_prompt (ov_tokens v))),
                              (''completion'', JInt (ts_completion (ov_tokens v))),
                              (''total'', JInt (ts_total (ov_tokens v)))]),
           (''latency_ms'', latency_floats_json (ov_latency v)), (''ttft_ms'', latency_floats_json (ov_ttft v)),
           (''local_inference'', JObj (ov_local_inference v))]"

definition settings_note :: string where
  "settings_note = ''These values are derived from runtime configuration and '' @
     ''environment. They are read-only from the admin UI.''"

definition settings_json :: "settings_out \<Rightarrow> json" where
  "settings_json s =
     JObj [(''request_size_limit_bytes'', opt_json JInt (so_request_size_limit_bytes s)),
           (''cors_allowed_origins'', JList (map JStr (so_cors_allowed_origins s))),
           (''queue_timeout_seconds'', opt_json JFloat (so_queue_timeout_seconds s)),
           (''max_active_requests'', opt_json JInt (so_max_active_requests s)),
           (''max_queued_requests'', opt_json JInt (so_max_queued_requests s)),
           (''admin_auth_configured'', JBool (so_admin_auth_configured s)),
           (''routing_file_path'', opt_json JStr (so_routing_file_path s)), (''note'', JStr settings_note)]"

section \<open>Health\<close>

definition backend_health_json :: "backend_health_body \<Rightarrow> json" where
  "backend_health_json b =
     JObj [(''configured'', JBool (bh_configured b)), (''reachable'', JBool (bh_reachable b)),
           (''state'', JStr (bh_state b)), (''reason'', JStr (bh_reason b)),
           (''server_version'', opt_json JStr (bh_server_version b)), (''model'', opt_json JStr (bh_model b))]"

definition health_json :: "health_response \<Rightarrow> json" where
  "health_json r =
     JObj [(''status'', JStr (hr_status r)), (''service'', JStr (hr_service r)), (''version'', JStr (hr_version r)),
           (''environment'', JStr (hr_environment r)), (''backend'', backend_health_json (hr_backend r)),
           (''request_id'', opt_json JStr (hr_request_id r))]"

definition readiness_json :: "readiness_response \<Rightarrow> json" where
  "readiness_json r =
     JObj [(''status'', JStr (Health.rr_status r)), (''database'', JStr (rr_database r)),
           (''backend'', backend_health_json (rr_backend r)),
           (''request_id'', opt_json JStr (Health.rr_request_id r))]"

section \<open>Reading an answer\<close>

definition field :: "string \<Rightarrow> json \<Rightarrow> json option" where
  "field name j = (case j of JObj d \<Rightarrow> map_of d name | _ \<Rightarrow> None)"

lemma created_key_field [simp]:
  "field ''key'' (key_created_json fmt k) = Some (JStr (kco_key k))"
  "field ''key'' (key_rotated_json fmt r) = Some (JStr (kco_key r))"
  "field ''key'' (key_json fmt o') = None"
  by (simp_all add: field_def key_created_json_def key_rotated_json_def key_json_def key_created_fields_def)

text \<open>The latency route answers in every case: the service measures all five dimensions.\<close>

lemma latency_detail_total:
  "\<exists>j. latency_detail_json (latency_map since until now s) = Inr j"
  by (simp add: latency_detail_json_def latency_dimensions_def latency_map_def Let_def split_beta)

end
