(* ===== verification/Management.thy ===== *)
theory Management
  imports Gateway AdminJson
begin

text \<open>
  The management plane over HTTP: the handlers of \<open>app/api/admin.py\<close> and \<open>app/api/health.py\<close> with the
  inputs FastAPI reads for them and the JSON they answer, as the argument that \<open>create_app\<close> of \<open>Gateway\<close>
  takes.  What pydantic makes of a body and of the query is the record \<open>schemas\<close>, and \<open>schemas_ok\<close> is what
  is used of it; what a request meets, random values, clocks and the probes of backends, is the record
  \<open>operations\<close>.
\<close>

section \<open>Inputs\<close>

record schemas =
  sc_user_create :: "json \<Rightarrow> validation_detail list + string"
  sc_client_create :: "json \<Rightarrow> validation_detail list + client_create"
  sc_api_key_create :: "json \<Rightarrow> validation_detail list + api_key_create"
  sc_policy_update :: "json \<Rightarrow> validation_detail list + client_policy_update"
  sc_routing_preview :: "json \<Rightarrow> validation_detail list + string"
  sc_text :: "string \<Rightarrow> http_request \<Rightarrow> string option" \<comment> \<open>an optional parameter of the query\<close>
  sc_flag :: "string \<Rightarrow> bool \<Rightarrow> http_request \<Rightarrow> validation_detail list + bool" \<comment> \<open>with its default\<close>
  sc_number :: "string \<Rightarrow> int \<Rightarrow> http_request \<Rightarrow> validation_detail list + int"

definition schemas_ok :: "schemas \<Rightarrow> bool" where
  "schemas_ok sc \<longleftrightarrow>
     (\<forall>j n. sc_user_create sc j = Inr n \<longrightarrow> valid_name n) \<and>
     (\<forall>j b. sc_client_create sc j = Inr b \<longrightarrow> valid_client_create b) \<and>
     (\<forall>j b. sc_api_key_create sc j = Inr b \<longrightarrow> valid_api_key_create b) \<and>
     (\<forall>j b. sc_policy_update sc j = Inr b \<longrightarrow> valid_policy_update b) \<and>
     (\<forall>j n. sc_routing_preview sc j = Inr n \<longrightarrow> valid_name n)"

record 'b operations =
  op_rng :: rng
  op_row_id :: string
  op_stamp :: "datetime \<Rightarrow> datetime"
  op_iso :: "datetime \<Rightarrow> string"
  op_admission :: "admission option"
  op_observed :: bool \<comment> \<open>the observability service is wired\<close>
  op_name :: "'b \<Rightarrow> string"
  op_url :: "'b \<Rightarrow> string"
  op_text :: "exn \<Rightarrow> string"
  op_type_name :: "exn \<Rightarrow> string"
  op_checked_at :: string
  op_clock :: "nat \<Rightarrow> string \<Rightarrow> time"
  op_probe :: "nat \<Rightarrow> string \<Rightarrow> exn + health_result"
  op_default_probe :: "'b \<Rightarrow> exn + health_result"
  op_select :: "exn + unit" \<comment> \<open>the outcome of \<open>SELECT 1\<close>\<close>

definition path_param :: "string list \<Rightarrow> string" where
  "path_param ps = (case ps of [] \<Rightarrow> [] | i # _ \<Rightarrow> i)"

section \<open>Answers\<close>

type_synonym 'b handler = "'b http_state \<Rightarrow> endpoint_result \<times> 'b http_state"

definition with_input :: "validation_detail list + 'a \<Rightarrow> ('a \<Rightarrow> 'b handler) \<Rightarrow> 'b handler" where
  "with_input i h st = (case i of Inl errors \<Rightarrow> (Invalid errors, st) | Inr x \<Rightarrow> h x st)"

definition reading :: "('a \<Rightarrow> json) \<Rightarrow> (store option \<Rightarrow> exn + 'a) \<Rightarrow> 'b handler" where
  "reading render f st =
     (case f (db_of st) of
        Inl e \<Rightarrow> (Raise e, st)
      | Inr x \<Rightarrow> (Answer (json_response 200 (render x)), st))"

definition writing :: "int \<Rightarrow> ('a \<Rightarrow> json) \<Rightarrow> (store option \<Rightarrow> exn + 'a \<times> store) \<Rightarrow> 'b handler" where
  "writing code render f st =
     (case f (db_of st) of
        Inl e \<Rightarrow> (Raise e, st)
      | Inr (x, s) \<Rightarrow> (Answer (json_response code (render x)), put_db (Some s) st))"

definition put_router :: "'b routing_service option \<Rightarrow> 'b http_state \<Rightarrow> 'b http_state" where
  "put_router ro st = st\<lparr> hs_app := (hs_app st)\<lparr> app_router := ro \<rparr> \<rparr>"

definition router_of :: "'b http_state \<Rightarrow> 'b routing_service option" where
  "router_of st = app_router (hs_app st)"

definition probing :: "(exn + json) \<Rightarrow> 'b routing_service option \<Rightarrow> 'b handler" where
  \<comment> \<open>the answer, and the service with what the probes of this request left in its registry's cache\<close>
  "probing res ro st =
     (case res of
        Inl e \<Rightarrow> (Raise e, put_router ro st)
      | Inr j \<Rightarrow> (Answer (json_response 200 j), put_router ro st))"

section \<open>What probes leave in the cache\<close>

definition caching ::
  "('b backend_registry \<Rightarrow> exn + 'a \<times> 'b backend_registry) \<Rightarrow> 'b routing_service option
     \<Rightarrow> 'b routing_service option" where
  \<comment> \<open>what is left of a loop that a cancelled probe breaks is not followed\<close>
  "caching probes router =
     (case router of
        None \<Rightarrow> None
      | Some rs \<Rightarrow>
          (case rs_backends rs of
             None \<Rightarrow> router
           | Some r \<Rightarrow>
               (case probes r of
                  Inl e \<Rightarrow> router
                | Inr (x, r') \<Rightarrow> Some (rs\<lparr> rs_backends := Some r' \<rparr>))))"

definition when_configured ::
  "('b routing_service option \<Rightarrow> 'b routing_service option) \<Rightarrow> 'b routing_service option
     \<Rightarrow> 'b routing_service option" where
  "when_configured f router =
     (case router of None \<Rightarrow> None | Some rs \<Rightarrow> if configured rs then f router else router)"

definition status_cache :: "'b operations \<Rightarrow> 'b routing_service option \<Rightarrow> 'b routing_service option" where
  "status_cache op = when_configured (caching (\<lambda>r.
     fold_res (status_backend (op_name op) (op_clock op 0) (op_probe op 0)) (backend_ids r) ([], r)))"

definition models_cache ::
  "('b \<Rightarrow> exn + model_info list) \<Rightarrow> 'b operations \<Rightarrow> 'b routing_service option \<Rightarrow> 'b routing_service option" where
  "models_cache discovered op = when_configured (\<lambda>router.
     if Option.bind router rs_models = None then router
     else caching (discover_all (op_text op) discovered (op_checked_at op) (op_clock op 0) (op_probe op 0)) router)"

definition backends_cache ::
  "('b \<Rightarrow> exn + model_info list) \<Rightarrow> 'b operations \<Rightarrow> 'b routing_service option \<Rightarrow> 'b routing_service option" where
  "backends_cache discovered op = when_configured (caching (\<lambda>r.
     fold_res (backend_item (op_name op) (op_url op) (op_text op) discovered (op_checked_at op) (op_clock op)
       (op_probe op)) (backend_ids r) ([], r)))"

definition overview_cache :: "'b operations \<Rightarrow> 'b routing_service option \<Rightarrow> 'b routing_service option" where
  "overview_cache op router =
     (if op_observed op
      then caching (\<lambda>r. fold_res (overview_item (op_name op) (op_url op) (op_clock op 0) (op_probe op 0))
        (backend_ids r) ([], r)) router
      else router)"

definition preview_cache ::
  "('b \<Rightarrow> exn + model_info list) \<Rightarrow> 'b operations \<Rightarrow> string \<Rightarrow> 'b routing_service option
     \<Rightarrow> 'b routing_service option" where
  "preview_cache discovered op model router =
     (case router of
        None \<Rightarrow> None
      | Some rs \<Rightarrow>
          (case Router.route discovered rs model preview_principal of
             Inl e \<Rightarrow> router
           | Inr d \<Rightarrow>
               let i = rd_backend_id d
               in caching (registry_health i False (op_clock op 0 i) (op_probe op 0 i)) router))"

section \<open>Handlers\<close>

definition account_handler :: "schemas \<Rightarrow> 'b world \<Rightarrow> 'b operations \<Rightarrow> endpoint \<Rightarrow> string list \<Rightarrow> json
     \<Rightarrow> http_request \<Rightarrow> 'b handler" where
  \<comment> \<open>users, clients, keys and limits\<close>
  "account_handler sc w op e ps body req =
     (case e of
        CreateUser \<Rightarrow> with_input (sc_user_create sc body) (\<lambda>n.
          writing 201 (user_json (op_iso op)) (create_user_route n (op_row_id op) (wo_now w)))
      | ListUsers \<Rightarrow> reading (\<lambda>us. JList (map (user_json (op_iso op)) us)) list_users_route
      | CreateClient \<Rightarrow> with_input (sc_client_create sc body) (\<lambda>b.
          writing 201 (client_json (op_iso op)) (create_client_route b (op_row_id op) (wo_now w)))
      | ListClients \<Rightarrow>
          reading (\<lambda>cs. JList (map (client_json (op_iso op)) cs)) (list_clients_route (sc_text sc ''user_id'' req))
      | CreateApiKey \<Rightarrow> with_input (sc_api_key_create sc body) (\<lambda>b.
          writing 201 (key_created_json (op_iso op))
            (create_api_key_route (wo_hash w) (op_rng op) b (op_row_id op) (wo_now w)))
      | ListApiKeys \<Rightarrow>
          reading (\<lambda>ks. JList (map (key_json (op_iso op)) ks)) (list_api_keys_route (sc_text sc ''client_id'' req))
      | RevokeApiKey \<Rightarrow> writing 200 (key_json (op_iso op)) (revoke_api_key_route (path_param ps) (wo_now w))
      | RotateApiKey \<Rightarrow> with_input (sc_flag sc ''revoke_old'' True req) (\<lambda>revoke_old.
          writing 200 (key_rotated_json (op_iso op))
            (rotate_api_key_route (wo_hash w) (op_rng op) (path_param ps) revoke_old (op_row_id op) (wo_now w)))
      | GetClientPolicy \<Rightarrow> reading policy_json (get_client_policy (path_param ps))
      | UpdateClientPolicy \<Rightarrow> with_input (sc_policy_update sc body) (\<lambda>b.
          writing 200 policy_json (update_client_policy (path_param ps) b (op_stamp op)))
      | _ \<Rightarrow> Pair (Raise GeneratorExit))"

definition usage_handler :: "schemas \<Rightarrow> 'b world \<Rightarrow> endpoint \<Rightarrow> string list \<Rightarrow> http_request \<Rightarrow> 'b handler" where
  "usage_handler sc w e ps req st =
     (let sv = app_usage (hs_app st)
      in case e of
           GetUsageSummary \<Rightarrow>
             reading usage_json
               (get_usage_summary sv (sc_text sc ''client_id'' req) (sc_text sc ''api_key_id'' req) (wo_now w)) st
         | GetClientUsage \<Rightarrow> reading usage_json (get_client_usage sv (path_param ps) (wo_now w)) st
         | GetApiKeyUsage \<Rightarrow> reading usage_json (get_api_key_usage sv (path_param ps) (wo_now w)) st
         | _ \<Rightarrow> (Raise GeneratorExit, st))"

definition observability_handler ::
  "schemas \<Rightarrow> 'b world \<Rightarrow> 'b operations \<Rightarrow> endpoint \<Rightarrow> http_request \<Rightarrow> 'b handler" where
  "observability_handler sc w op e req =
     (let wired = op_observed op; now = wo_now w; counts = admission_counts (op_admission op)
      in case e of
           ObservabilitySummary \<Rightarrow> reading obs_summary_json (observability_summary wired counts now)
         | ObservabilityLatency \<Rightarrow>
             reading id (\<lambda>db.
               case observability_latency wired now db of Inl x \<Rightarrow> Inl x | Inr m \<Rightarrow> latency_detail_json m)
         | ObservabilityRecent \<Rightarrow> with_input (sc_number sc ''limit'' 50 req) (\<lambda>n.
             reading (\<lambda>rs. JList (map (recent_json (op_iso op)) rs)) (observability_recent wired n now))
         | ObservabilityClients \<Rightarrow>
             reading (\<lambda>bs. JList (map client_breakdown_json bs)) (observability_clients wired now)
         | ObservabilityModels \<Rightarrow>
             reading (\<lambda>bs. JList (map model_breakdown_json bs)) (observability_models wired now)
         | ObservabilityBackends \<Rightarrow>
             reading (\<lambda>bs. JList (map backend_breakdown_json bs)) (observability_backends wired now)
         | PrometheusMetrics \<Rightarrow> reading JStr (prometheus_metrics wired (op_admission op) now)
         | _ \<Rightarrow> Pair (Raise GeneratorExit))"

definition default_probe :: "'b operations \<Rightarrow> 'b http_state \<Rightarrow> (exn + health_result) option" where
  "default_probe op st = map_option (op_default_probe op) (app_backend (hs_app st))"

definition runtime_handler ::
  "schemas \<Rightarrow> settings \<Rightarrow> 'b world \<Rightarrow> 'b operations \<Rightarrow> endpoint \<Rightarrow> json \<Rightarrow> 'b handler" where
  \<comment> \<open>what looks at the running gateway and its backends\<close>
  "runtime_handler sc se w op e body st =
     (let ro = router_of st; models = wo_discovered w; clock = op_clock op; probe = op_probe op
      in case e of
           GetStatus \<Rightarrow>
             probing (map_sum id fst (get_status (op_admission op) (op_name op) (clock 0) (probe 0) ro))
               (status_cache op ro) st
         | RoutingPreview \<Rightarrow> with_input (sc_routing_preview sc body) (\<lambda>model.
             probing (map_sum id preview_json
               (routing_preview models (op_text op) (clock 0) (probe 0) ro model))
               (preview_cache models op model ro)) st
         | GetModels \<Rightarrow>
             probing (map_sum id models_json
               (get_models (op_text op) models (op_checked_at op) (clock 0) (probe 0) ro))
               (models_cache models op ro) st
         | GetBackends \<Rightarrow>
             probing (map_sum id backends_json
               (get_backends (op_name op) (op_url op) (op_text op) models (op_checked_at op) clock probe ro))
               (backends_cache models op ro) st
         | GetOverview \<Rightarrow>
             probing (map_sum id overview_json
               (get_overview (op_observed op) (op_admission op) (op_name op) (op_url op) (clock 0) (probe 0) ro
                 (wo_now w) (db_of st)))
               (overview_cache op ro) st
         | GetSettings \<Rightarrow> (Answer (json_response 200 (settings_json (get_settings_route (Some se)))), st)
         | AdminDashboard \<Rightarrow>
             reading JStr (admin_dashboard (op_observed op) (op_admission op) (default_probe op st) (wo_now w)) st
         | _ \<Rightarrow> (Raise GeneratorExit, st))"

definition health_handler ::
  "settings \<Rightarrow> 'b operations \<Rightarrow> endpoint \<Rightarrow> string option \<Rightarrow> 'b handler" where
  "health_handler se op e rid st =
     (let bh = backend_health_of (op_type_name op) (op_clock op 0) (op_probe op 0) (default_probe op st) (router_of st)
      in case e of
           Liveness \<Rightarrow>
             (case liveness se rid bh of
                Inl x \<Rightarrow> (Raise x, st)
              | Inr (r, ro) \<Rightarrow> (Answer (json_response 200 (health_json r)), put_router ro st))
         | Readiness \<Rightarrow>
             (case readiness rid (map_option (\<lambda>_. op_select op) (db_of st)) bh of
                Inl x \<Rightarrow> (Raise x, st)
              | Inr ((code, r), ro) \<Rightarrow> (Answer (json_response code (readiness_json r)), put_router ro st))
         | _ \<Rightarrow> (Raise GeneratorExit, st))"

definition management_handler ::
  "schemas \<Rightarrow> settings \<Rightarrow> 'b world \<Rightarrow> 'b operations \<Rightarrow> 'b handlers" where
  \<comment> \<open>the endpoints of the data plane and the two pages have handlers of their own\<close>
  "management_handler sc se w op e ps body req rid =
     (if e \<in> {Liveness, Readiness} then health_handler se op e rid
      else if e \<in> {GetUsageSummary, GetClientUsage, GetApiKeyUsage} then usage_handler sc w e ps req
      else if e \<in> {ObservabilitySummary, ObservabilityLatency, ObservabilityRecent, ObservabilityClients,
                   ObservabilityModels, ObservabilityBackends, PrometheusMetrics}
      then observability_handler sc w op e req
      else if e \<in> {GetStatus, RoutingPreview, GetModels, GetBackends, GetOverview, GetSettings, AdminDashboard}
      then runtime_handler sc se w op e body
      else account_handler sc w op e ps body req)"

definition application ::
  "'b http_state framework \<Rightarrow> schemas \<Rightarrow> settings \<Rightarrow> 'b world \<Rightarrow> 'b operations \<Rightarrow> 'b http_state application" where
  "application fw sc se w op = create_app fw se w (management_handler sc se w op)"

section \<open>What a handler does to the state\<close>

lemma caching_recached:
  assumes "\<And>r x r'. probes r = Inr (x, r') \<Longrightarrow> uncached r' = uncached r"
  shows "recached router (caching probes router)"
  using assms
  by (auto simp: caching_def recached_def Let_def split: option.split sum.split)

lemma when_configured_recached: "(\<And>ro. recached ro (f ro)) \<Longrightarrow> recached router (when_configured f router)"
  by (simp add: when_configured_def split: option.split)

lemma caught_Inr: "caught v (Inl e) = Inr x \<Longrightarrow> x = v"
  by (simp add: caught_def split: if_splits)

lemma status_backend_uncached:
  "status_backend name clock probe i (out, r) = Inr (out', r') \<Longrightarrow> uncached r' = uncached r"
  by (auto simp: status_backend_def Let_def dest: registry_health_uncached split: sum.splits if_splits)

lemma discover_backend_runtime_uncached:
  "discover_backend_runtime describe models stamp now probe i r = Inr (rt, r') \<Longrightarrow> uncached r' = uncached r"
  by (auto simp: discover_backend_runtime_def Let_def dest: registry_health_uncached split: sum.splits if_splits)

lemma overview_item_uncached:
  "overview_item name url clock probe i (out, r) = Inr (out', r') \<Longrightarrow> uncached r' = uncached r"
  by (auto simp: overview_item_def Let_def dest!: caught_Inr dest: registry_health_uncached split: sum.splits)

lemma backend_item_uncached:
  assumes "backend_item name url describe models stamp clock probe i (out, r) = Inr (out', r')"
  shows "uncached r' = uncached r"
proof (cases "registry_health i True (clock 0 i) (probe 0 i) r")
  case (Inl e)
  then show ?thesis using assms by (auto simp: backend_item_def Let_def dest!: caught_Inr)
next
  case (Inr x)
  obtain h r1 where x: "x = (h, r1)" by (cases x)
  have r1: "uncached r1 = uncached r" using registry_health_uncached Inr x by blast
  show ?thesis
  proof (cases "discover_backend_runtime describe models stamp (clock 1 i) (probe 1 i) i r1")
    case (Inl e)
    then show ?thesis using assms Inr x r1 by (auto simp: backend_item_def Let_def dest!: caught_Inr)
  next
    case rt: (Inr y)
    obtain rt r2 where y: "y = (rt, r2)" by (cases y)
    have "uncached r2 = uncached r1" using discover_backend_runtime_uncached rt y by blast
    then show ?thesis using assms Inr x rt y r1
      by (auto simp: backend_item_def Let_def dest!: caught_Inr split: sum.splits)
  qed
qed

lemma discover_all_uncached:
  assumes "discover_all describe models stamp clock probe r = Inr (out, r')"
  shows "uncached r' = uncached r"
  using assms [unfolded discover_all_def]
proof (rule fold_res_uncached)
  fix i out1 r1 out2 r2
  assume "(case (out1, r1) of (out, r) \<Rightarrow>
      case discover_backend_runtime describe models stamp (clock i) (probe i) i r of
        Inl e \<Rightarrow> Inl e
      | Inr (rt, r) \<Rightarrow> Inr (dict_set i rt out, r)) = Inr (out2, r2)"
  then show "uncached r2 = uncached r1"
    by (auto split: sum.splits dest: discover_backend_runtime_uncached)
qed

lemma caching_loop_recached:
  assumes "\<And>i out r out' r'. f i (out, r) = Inr (out', r') \<Longrightarrow> uncached r' = uncached r"
  shows "recached router (caching (\<lambda>r. fold_res f (backend_ids r) ([], r)) router)"
  by (rule caching_recached) (erule fold_res_uncached, erule assms)

lemma caches_recached:
  "recached router (status_cache op router)" "recached router (models_cache discovered op router)"
  "recached router (backends_cache discovered op router)" "recached router (overview_cache op router)"
  "recached router (preview_cache discovered op model router)"
proof -
  show "recached router (status_cache op router)"
    unfolding status_cache_def
    by (rule when_configured_recached) (rule caching_loop_recached, erule status_backend_uncached)
  have "recached ro (caching (discover_all (op_text op) discovered (op_checked_at op) (op_clock op 0) (op_probe op 0)) ro)" for ro
    by (rule caching_recached) (erule discover_all_uncached)
  then show "recached router (models_cache discovered op router)"
    unfolding models_cache_def by (intro when_configured_recached) simp
  show "recached router (backends_cache discovered op router)"
    unfolding backends_cache_def
    by (rule when_configured_recached) (rule caching_loop_recached, erule backend_item_uncached)
  have "recached router (caching (\<lambda>r. fold_res (overview_item (op_name op) (op_url op) (op_clock op 0) (op_probe op 0))
        (backend_ids r) ([], r)) router)"
    by (rule caching_loop_recached) (erule overview_item_uncached)
  then show "recached router (overview_cache op router)" by (simp add: overview_cache_def)
  show "recached router (preview_cache discovered op model router)"
    by (simp add: preview_cache_def Let_def caching_recached [OF registry_health_uncached] split: option.split sum.split)
qed

lemma backend_health_recached:
  assumes "backend_health_of tname clock probe dflt router = Inr (b, ro)"
  shows "recached router ro"
proof -
  have same: "map_sum id (\<lambda>h. (h, ro1)) x = Inr (b, ro) \<Longrightarrow> ro = ro1" for ro1 and x :: "exn + backend_health_body"
    by (cases x) simp_all
  show ?thesis
  proof (cases "\<exists>rs r. router = Some rs \<and> configured rs \<and> rs_backends rs = Some r")
    case True
    then obtain rs r where rs: "router = Some rs" "configured rs" "rs_backends rs = Some r" by blast
    then obtain hm r' where hm: "health_map False clock probe r = Inr (hm, r')"
      using assms by (cases "health_map False clock probe r") (auto simp: backend_health_of_def Let_def)
    then have "ro = Some (rs\<lparr> rs_backends := Some r' \<rparr>)"
      using assms rs by (cases "aggregate_health hm") (auto simp: backend_health_of_def Let_def)
    then show ?thesis using health_map_uncached [OF hm] rs by (simp add: recached_def Let_def)
  next
    case False
    then have "ro = router"
      using assms same unfolding backend_health_of_def Let_def
      by (cases router) (auto split: if_splits option.splits)
    then show ?thesis by simp
  qed
qed

lemma admin_routes_step:
  assumes "require_admin expected x auth = Inr ()"
  shows "create_user_route n i now db = Inr (uo, s') \<Longrightarrow> \<exists>s. db = Some s \<and> admin_step h expected x auth s s'"
    "create_client_route b i now db = Inr (co, s') \<Longrightarrow> \<exists>s. db = Some s \<and> admin_step h expected x auth s s'"
    "create_api_key_route h r kb i now db = Inr (ko, s') \<Longrightarrow> \<exists>s. db = Some s \<and> admin_step h expected x auth s s'"
    "revoke_api_key_route i now db = Inr (ro, s') \<Longrightarrow> \<exists>s. db = Some s \<and> admin_step h expected x auth s s'"
    "rotate_api_key_route h r i rv kid now db = Inr (rot, s') \<Longrightarrow> \<exists>s. db = Some s \<and> admin_step h expected x auth s s'"
    "update_client_policy i pb stamp db = Inr (po, s') \<Longrightarrow> \<exists>s. db = Some s \<and> admin_step h expected x auth s s'"
proof -
  note none = create_user_route_def create_client_route_def create_api_key_route_def revoke_api_key_route_def
    rotate_api_key_route_def update_client_policy_def with_session_def get_db_session_def
  show "create_user_route n i now db = Inr (uo, s') \<Longrightarrow> \<exists>s. db = Some s \<and> admin_step h expected x auth s s'"
    using assms by (cases db) (simp add: none, simp, rule admin_create_user, simp add: guarded_Inr)
  show "create_client_route b i now db = Inr (co, s') \<Longrightarrow> \<exists>s. db = Some s \<and> admin_step h expected x auth s s'"
    using assms by (cases db) (simp add: none, simp, rule admin_create_client, simp add: guarded_Inr)
  show "create_api_key_route h r kb i now db = Inr (ko, s') \<Longrightarrow> \<exists>s. db = Some s \<and> admin_step h expected x auth s s'"
    using assms by (cases db) (simp add: none, simp, rule admin_create_key, simp add: guarded_Inr)
  show "revoke_api_key_route i now db = Inr (ro, s') \<Longrightarrow> \<exists>s. db = Some s \<and> admin_step h expected x auth s s'"
    using assms by (cases db) (simp add: none, simp, rule admin_revoke, simp add: guarded_Inr)
  show "rotate_api_key_route h r i rv kid now db = Inr (rot, s') \<Longrightarrow> \<exists>s. db = Some s \<and> admin_step h expected x auth s s'"
    using assms by (cases db) (simp add: none, simp, rule admin_rotate, simp add: guarded_Inr)
  show "update_client_policy i pb stamp db = Inr (po, s') \<Longrightarrow> \<exists>s. db = Some s \<and> admin_step h expected x auth s s'"
    using assms by (cases db) (simp add: none, simp, rule admin_policy, simp add: guarded_Inr)
qed

definition touched_by :: "(store \<Rightarrow> store \<Rightarrow> bool) \<Rightarrow> 'b http_state \<Rightarrow> 'b http_state \<Rightarrow> bool" where
  \<comment> \<open>what a handler of the management plane may do to the state\<close>
  "touched_by step st st' \<longleftrightarrow>
     (\<exists>ro. recached (router_of st) ro \<and> st' = put_router ro st) \<or>
     (\<exists>s s'. db_of st = Some s \<and> step s s' \<and> st' = put_db (Some s') st)"

lemma put_same [simp]: "put_router (router_of st) st = st"
  by (simp add: put_router_def router_of_def)

lemma touched_by_same [simp]: "touched_by step st st"
  unfolding touched_by_def by (metis put_same recached_refl)

lemma touched_by_router: "recached (router_of st) ro \<Longrightarrow> touched_by step st (put_router ro st)"
  by (auto simp: touched_by_def)

lemma touched_by_store: "db_of st = Some s \<Longrightarrow> step s s' \<Longrightarrow> touched_by step st (put_db (Some s') st)"
  by (auto simp: touched_by_def)

lemma touched_by_reading: "touched_by step st (snd (reading render f st))"
  by (simp add: reading_def split: sum.split)

lemma touched_by_probing: "recached (router_of st) ro \<Longrightarrow> touched_by step st (snd (probing res ro st))"
  by (auto simp: probing_def intro: touched_by_router split: sum.split)

lemma touched_by_input: "(\<And>x. i = Inr x \<Longrightarrow> touched_by step st (snd (h x st))) \<Longrightarrow> touched_by step st (snd (with_input i h st))"
  by (simp add: with_input_def split: sum.split)

lemma touched_by_writing:
  assumes "\<And>x s'. f (db_of st) = Inr (x, s') \<Longrightarrow> \<exists>s. db_of st = Some s \<and> step s s'"
  shows "touched_by step st (snd (writing code render f st))"
  using assms by (auto simp: writing_def intro: touched_by_store split: sum.split)

lemmas touched_by_intros =
  touched_by_input touched_by_reading touched_by_probing touched_by_writing caches_recached

lemma account_touches:
  assumes "require_admin expected x auth = Inr ()"
  shows "touched_by (admin_step (wo_hash w) expected x auth) st (snd (account_handler sc w op e ps body req st))"
  unfolding account_handler_def
  by (cases e; simp; intro touched_by_intros; erule admin_routes_step [OF assms])

lemma usage_touches: "touched_by step st (snd (usage_handler sc w e ps req st))"
  unfolding usage_handler_def Let_def by (cases e) (simp_all add: touched_by_reading)

lemma observability_touches: "touched_by step st (snd (observability_handler sc w op e req st))"
  unfolding observability_handler_def Let_def
  by (cases e) (simp_all add: touched_by_reading touched_by_input)

lemma runtime_touches: "touched_by step st (snd (runtime_handler sc se w op e body st))"
  unfolding runtime_handler_def Let_def
  by (cases e) (simp_all add: touched_by_intros)

lemma health_touches: "touched_by step st (snd (health_handler se op e rid st))"
proof -
  let ?bh = "backend_health_of (op_type_name op) (op_clock op 0) (op_probe op 0) (default_probe op st) (router_of st)"
  have l: "recached (router_of st) ro" if "liveness se rid ?bh = Inr (r, ro)" for r ro
    using that backend_health_recached by (cases ?bh) (auto simp: liveness_def)
  have r: "recached (router_of st) ro" if "readiness rid db ?bh = Inr (r, ro)" for db r ro
    using that backend_health_recached by (cases ?bh) (auto simp: readiness_def split: sum.splits)
  show ?thesis
    unfolding health_handler_def Let_def
    by (cases e) (auto intro: touched_by_router dest!: l r split: sum.split)
qed

lemma management_touches:
  assumes "e \<notin> {Liveness, Readiness} \<Longrightarrow> require_admin expected x auth = Inr ()"
  shows "touched_by (admin_step (wo_hash w) expected x auth) st
    (snd (management_handler sc se w op e ps body req rid st))"
  using assms account_touches [of expected x auth]
  by (auto simp: management_handler_def health_touches usage_touches observability_touches runtime_touches)

section \<open>A request to the application\<close>

abbreviation admin_step_of :: "settings \<Rightarrow> 'b world \<Rightarrow> http_request \<Rightarrow> store \<Rightarrow> store \<Rightarrow> bool" where
  "admin_step_of se w req \<equiv> admin_step (wo_hash w) (se_admin_secret se) (header ''x-admin-secret'' req)
     (header ''authorization'' req)"

lemma open_routes:
  assumes "r \<in> set app_routes" "rt_guard r = NoGuard"
  shows "rt_endpoint r \<in> {Root, AdminUi, Liveness, Readiness}"
proof -
  have "list_all (\<lambda>r. rt_guard r = NoGuard \<longrightarrow> rt_endpoint r \<in> {Root, AdminUi, Liveness, Readiness}) app_routes"
    by (simp add: route_defs)
  then show ?thesis using assms by (simp add: list_all_iff)
qed

lemma chat_guard: "r \<in> set app_routes \<Longrightarrow> rt_guard r = AuthenticateWithOrm \<Longrightarrow> rt_endpoint r = CreateChatCompletion"
  using route_guard [of r] by (simp split: if_splits)

lemma list_models_endpoint_state:
  assumes "list_models_endpoint fw w req st = (res, st')"
  shows "\<exists>o' db. authenticate_request (wo_hash w) (wo_commit_ok w) (wo_now w) (header ''authorization'' req) (db_of st) = (o', db) \<and>
    st' = put_db db st"
  using assms by (auto simp: list_models_endpoint_def split: prod.splits sum.splits)

text \<open>A request of the management plane does what its handler does, or nothing.\<close>

definition managed ::
  "schemas \<Rightarrow> settings \<Rightarrow> 'b world \<Rightarrow> 'b operations \<Rightarrow> http_request \<Rightarrow> 'b http_state \<Rightarrow> 'b http_state \<Rightarrow> bool" where
  "managed sc se w op req st st' \<longleftrightarrow>
     st' = st \<or>
     (\<exists>e ps body rid. st' = snd (management_handler sc se w op e ps body req rid st) \<and>
        (e \<notin> {Liveness, Readiness} \<longrightarrow>
         require_admin (se_admin_secret se) (header ''x-admin-secret'' req) (header ''authorization'' req) = Inr ()))"

lemma managed_same [simp]: "managed sc se w op req st st"
  by (simp add: managed_def)

lemma managed_handler:
  assumes "management_handler sc se w op e ps body req rid st = (res, st')"
    "e \<notin> {Liveness, Readiness} \<Longrightarrow>
     require_admin (se_admin_secret se) (header ''x-admin-secret'' req) (header ''authorization'' req) = Inr ()"
  shows "managed sc se w op req st st'"
  unfolding managed_def using assms by (metis snd_conv)

lemma managed_touches:
  assumes "managed sc se w op req st st'"
  shows "touched_by (admin_step_of se w req) st st'"
  using assms unfolding managed_def by (auto intro: management_touches)

lemma run_route_cases:
  assumes "run_route fw se w (management_handler sc se w op) r ps body req rid st = (res, st')" "r \<in> set app_routes"
  obtains (managed) "managed sc se w op req st st'"
  | (models) o' db where "authenticate_request (wo_hash w) (wo_commit_ok w) (wo_now w) (header ''authorization'' req) (db_of st) = (o', db)"
      "st' = put_db db st"
  | (chat) "rt_endpoint r = CreateChatCompletion" "chat_endpoint fw w body req rid st = (res, st')"
proof (cases "rt_guard r")
  case NoGuard
  have "managed sc se w op req st st'"
    using assms(1) NoGuard open_routes [OF assms(2) NoGuard]
    by (auto simp: run_route_def intro: managed_handler)
  then show thesis by (rule managed)
next
  case RequireAdmin
  have "managed sc se w op req st st'"
    using assms(1) RequireAdmin
    by (auto simp: run_route_def intro: managed_handler split: sum.splits)
  then show thesis by (rule managed)
next
  case AuthenticateRequest
  then have "list_models_endpoint fw w req st = (res, st')" using assms(1) by (simp add: run_route_def)
  from list_models_endpoint_state [OF this] show thesis by (elim exE conjE) (rule models)
next
  case AuthenticateWithOrm
  then show thesis
    using assms(1) by (intro chat chat_guard [OF assms(2)]) (simp_all add: run_route_def)
qed

lemma application_cases:
  assumes "framework_ok fw" "application fw sc se w op req bound st = (res, st')"
  obtains (managed) "managed sc se w op req st st'"
  | (models) o' db where "authenticate_request (wo_hash w) (wo_commit_ok w) (wo_now w) (header ''authorization'' req) (db_of st) = (o', db)"
      "st' = put_db db st"
  | (chat) rid body o' where "chat_request_of fw req" "chat_endpoint fw w body req (Some rid) st = (o', st')"
proof (cases rule: create_app_cases [OF assms(1) assms(2) [unfolded application_def]])
  case (3 rid x)
  show thesis
  proof (cases "fw_resolve fw app_routes req")
    case None
    then show thesis using 3(2) managed by (simp add: route_request_def)
  next
    case (Some rps)
    obtain r ps where r: "fw_resolve fw app_routes req = Some (r, ps)" using Some by (cases rps) simp
    then have routes: "r \<in> set app_routes" using assms(1) by (auto simp: framework_ok_def)
    show thesis
    proof (cases "fw_read_body fw r req")
      case (Inl errors)
      then show thesis using 3(2) r managed by (simp add: route_request_def)
    next
      case (Inr body)
      obtain o' where run: "run_route fw se w (management_handler sc se w op) r ps body req (Some rid) st = (o', st')"
        using 3(2) r Inr by (cases "run_route fw se w (management_handler sc se w op) r ps body req (Some rid) st")
          (simp add: route_request_def)
      show thesis
        by (cases rule: run_route_cases [OF run routes])
          (use managed models chat [of body rid] r in \<open>auto simp: chat_request_of_def\<close>)
    qed
  qed
qed (use managed in simp_all)

lemma put_router_gateway:
  assumes "gw_app g = hs_app st" "gw_limiter g = hs_limiter st"
  shows "with_router ro g = g\<lparr> gw_app := hs_app (put_router ro st), gw_limiter := hs_limiter (put_router ro st) \<rparr>"
  using assms by (simp add: with_router_def put_router_def)

lemma touched_is_step:
  assumes "touched_by (admin_step h secret x auth) st st'" "gw_app g = hs_app st" "gw_limiter g = hs_limiter st"
  shows "sys_step h secret caps g (g\<lparr> gw_app := hs_app st', gw_limiter := hs_limiter st' \<rparr>)"
  using assms(1) unfolding touched_by_def
proof (elim disjE exE conjE)
  fix ro
  assume "recached (router_of st) ro" "st' = put_router ro st"
  then show ?thesis
    using probe [of g ro h secret caps] assms(2) by (simp add: put_router_gateway [OF assms(2,3)] router_of_def)
next
  fix s s'
  assume "db_of st = Some s" "admin_step h secret x auth s s'" "st' = put_db (Some s') st"
  then show ?thesis
    using manage [of g s h secret x auth s' caps] assms(2) by (simp add: put_db_gateway [OF assms(2,3)] db_of_def)
qed

text \<open>C3: The application runs on the system: whatever the request, what it does through all layers of the
  application to the database, to the rate limiter and to what is cached of the backends is a run of
  the gateway's steps, one step of the management plane or of a listing, or those of a completion,
  whose slot is taken and given back or refused on the way; so all that holds for every run holds for
  the application.\<close>

theorem application_is_run:
  assumes "framework_ok fw" "application fw sc se w op req bound st = (res, st')"
    "gw_app g = hs_app st" "gw_limiter g = hs_limiter st"
    "chat_request_of fw req \<longrightarrow> app_has_admission (hs_app st) \<and> gw_flights g c = None \<and> \<not> known c (gw_admission g) \<and>
       slot_used c (en_slot (wo_env w)) (gw_admission g) adm"
  shows "\<exists>adm'\<in>{gw_admission g, adm}. sys_reach (wo_hash w) (se_admin_secret se) (wo_caps w) g
    (g\<lparr> gw_app := hs_app st', gw_limiter := hs_limiter st', gw_admission := adm' \<rparr>)"
proof -
  have one: ?thesis
    if "sys_step (wo_hash w) (se_admin_secret se) (wo_caps w) g (g\<lparr> gw_app := hs_app st', gw_limiter := hs_limiter st' \<rparr>)"
    using sys_reach_step [OF that] by (intro bexI [of _ "gw_admission g"]) simp_all
  show ?thesis
  proof (cases rule: application_cases [OF assms(1,2)])
    case 1
    then show ?thesis by (intro one) (rule touched_is_step [OF managed_touches assms(3,4)])
  next
    case (2 o' db)
    then have "sys_step (wo_hash w) (se_admin_secret se) (wo_caps w) g (with_db db g)"
      by (intro sys_step.list_models) (use 2(1) in \<open>simp add: assms(3) db_of_def\<close>)
    then show ?thesis using 2(2) by (intro one) (simp add: put_db_gateway [OF assms(3,4)])
  next
    case (3 rid body o')
    from chat_endpoint_is_run [OF assms(1) 3(2) assms(3,4)] 3(1) assms(5) show ?thesis by blast
  qed
qed

section \<open>Requests over time\<close>

text \<open>A completion leaves the database as it was, or with the record of its accounting.\<close>

lemma result_store:
  assumes "create_chat_completion caps discovered a r auth tick now1 now2 en mk answers streams interrupt rl = (res, rl')"
  shows "result_db (app_db a) res = app_db a \<or> (\<exists>rid k cl args. result_db (app_db a) res = snd (finish_usage a rid k cl args))"
proof -
  obtain p k cl where auth: "auth = (p, k, cl)" by (cases auth)
  show ?thesis
  proof (cases "app_has_admission a")
    case True
    then show ?thesis using handler_result [OF assms [unfolded auth] True] by auto
  next
    case False
    then show ?thesis
      using assms by (auto simp: create_chat_completion_def get_admission_def non_streaming_completion_def
          split: prod.splits sum.splits if_splits)
  qed
qed

lemma chat_endpoint_store:
  assumes "chat_endpoint fw w body req rid st = (res, st')"
  obtains x db where
    "authenticate_with_orm (wo_hash w) (wo_commit_ok w) (wo_now w) (header ''authorization'' req) (db_of st) = (x, db)"
    "db_of st' = db \<or> (\<exists>i k cl args. db_of st' = snd (finish_usage (hs_app (put_db db st)) i k cl args))"
  using assms
proof (cases rule: chat_endpoint_cases)
  case (stopped o' db)
  then show thesis by (intro that [of o' db]) (auto simp: db_of_def put_db_def)
next
  case (run auth db q out rl)
  have "db_of st' = result_db db out" by (simp add: run(4) db_of_def put_db_def)
  with result_store [OF run(3)] show thesis
    by (intro that [OF run(1)]) (simp add: put_db_def)
qed

lemma chat_endpoint_evolves:
  assumes "chat_endpoint fw w body req rid st = (res, st')"
  shows "evolves (db_of st) (db_of st')"
proof -
  obtain x db where auth: "evolves (db_of st) db"
    and st': "db_of st' = db \<or> (\<exists>i k cl args. db_of st' = snd (finish_usage (hs_app (put_db db st)) i k cl args))"
    using chat_endpoint_store [OF assms] evolves_orm by metis
  have "evolves db (snd (finish_usage (hs_app (put_db db st)) i k cl args))" for i k cl args
    using evolves_usage [OF prod.collapse [symmetric], of "hs_app (put_db db st)"] by (simp add: put_db_def)
  then show ?thesis using auth st' by (auto intro: evolves_trans)
qed

lemma touched_by_evolves: "touched_by (admin_step h secret x auth) st st' \<Longrightarrow> evolves (db_of st) (db_of st')"
  by (auto simp: touched_by_def put_router_def put_db_def db_of_def intro: evolves_admin)

lemma application_evolves:
  assumes "framework_ok fw" "application fw sc se w op req bound st = (res, st')"
  shows "evolves (db_of st) (db_of st')"
proof (cases rule: application_cases [OF assms])
  case 1
  then show ?thesis by (rule touched_by_evolves [OF managed_touches])
next
  case (2 o' db)
  then show ?thesis using evolves_request by (simp add: db_of_def put_db_def)
next
  case (3 rid body o')
  then show ?thesis using chat_endpoint_evolves by blast
qed

inductive app_run ::
  "'b http_state framework \<Rightarrow> schemas \<Rightarrow> settings \<Rightarrow> (string \<Rightarrow> string) \<Rightarrow> 'b http_state \<Rightarrow> 'b http_state \<Rightarrow> bool"
  for fw sc se h where
  \<comment> \<open>requests one after the other, whatever each of them meets\<close>
  run_none: "app_run fw sc se h st st"
| run_more: "app_run fw sc se h st st' \<Longrightarrow> wo_hash w = h \<Longrightarrow>
    application fw sc se w op req bound st' = (res, st'') \<Longrightarrow> app_run fw sc se h st st''"

lemma app_run_evolves: "app_run fw sc se h st st' \<Longrightarrow> framework_ok fw \<Longrightarrow> evolves (db_of st) (db_of st')"
  by (induction rule: app_run.induct) (auto intro: evolves_trans application_evolves)

section \<open>Revocation over HTTP\<close>

lemma revoked_row_refused:
  assumes "k \<in> set (api_keys s)" "k_revoked_at k \<noteq> None" "k_hash k = h t" "extract_bearer_token hdr = Inr t"
  shows "\<exists>e. authenticate_with_orm h ok now hdr (Some s) = (Inl e, Some s) \<and>
    (e = revoked_key_error \<or> e = PyError ''MultipleResultsFound'')"
proof -
  have "k \<in> set (keys_with_hash (h t) s)" using assms(1,3) by (simp add: keys_with_hash_def)
  then have "one_or_none (keys_with_hash (h t) s) = Inr (Some k) \<or>
      one_or_none (keys_with_hash (h t) s) = Inl (PyError ''MultipleResultsFound'')"
    by (cases "keys_with_hash (h t) s" rule: one_or_none.cases) auto
  then show ?thesis
    using assms(2-4)
    by (auto simp: authenticate_with_orm_def get_db_session_def hash_api_key_def verify_api_key_def)
qed

lemma validation_status [simp]: "rsp_status (validation_error_handler path rid errors) = 422"
  by (simp add: validation_error_handler_def json_response_def Let_def)

lemma chat_refused:
  assumes "framework_ok fw" "chat_request_of fw req" "application fw sc se w op req bound st = (res, st')"
    "authenticate_with_orm (wo_hash w) (wo_commit_ok w) (wo_now w) (header ''authorization'' req) (db_of st) = (Inl e, db_of st)"
    "\<And>y. e = Syn y \<Longrightarrow> e_class y = RevokedApiKeyErrorC \<and> e_status y = 401"
  shows "st' = st \<and> (\<forall>rsp. res = Inr rsp \<longrightarrow> rsp_status rsp \<in> {401, 413, 422})"
proof -
  have same: "put_db (db_of st) st = st" by (simp add: put_db_def db_of_def)
  have post: "hq_method req \<noteq> ''OPTIONS''" by (rule chat_request_route [OF assms(1,2)]) simp
  show ?thesis
  proof (cases rule: create_app_cases [OF assms(1) assms(3) [unfolded application_def]])
    case (3 rid x)
    show ?thesis
    proof (cases rule: chat_routed [OF assms(1,2) 3(2)])
      case (1 errors)
      then show ?thesis using 3(3) by auto
    next
      case (2 body o')
      have o': "o' = Raise e" "st' = st" using 2(1) assms(4) same by (auto simp: chat_endpoint_def)
      have "x = Inl e \<or> (\<exists>r. x = Inr r \<and> rsp_status r = 401)"
      proof (cases e)
        case (Syn y)
        with assms(5) show ?thesis
          by (auto simp: 2(2) o'(1) exception_handlers_def handler_of is_instance_leaf syn_error_handler_def
              json_response_def Let_def)
      qed (simp_all add: 2(2) o'(1) exception_handlers_def)
      then show ?thesis using 3(3) o'(2) by auto
    qed
  qed (use post in simp_all)
qed

lemma error_status:
  "400 \<le> e_status e \<Longrightarrow> 400 \<le> rsp_status (handle_error path rid e)"
  by (simp add: handler_of syn_error_handler_def not_found_handler_def json_response_def Let_def)

lemma raised_status:
  assumes "exception_handlers path rid (Raise e) = Inr r" "\<And>y. e = Syn y \<Longrightarrow> 400 \<le> e_status y"
  shows "400 \<le> rsp_status r"
proof (cases e)
  case (Syn y)
  then have "r = handle_error path rid y" using assms(1) by (simp add: exception_handlers_def)
  then show ?thesis using error_status assms(2) [OF Syn] by simp
qed (use assms(1) in \<open>simp_all add: exception_handlers_def\<close>)

lemma revoke_error_status:
  assumes "revoke_api_key_route i now db = Inl (Syn e)"
  shows "400 \<le> e_status e"
proof -
  have one: "one_or_none xs \<noteq> Inl (Syn e)" for xs :: "api_key list"
    by (cases xs rule: one_or_none.cases) simp_all
  show ?thesis
    using assms one
    by (auto simp: revoke_api_key_route_def with_session_def get_db_session_def revoke_api_key_def get_api_key_def
        new_error_def split: option.splits sum.splits if_splits)
qed

lemma admin_error_status: "require_admin expected x auth = Inl (Syn e) \<Longrightarrow> e_status e = 401"
  by (drule require_admin_refused) auto

text \<open>A management request that is answered with a success was let in and handled.\<close>

lemma admin_answered:
  assumes "framework_ok fw" "fw_resolve fw app_routes req = Some (r, ps)" "rt_guard r = RequireAdmin"
    "application fw sc se w op req bound st = (Inr rsp, st')" "rsp_status rsp < 400"
    "\<And>body rid e st1. management_handler sc se w op (rt_endpoint r) ps body req rid st = (Raise (Syn e), st1) \<Longrightarrow> 400 \<le> e_status e"
  obtains body rid r0 where "fw_read_body fw r req = Inr body"
    "management_handler sc se w op (rt_endpoint r) ps body req (Some rid) st = (Answer r0, st')"
    "rsp_status r0 = rsp_status rsp" "rsp_payload r0 = rsp_payload rsp"
proof -
  have routes: "r \<in> set app_routes" "rt_method r = hq_method req" using assms(1,2) by (auto simp: framework_ok_def)
  have "list_all (\<lambda>r. rt_method r \<noteq> ''OPTIONS'') app_routes" by (simp add: route_defs)
  with routes have no_preflight: "hq_method req \<noteq> ''OPTIONS''" by (auto simp: list_all_iff)
  show thesis
  proof (cases rule: create_app_cases [OF assms(1) assms(4) [unfolded application_def]])
    case (3 rid x)
    then obtain r0 where x: "x = Inr r0" "rsp_status r0 = rsp_status rsp" "rsp_payload r0 = rsp_payload rsp"
      by (auto split: sum.splits)
    then obtain body where body: "fw_read_body fw r req = Inr body"
      using 3(2) assms(2,5) by (cases "fw_read_body fw r req") (auto simp: route_request_def exception_handlers_def)
    obtain res where run: "run_route fw se w (management_handler sc se w op) r ps body req (Some rid) st = (res, st')"
      "exception_handlers (hq_path req) (Some rid) res = Inr r0"
      using 3(2) assms(2) body x(1)
      by (cases "run_route fw se w (management_handler sc se w op) r ps body req (Some rid) st")
        (simp add: route_request_def)
    have no_raise: "res \<noteq> Raise e" if "\<And>y. e = Syn y \<Longrightarrow> 400 \<le> e_status y" for e
      using raised_status [of "hq_path req" "Some rid" e r0] that x(2) assms(5) run(2) by auto
    show thesis
    proof (cases "require_admin (se_admin_secret se) (header ''x-admin-secret'' req) (header ''authorization'' req)")
      case (Inl e)
      then have "res = Raise e" using run(1) by (simp add: run_route_def assms(3))
      moreover have "\<And>y. e = Syn y \<Longrightarrow> 400 \<le> e_status y" using Inl admin_error_status by fastforce
      ultimately show thesis using no_raise by blast
    next
      case (Inr u)
      then have h: "management_handler sc se w op (rt_endpoint r) ps body req (Some rid) st = (res, st')"
        using run(1) by (simp add: run_route_def assms(3))
      have "res = Answer r0"
      proof (cases res)
        case (Answer r1)
        then show ?thesis using run(2) by (simp add: exception_handlers_def)
      next
        case (Raise e)
        then show ?thesis using no_raise [of e] assms(6) h by blast
      next
        case (Invalid errors)
        then have "rsp_status r0 = 422" using run(2) by (auto simp: exception_handlers_def)
        then show ?thesis using x(2) assms(5) by simp
      qed
      with h show thesis using body x(2,3) by (intro that [of body rid r0]) simp_all
    qed
  qed (use assms(5) no_preflight in simp_all)
qed

lemma admin_guard:
  assumes "framework_ok fw" "fw_resolve fw app_routes req = Some (r, ps)" "rt_endpoint r \<in> {RevokeApiKey, CreateApiKey}"
  shows "rt_guard r = RequireAdmin"
proof -
  have "list_all (\<lambda>r. rt_endpoint r \<in> {RevokeApiKey, CreateApiKey} \<longrightarrow> rt_guard r = RequireAdmin) app_routes"
    by (simp add: route_defs)
  moreover have "r \<in> set app_routes" using assms(1,2) by (auto simp: framework_ok_def)
  ultimately show ?thesis using assms(3) by (auto simp: list_all_iff)
qed

lemma writing_answer:
  assumes "writing code render f st = (Answer r, st')" "\<And>v. f None \<noteq> Inr v"
  obtains s x s' where "db_of st = Some s" "f (Some s) = Inr (x, s')" "r = json_response code (render x)"
    "st' = put_db (Some s') st"
  using assms by (cases "db_of st") (auto simp: writing_def split: sum.splits)

lemma revoke_handled:
  assumes "framework_ok fw" "fw_resolve fw app_routes req = Some (r, i # ps)" "rt_endpoint r = RevokeApiKey"
    "application fw sc se w op req bound st = (Inr rsp, st')" "rsp_status rsp = 200"
  obtains s out s' where "db_of st = Some s" "revoke_api_key_route i (wo_now w) (Some s) = Inr (out, s')"
    "st' = put_db (Some s') st"
proof -
  have h: "management_handler sc se w op (rt_endpoint r) (i # ps) body req rid st =
      writing 200 (key_json (op_iso op)) (revoke_api_key_route i (wo_now w)) st" for body rid
    by (simp add: management_handler_def account_handler_def assms(3) path_param_def)
  obtain r0 where "writing 200 (key_json (op_iso op)) (revoke_api_key_route i (wo_now w)) st = (Answer r0, st')"
  proof (rule admin_answered [OF assms(1,2) admin_guard [OF assms(1,2)] assms(4)])
    fix body rid e st1
    assume "management_handler sc se w op (rt_endpoint r) (i # ps) body req rid st = (Raise (Syn e), st1)"
    then show "400 \<le> e_status e"
      unfolding h writing_def by (auto split: sum.splits intro: revoke_error_status)
  qed (use assms(3,5) h in simp_all)
  then show thesis
    by (rule writing_answer) (simp_all add: revoke_api_key_route_def with_session_def get_db_session_def that)
qed

text \<open>C5: A key revoked over HTTP is out of use at once and for good: after a management request that revoked
  it was answered 200, and whatever requests of any kind the application serves then, a completion that
  carries the key's token changes nothing, takes no slot, reaches no backend, counts for no limit and
  leaves no record, and is refused with 401, or with 413 or 422 when its size or its JSON is wrong.\<close>

theorem revoked_over_http:
  assumes "framework_ok fw" "db_of st = Some s" "store_ok s" "k \<in> set (api_keys s)" "k_hash k = wo_hash w t"
    "fw_resolve fw app_routes req0 = Some (r, k_id k # ps)" "rt_endpoint r = RevokeApiKey"
    "application fw sc se w0 op0 req0 bound0 st = (Inr rsp0, st1)" "rsp_status rsp0 = 200"
    "app_run fw sc se (wo_hash w) st1 st2"
    "chat_request_of fw req" "extract_bearer_token (header ''authorization'' req) = Inr t"
    "application fw sc se w op req bound st2 = (res, st3)"
  shows "st3 = st2 \<and> (\<forall>rsp. res = Inr rsp \<longrightarrow> rsp_status rsp \<in> {401, 413, 422})"
proof -
  obtain s' out s1 where "db_of st = Some s'" and rv': "revoke_api_key_route (k_id k) (wo_now w0) (Some s') = Inr (out, s1)"
    and st1: "st1 = put_db (Some s1) st"
    by (rule revoke_handled [OF assms(1,6-9)])
  then have rv: "revoke_api_key_route (k_id k) (wo_now w0) (Some s) = Inr (out, s1)" using assms(2) by simp
  obtain k1 where k1: "revoke_api_key (k_id k) (wo_now w0) s = Inr (k1, s1)"
    using rv by (auto simp: revoke_api_key_route_def with_session_def get_db_session_def split: sum.splits)
  have row: "k_id k1 = k_id k" "k_revoked_at k1 \<noteq> None" "k1 \<in> set (api_keys s1)"
    using k1 keys_with_id_in [of "k_id k" s k1]
    by (cases rule: revoke_api_key_row; auto simp: update_key_def dest!: keys_with_id_in)+
  have ok1: "store_ok s1" by (rule revoke_api_key_ok [OF k1 assms(3)])
  have "keys_later s s1" using svc_step_later [OF svc_revoke [OF k1]] .
  then obtain k2 where k2: "k2 \<in> set (api_keys s1)" "key_later k k2" using assms(4) by (auto simp: keys_later_def)
  then have "k2 = k1" using row by (intro key_by_id [OF ok1]) (simp_all add: key_later_def)
  with k2 have hash: "k_hash k1 = wo_hash w t" using assms(5) by (simp add: key_later_def)
  have "evolves (Some s1) (db_of st2)"
    using app_run_evolves [OF assms(10,1)] by (simp add: st1 db_of_def put_db_def)
  then obtain s2 where s2: "db_of st2 = Some s2" "keys_later s1 s2"
    by (cases "db_of st2") (auto simp: evolves_def db_later_def)
  then obtain k3 where k3: "k3 \<in> set (api_keys s2)" "key_later k1 k3" using row(3) by (auto simp: keys_later_def)
  then have "k_revoked_at k3 \<noteq> None" "k_hash k3 = wo_hash w t"
    using row(2) hash by (auto simp: key_later_def)
  from revoked_row_refused [where h = "wo_hash w" and t = t, OF k3(1) this assms(12), of "wo_commit_ok w" "wo_now w"] obtain e where
    e: "authenticate_with_orm (wo_hash w) (wo_commit_ok w) (wo_now w) (header ''authorization'' req) (db_of st2) = (Inl e, db_of st2)"
      "e = revoked_key_error \<or> e = PyError ''MultipleResultsFound''"
    using s2(1) by auto
  show ?thesis
    by (rule chat_refused [OF assms(1,11,13) e(1)]) (use e(2) in \<open>auto simp: revoked_key_error_def new_error_def\<close>)
qed

section \<open>Issuing a key over HTTP\<close>

lemma create_key_error_status:
  assumes "create_api_key_route h r b kid now db = Inl (Syn e)"
  shows "400 \<le> e_status e"
proof -
  have one: "one_or_none xs \<noteq> Inl (Syn e)" for xs :: "client list"
    by (cases xs rule: one_or_none.cases) simp_all
  have ins: "insert_key k s \<noteq> Inl (Syn e)" for k s
    by (simp add: insert_key_def integrity_error_def)
  show ?thesis
    using assms one ins
    by (auto simp: create_api_key_route_def with_session_def get_db_session_def create_api_key_def get_client_def
        empty_name_error_def new_error_def Let_def split: option.splits sum.splits if_splits prod.splits)
qed

text \<open>C24: The key that the management plane answers is the key that the data plane accepts: the text in the
  field \<open>key\<close> of a 201, sent as a bearer token, authenticates at once as a key of the client the request
  named, until it expires and unless an older key has the same hash, and its hash is what was stored.\<close>

theorem issued_key_works:
  assumes "framework_ok fw" "db_of st = Some s" "store_ok s" "rng_ok (op_rng op)"
    "fw_resolve fw app_routes req = Some (r, ps)" "rt_endpoint r = CreateApiKey"
    "application fw sc se w op req bound st = (Inr rsp, st')" "rsp_status rsp = 201"
    "\<forall>t. field ''key'' (rsp_payload rsp) = Some (JStr t) \<longrightarrow> wo_hash w t \<notin> k_hash ` set (api_keys s)"
  shows "\<exists>body b t. fw_read_body fw r req = Inr body \<and> sc_api_key_create sc body = Inr b \<and>
    field ''key'' (rsp_payload rsp) = Some (JStr t) \<and> wo_hash w t \<in> k_hash ` set (api_keys (the (db_of st'))) \<and>
    (\<forall>ok now. (\<forall>e. kc_expires_at b = Some e \<longrightarrow> now < e) \<longrightarrow>
       (\<exists>p db. authenticate_request (wo_hash w) ok now (Some (''Bearer '' @ t)) (db_of st') = (Inr p, db) \<and>
          p_api_key_id p = op_row_id op \<and> p_client_id p = kc_client_id b))"
proof -
  let ?route = "\<lambda>b. create_api_key_route (wo_hash w) (op_rng op) b (op_row_id op) (wo_now w)"
  have h: "management_handler sc se w op (rt_endpoint r) ps body req rid st =
      with_input (sc_api_key_create sc body) (\<lambda>b. writing 201 (key_created_json (op_iso op)) (?route b)) st" for body rid
    by (simp add: management_handler_def account_handler_def assms(6))
  obtain body rid r0 where body: "fw_read_body fw r req = Inr body"
    and run: "management_handler sc se w op (rt_endpoint r) ps body req (Some rid) st = (Answer r0, st')"
    and r0: "rsp_status r0 = rsp_status rsp" "rsp_payload r0 = rsp_payload rsp"
  proof (rule admin_answered [OF assms(1,5) admin_guard [OF assms(1,5)] assms(7)])
    fix body rid e st1
    assume "management_handler sc se w op (rt_endpoint r) ps body req rid st = (Raise (Syn e), st1)"
    then show "400 \<le> e_status e"
      unfolding h with_input_def writing_def by (auto split: sum.splits intro: create_key_error_status)
  qed (use assms(6,8) in simp_all)
  obtain b where b: "sc_api_key_create sc body = Inr b"
    and w: "writing 201 (key_created_json (op_iso op)) (?route b) st = (Answer r0, st')"
    using run unfolding h with_input_def by (cases "sc_api_key_create sc body") simp_all
  obtain out s' where out: "?route b (Some s) = Inr (out, s')"
    "r0 = json_response 201 (key_created_json (op_iso op) out)" "st' = put_db (Some s') st"
    by (rule writing_answer [OF w]) (use assms(2) in \<open>simp_all add: create_api_key_route_def with_session_def get_db_session_def\<close>)
  obtain k t where c: "create_api_key (wo_hash w) (op_rng op) (kc_client_id b) (kc_name b) (kc_expires_at b)
      (op_row_id op) (wo_now w) s = Inr ((k, t), s')" "kco_key out = t"
    using out(1) by (auto simp: create_api_key_route_def with_session_def get_db_session_def split: sum.splits)
  have "rsp_payload rsp = key_created_json (op_iso op) out"
    using r0(2) out(2) by (simp add: json_response_def)
  then have shown: "field ''key'' (rsp_payload rsp) = Some (JStr t)" by (simp add: c(2))
  then have fresh: "\<forall>k'\<in>set (api_keys s). k_hash k' \<noteq> wo_hash w t" using assms(9) by (metis image_eqI)
  have db: "db_of st' = Some s'" by (simp add: out(3) put_db_def db_of_def)
  have works: "\<exists>p db. authenticate_request (wo_hash w) ok now (Some (''Bearer '' @ t)) (db_of st') = (Inr p, db) \<and>
      p_api_key_id p = op_row_id op \<and> p_client_id p = kc_client_id b"
    if "\<forall>e. kc_expires_at b = Some e \<longrightarrow> now < e" for ok now
    unfolding db by (rule fresh_key_authenticates [OF assms(3,4) c(1) fresh that])
  have "wo_hash w t \<in> k_hash ` set (api_keys s')"
    using create_api_key_row(1,7) [OF c(1)] by (auto simp: insert_key_def split: if_splits)
  with body b shown works show ?thesis unfolding db option.sel by blast
qed

section \<open>Instances\<close>

definition sample_schemas :: schemas where
  "sample_schemas = \<lparr> sc_user_create = (\<lambda>j. Inr ''ann''),
     sc_client_create = (\<lambda>j. Inr \<lparr> cl_user_id = ''u1'', cl_name = ''app'', cl_description = None, cl_allowed_models = None \<rparr>),
     sc_api_key_create = (\<lambda>j. Inr \<lparr> kc_client_id = ''c1'', kc_name = ''key'', kc_expires_at = None \<rparr>),
     sc_policy_update = (\<lambda>j. Inr \<lparr> pu_rpm = Some (Some 5), pu_rpd = None, pu_tpd = None \<rparr>),
     sc_routing_preview = (\<lambda>j. Inr ''m''), sc_text = (\<lambda>_ _. None), sc_flag = (\<lambda>_ d _. Inr d),
     sc_number = (\<lambda>_ d _. Inr d) \<rparr>"

lemma sample_schemas_ok: "schemas_ok sample_schemas"
  by (simp add: schemas_ok_def sample_schemas_def valid_name_def valid_client_create_def valid_api_key_create_def
      valid_policy_update_def)

definition sample_operations :: "unit operations" where
  "sample_operations = \<lparr> op_rng = sample_rng, op_row_id = ''i'', op_stamp = id, op_iso = show_int, op_admission = None,
     op_observed = True, op_name = (\<lambda>_. ''b''), op_url = (\<lambda>_. []), op_text = (\<lambda>_. []), op_type_name = (\<lambda>_. []),
     op_checked_at = [], op_clock = (\<lambda>_ _. 0), op_probe = (\<lambda>_ _. Inr sample_health),
     op_default_probe = (\<lambda>_. Inr sample_health), op_select = Inr () \<rparr>"

abbreviation sample_application :: "http_request \<Rightarrow> unit http_state \<Rightarrow> (exn + response) \<times> unit http_state" where
  "sample_application req st \<equiv>
     application sample_framework sample_schemas default_settings sample_world sample_operations req None st"

theorem application_is_run_witness:
  "\<exists>b r st' g g'. sample_application (sample_chat [(''authorization'', b)]) (sample_state sample_store) = (Inr r, st') \<and>
     hs_actions st' \<noteq> [] \<and> gw_app g = hs_app (sample_state sample_store) \<and> gw_app g' = hs_app st' \<and>
     sys_reach (wo_hash sample_world) (se_admin_secret default_settings) (wo_caps sample_world) g g'"
proof -
  obtain b t where t: "extract_bearer_token (Some b) = Inr t" by (rule sample_bearer)
  obtain r st' where run: "sample_application (sample_chat [(''authorization'', b)]) (sample_state sample_store) = (Inr r, st')"
    and acts: "hs_actions st' = [SlotTaken, BackendCalled, Sent (chunk_frame ''m'' sample_chunk), SlotReleased]"
    unfolding application_def by (rule sample_served [OF t])
  define g :: "unit gateway" where "g = \<lparr> gw_app = hs_app (sample_state sample_store), gw_limiter = new_limiter 60,
    gw_admission = new_admission 1 1 30, gw_flights = Map.empty \<rparr>"
  obtain a1 adm where e: "adm_exec (new_admission 1 1 30) (Arrive 0 0) = Some (Some Entered, a1)"
      "adm_exec a1 (Leave 0) = Some (None, adm)"
    by (auto simp: new_admission_def known_def acquire_def take_slot_def sem_acquire_def sem_locked_def leave_eq)
  have g: "gw_app g = hs_app (sample_state sample_store)" "gw_limiter g = hs_limiter (sample_state sample_store)"
    "app_has_admission (hs_app (sample_state sample_store)) \<and> gw_flights g 0 = None \<and> \<not> known 0 (gw_admission g)"
    by (simp_all add: g_def sample_state_def sample_app_def new_admission_def known_def)
  have "slot_used 0 (en_slot (wo_env sample_world)) (gw_admission g) adm"
    using adm_exec_step [OF e(1)] adm_exec_step [OF e(2)] by (auto simp: g_def sample_world_def Serving.sample_env_def)
  with g(3) have "chat_request_of sample_framework (sample_chat [(''authorization'', b)]) \<longrightarrow>
      app_has_admission (hs_app (sample_state sample_store)) \<and> gw_flights g 0 = None \<and> \<not> known 0 (gw_admission g) \<and>
      slot_used 0 (en_slot (wo_env sample_world)) (gw_admission g) adm" by blast
  from application_is_run [OF sample_framework_ok run g(1,2) this] obtain a2 where
    "sys_reach (wo_hash sample_world) (se_admin_secret default_settings) (wo_caps sample_world) g
      (g\<lparr> gw_app := hs_app st', gw_limiter := hs_limiter st', gw_admission := a2 \<rparr>)" by blast
  moreover have "hs_actions st' \<noteq> []" by (simp add: acts)
  ultimately show ?thesis
    using run g(1) by (intro exI [of _ b] exI [of _ r] exI [of _ st'] exI [of _ g] exI conjI) simp_all
qed

text \<open>A management request with the right secret, at a framework that finds a key's id in the path.\<close>

definition sample_admin_framework :: "unit http_state framework" where
  "sample_admin_framework = sample_framework\<lparr> fw_resolve := (\<lambda>rs req. map_option (\<lambda>r. (r, [''k1'']))
     (List.find (\<lambda>r. rt_method r = hq_method req \<and> rt_path r = hq_path req) rs)) \<rparr>"

definition sample_settings :: settings where
  "sample_settings = default_settings\<lparr> se_admin_secret := ''s'' \<rparr>"

lemma sample_admin_framework_ok: "framework_ok sample_admin_framework"
  using sample_framework_ok
  by (auto simp: framework_ok_def sample_admin_framework_def find_Some_iff)

lemma sample_admin_run:
  assumes "List.find (\<lambda>r. rt_method r = verb \<and> rt_path r = path) app_routes = Some r" "rt_guard r = RequireAdmin"
    "wo_fresh_id w = ''0000''"
  shows "application sample_admin_framework sample_schemas sample_settings w sample_operations
      (sample_http verb path [(''x-admin-secret'', ''s'')]) None st =
    (let (res, st') = management_handler sample_schemas sample_settings w sample_operations (rt_endpoint r) [''k1'']
           JNull (sample_http verb path [(''x-admin-secret'', ''s'')]) (Some ''0000'') st
     in (map_sum id (\<lambda>r. r\<lparr> rsp_headers := dict_set ''x-request-id'' ''0000'' (rsp_headers r) \<rparr>)
           (exception_handlers path (Some ''0000'') res), st'))"
proof -
  let ?req = "sample_http verb path [(''x-admin-secret'', ''s'')]"
  have req: "header n ?req = (if n = ''x-admin-secret'' then Some ''s'' else None)" "hq_path ?req = path" "hq_method ?req = verb" for n
    by (simp_all add: header_def sample_http_def)
  have res: "fw_resolve sample_admin_framework app_routes ?req = Some (r, [''k1''])"
    by (simp add: sample_admin_framework_def req assms(1))
  have fw: "fw_read_body sample_admin_framework r q = Inr JNull" for r q
    by (simp add: sample_admin_framework_def sample_framework_def)
  have gate: "require_admin ''s'' (Some ''s'') None = Inr ()"
    by (simp add: require_admin_def provided_secret_def compare_digest_def)
  have "behind_cors sample_admin_framework sample_settings w others =
      route_request sample_admin_framework sample_settings w others" for others
    by (simp add: behind_cors_def sample_settings_def default_settings_def cors_origins_list_def py_defs)
  moreover have "route_request sample_admin_framework sample_settings w others ?req rid st =
      apfst (exception_handlers path rid) (others (rt_endpoint r) [''k1''] JNull ?req rid st)" for others rid
    by (simp add: route_request_def res run_route_def fw req assms(2) gate) (simp add: sample_settings_def gate)
  ultimately show ?thesis
    unfolding application_def create_app_layers [OF sample_admin_framework_ok]
    by (simp add: request_id_middleware_def request_id_dispatch_def request_size_middleware_def
        request_size_dispatch_def req assms(3) sanitize_def Let_def split: prod.split sum.split)
qed

lemma sample_revoked:
  obtains rsp s' where "application sample_admin_framework sample_schemas sample_settings sample_world sample_operations
      (sample_http ''POST'' ''/admin/api-keys/{api_key_id}/revoke'' [(''x-admin-secret'', ''s'')]) None (sample_state sample_store) =
    (Inr rsp, put_db (Some s') (sample_state sample_store))" "rsp_status rsp = 200"
proof -
  let ?r = "\<lparr> rt_endpoint = RevokeApiKey, rt_method = ''POST'', rt_path = ''/admin/api-keys/{api_key_id}/revoke'',
      rt_guard = RequireAdmin \<rparr>"
  have r: "List.find (\<lambda>r. rt_method r = ''POST'' \<and> rt_path r = ''/admin/api-keys/{api_key_id}/revoke'') app_routes = Some ?r"
    by (simp add: route_defs)
  obtain out s' where out: "revoke_api_key_route ''k1'' 5 (Some sample_store) = Inr (out, s')"
    by (simp add: revoke_api_key_route_def with_session_def get_db_session_def revoke_api_key_def
        get_api_key_def keys_with_id_def sample_store_def)
  have w: "wo_fresh_id sample_world = ''0000''" "wo_now sample_world = 5" "db_of (sample_state sample_store) = Some sample_store"
    by (simp_all add: sample_world_def sample_state_def db_of_def)
  let ?rsp = "\<lparr> rsp_status = 200, rsp_headers = [(''x-request-id'', ''0000'')], rsp_payload = key_json show_int out \<rparr>"
  have "application sample_admin_framework sample_schemas sample_settings sample_world sample_operations
      (sample_http ''POST'' ''/admin/api-keys/{api_key_id}/revoke'' [(''x-admin-secret'', ''s'')]) None (sample_state sample_store) =
    (Inr ?rsp, put_db (Some s') (sample_state sample_store))"
    by (subst sample_admin_run [OF r _ w(1)])
      (simp_all add: management_handler_def account_handler_def path_param_def writing_def w out exception_handlers_def
        json_response_def sample_operations_def)
  then show thesis by (rule that) simp
qed

theorem revoked_over_http_witness:
  "\<exists>b rsp0 rsp st1 st3. application sample_admin_framework sample_schemas sample_settings sample_world sample_operations
      (sample_http ''POST'' ''/admin/api-keys/{api_key_id}/revoke'' [(''x-admin-secret'', ''s'')]) None (sample_state sample_store) = (Inr rsp0, st1) \<and>
     application sample_admin_framework sample_schemas sample_settings sample_world sample_operations
      (sample_chat [(''authorization'', b)]) None st1 = (rsp, st3) \<and> st3 = st1"
proof -
  obtain b t where t: "extract_bearer_token (Some b) = Inr t" by (rule sample_bearer)
  let ?app = "application sample_admin_framework sample_schemas sample_settings sample_world sample_operations"
  let ?revoke = "sample_http ''POST'' ''/admin/api-keys/{api_key_id}/revoke'' [(''x-admin-secret'', ''s'')]"
  let ?chat = "sample_chat [(''authorization'', b)]"
  obtain rsp0 s' where run0: "?app ?revoke None (sample_state sample_store) = (Inr rsp0, put_db (Some s') (sample_state sample_store))"
    "rsp_status rsp0 = 200" by (rule sample_revoked)
  let ?st1 = "put_db (Some s') (sample_state sample_store)"
  obtain res st3 where run: "?app ?chat None ?st1 = (res, st3)" by (metis surj_pair)
  obtain k where k: "k \<in> set (api_keys sample_store)" "k_id k = ''k1''" "k_hash k = wo_hash sample_world t"
    by (simp add: sample_store_def sample_world_def)
  have db: "db_of (sample_state sample_store) = Some sample_store" by (simp add: db_of_def sample_state_def)
  have res0: "fw_resolve sample_admin_framework app_routes ?revoke = Some (\<lparr> rt_endpoint = RevokeApiKey, rt_method = ''POST'',
      rt_path = ''/admin/api-keys/{api_key_id}/revoke'', rt_guard = RequireAdmin \<rparr>, [k_id k])"
    by (simp add: sample_admin_framework_def sample_http_def route_defs k(2))
  have chat: "chat_request_of sample_admin_framework ?chat" "extract_bearer_token (header ''authorization'' ?chat) = Inr t"
    using t by (simp_all add: chat_request_of_def sample_admin_framework_def sample_http_def route_defs header_def)
  have "st3 = ?st1 \<and> (\<forall>rsp. res = Inr rsp \<longrightarrow> rsp_status rsp \<in> {401, 413, 422})"
    by (rule revoked_over_http [OF sample_admin_framework_ok db sample_store_ok k(1,3) res0 _ run0 run_none chat run]) simp
  with run0 run show ?thesis by blast
qed

theorem issued_key_works_witness:
  "\<exists>rsp st' t p db. application sample_admin_framework sample_schemas sample_settings (sample_world\<lparr> wo_hash := id \<rparr>) sample_operations
      (sample_http ''POST'' ''/admin/api-keys'' [(''x-admin-secret'', ''s'')]) None (sample_state sample_store) = (Inr rsp, st') \<and>
     field ''key'' (rsp_payload rsp) = Some (JStr t) \<and>
     authenticate_request id True 6 (Some (''Bearer '' @ t)) (db_of st') = (Inr p, db) \<and> p_client_id p = ''c1''"
proof -
  let ?w = "sample_world\<lparr> wo_hash := id \<rparr>"
  let ?r = "\<lparr> rt_endpoint = CreateApiKey, rt_method = ''POST'', rt_path = ''/admin/api-keys'', rt_guard = RequireAdmin \<rparr>"
  let ?create = "sample_http ''POST'' ''/admin/api-keys'' [(''x-admin-secret'', ''s'')]"
  let ?b = "\<lparr> kc_client_id = ''c1'', kc_name = ''key'', kc_expires_at = None \<rparr>"
  have r: "List.find (\<lambda>r. rt_method r = ''POST'' \<and> rt_path r = ''/admin/api-keys'') app_routes = Some ?r"
    by (simp add: route_defs)
  have w: "wo_fresh_id ?w = ''0000''" "wo_now ?w = 5" "wo_hash ?w = id" by (simp_all add: sample_world_def)
  have db: "db_of (sample_state sample_store) = Some sample_store" by (simp add: sample_state_def db_of_def)
  obtain kt s' where c: "create_api_key id sample_rng ''c1'' ''key'' None ''i'' 5 sample_store = Inr (kt, s')"
    by (cases "generate_api_key id sample_rng") (simp add: create_api_key_def Let_def get_client_def clients_with_id_def sample_store_def empty_store_def
        insert_key_def py_defs)
  obtain k t where kt: "kt = (k, t)" by (cases kt)
  then obtain out where out: "create_api_key_route id sample_rng ?b ''i'' 5 (Some sample_store) = Inr (out, s')" "kco_key out = t"
    using c by (simp add: create_api_key_route_def with_session_def get_db_session_def)
  have "is_valid_format t" using create_api_key_row(8) [OF c [unfolded kt]] sample_rng_ok by simp
  then have "t \<noteq> ''x''" by (auto simp: is_valid_format_def numeral_3_eq_3)
  then have fresh: "id t \<notin> k_hash ` set (api_keys sample_store)" by (simp add: sample_store_def)
  let ?rsp = "\<lparr> rsp_status = 201, rsp_headers = [(''x-request-id'', ''0000'')], rsp_payload = key_created_json show_int out \<rparr>"
  have run: "application sample_admin_framework sample_schemas sample_settings ?w sample_operations ?create None (sample_state sample_store) =
      (Inr ?rsp, put_db (Some s') (sample_state sample_store))"
    by (subst sample_admin_run [OF r _ w(1)])
      (simp_all add: management_handler_def account_handler_def with_input_def writing_def w db out exception_handlers_def
        json_response_def sample_operations_def sample_schemas_def)
  have res: "fw_resolve sample_admin_framework app_routes ?create = Some (?r, [''k1''])"
    by (simp add: sample_admin_framework_def sample_http_def route_defs)
  have rng: "rng_ok (op_rng sample_operations)" by (simp add: sample_operations_def sample_rng_ok)
  have "\<exists>body b t. fw_read_body sample_admin_framework ?r ?create = Inr body \<and> sc_api_key_create sample_schemas body = Inr b \<and>
      field ''key'' (rsp_payload ?rsp) = Some (JStr t) \<and>
      wo_hash ?w t \<in> k_hash ` set (api_keys (the (db_of (put_db (Some s') (sample_state sample_store))))) \<and>
      (\<forall>ok now. (\<forall>e. kc_expires_at b = Some e \<longrightarrow> now < e) \<longrightarrow>
        (\<exists>p db. authenticate_request (wo_hash ?w) ok now (Some (''Bearer '' @ t)) (db_of (put_db (Some s') (sample_state sample_store))) = (Inr p, db) \<and>
           p_api_key_id p = op_row_id sample_operations \<and> p_client_id p = kc_client_id b))"
    by (rule issued_key_works [OF sample_admin_framework_ok db sample_store_ok rng res _ run])
      (use fresh out(2) w(3) in \<open>auto simp: created_key_field\<close>)
  then obtain body b t1 where b: "sc_api_key_create sample_schemas body = Inr b" "field ''key'' (rsp_payload ?rsp) = Some (JStr t1)"
    and a: "\<forall>ok now. (\<forall>e. kc_expires_at b = Some e \<longrightarrow> now < e) \<longrightarrow>
        (\<exists>p db. authenticate_request (wo_hash ?w) ok now (Some (''Bearer '' @ t1)) (db_of (put_db (Some s') (sample_state sample_store))) = (Inr p, db) \<and>
           p_api_key_id p = op_row_id sample_operations \<and> p_client_id p = kc_client_id b)" by blast
  have "kc_expires_at b = None" "kc_client_id b = ''c1''" using b(1) by (auto simp: sample_schemas_def)
  with a obtain p db where "authenticate_request id True 6 (Some (''Bearer '' @ t1)) (db_of (put_db (Some s') (sample_state sample_store))) = (Inr p, db)"
    "p_client_id p = ''c1''" unfolding w(3) by (metis option.discI)
  with run b(2) show ?thesis by blast
qed

end
