(* ===== verification/Metering.thy ===== *)
theory Metering
  imports Management
begin

text \<open>
  Backend calls and usage records of the whole application: no request of any kind reaches a backend
  without leaving a record of the key that paid for it, and none leaves more than one.
\<close>

section \<open>The actions of one completion\<close>

lemma calls_of_sends [simp]: "count_list (map Sent xs) BackendCalled = 0"
  by (induction xs) simp_all

lemma calls_of_recording [simp]: "count_list (fst (finish_usage a i k cl args)) BackendCalled = 0"
  by (simp add: finish_usage_trace)

lemma calls_of_result:
  assumes "create_chat_completion caps discovered a r auth tick now1 now2 en mk answers streams interrupt rl = (res, rl')"
  shows "count_list (result_trace res) BackendCalled \<le> 1"
proof -
  have c: "count_list tr BackendCalled \<le> 1" if "non_streaming_completion a en mk k cl pp answer = (x, tr, db)" for k cl pp answer x tr db
    using that by (cases "app_has_admission a")
      (auto simp: non_streaming_wired, simp add: non_streaming_completion_def get_admission_def)
  have s: "count_list tr BackendCalled \<le> 1" if "stream_generator a en k cl pp answer interrupt = (x, tr, db)" for k cl pp answer x tr db
    using that by (auto simp: stream_generator_eq split_beta Let_def)
  show ?thesis
    using assms unfolding create_chat_completion_def
    by (auto split: prod.splits sum.splits if_splits dest!: c s)
qed

lemma call_of_result:
  assumes "create_chat_completion caps discovered a r (p, k, cl) tick now1 now2 en mk answers streams interrupt rl = (res, rl')"
    "BackendCalled \<in> set (result_trace res)"
  obtains args where "result_db (app_db a) res = snd (finish_usage a (en_record_id en) k cl args)"
proof (cases "app_has_admission a")
  case True
  have "\<not> refused_result res" using assms(2) by (cases res) simp_all
  with handler_result [OF assms(1) True] show thesis using that by auto
next
  case False
  then have "BackendCalled \<notin> set (result_trace res)"
    using assms(1) by (auto simp: create_chat_completion_def get_admission_def non_streaming_completion_def
        split: prod.splits sum.splits if_splits)
  with assms(2) show thesis by simp
qed

lemma finish_usage_row:
  assumes "app_usage a \<noteq> None" "app_db a = Some s" "i \<notin> r_id ` set (usage_records s)"
  obtains s' r where "snd (finish_usage a i k cl args) = Some s'" "usage_records s' = usage_records s @ [r]"
    "r_id r = i" "r_api_key_id r = Some (k_id k)"
proof -
  obtain r s' where r: "record_usage i (Some k) (Some cl) args s = Inr (r, s')"
    using assms(3) by (simp add: record_usage_def insert_usage_def Let_def)
  then have "usage_records s' = usage_records s @ [r]" "r_id r = i" "r_api_key_id r = Some (k_id k)"
    by (auto simp: record_usage_def insert_usage_def Let_def split: if_splits)
  moreover have "snd (finish_usage a i k cl args) = Some s'"
    using assms(1,2) r by (auto simp: finish_usage_def store_usage_def get_db_session_for_usage_def)
  ultimately show thesis by (rule that [rotated])
qed

section \<open>The actions of one request\<close>

lemma managed_actions:
  assumes "managed sc se w op req st st'"
  shows "hs_actions st' = hs_actions st"
  using managed_touches [OF assms] by (auto simp: touched_by_def put_router_def put_db_def)


section \<open>Instances\<close>

definition sample_metered :: "unit http_state" where
  \<comment> \<open>with a usage service that limits nothing\<close>
  "sample_metered = (sample_state sample_store)\<lparr> hs_app := sample_app\<lparr>
     app_usage := Some \<lparr> default_rpm = 0, default_rpd = 0, default_tpd = 0 \<rparr>, app_db := Some sample_store \<rparr> \<rparr>"

lemma streamed_call:
  assumes "prepare_completion caps discovered a r (p, k, cl) tick now1 now2 rl = (Inr pp, rl')"
    "cr_stream (pp_request pp)" "app_has_admission a" "en_slot en = None"
  obtains x tr db where "create_chat_completion caps discovered a r (p, k, cl) tick now1 now2 en mk answers streams interrupt rl =
      (StreamResult x tr db, rl')" "BackendCalled \<in> set tr"
  using assms
  by (simp add: create_chat_completion_def get_admission_def stream_generator_eq split_beta Let_def)

lemma sample_metered_call:
  assumes "extract_bearer_token (Some b) = Inr t"
  obtains r st' where "sample_application (sample_chat [(''authorization'', b)]) sample_metered = (Inr r, st')"
    "BackendCalled \<in> set (hs_actions st')"
proof -
  let ?h = "\<lambda>_. ''x''" and ?hs = "[(''authorization'', b)]"
  obtain p k cl s1 where a: "authenticate_with_orm ?h True 5 (Some b) (Some sample_store) = (Inr (p, k, cl), Some s1)"
    and p: "p_allowed_models p = None"
    and limits: "k_rpm k = None" "k_rpd k = None" "k_tpd k = None" "c_rpm cl = None" "c_rpd cl = None" "c_tpd cl = None"
    by (simp add: authenticate_with_orm_def get_db_session_def assms keys_with_hash_def sample_store_def
        empty_store_def verify_api_key_def hash_api_key_def expired_def update_key_def Let_def
        principal_from_api_key_with_session_def key_client_def client_user_def clients_with_id_def
        users_with_id_def models_of_client_def)
  let ?app = "hs_app (put_db (Some s1) sample_metered)"
  have pre: "usage_precheck ?app k cl 0 50 50 (new_limiter 60) = (Inr (), new_limiter 60)"
    using limiter.unlimited [of 0 "rate_key k" 0 "new_limiter 60"]
    by (cases "check (rate_key k) 0 0 (new_limiter 60)")
      (simp add: usage_precheck_def sample_metered_def put_db_def get_db_session_for_usage_def precheck_def
        effective_policy_def resolve_policy_def resolve_def limits Let_def)
  have "choose_backend (\<lambda>_. [CapChatCompletions, CapStreaming]) sample_models_of ?app (sample_request True) p = Inr sample_prepared"
    by (simp add: choose_backend_def get_router_def configured_def get_app_backend_def check_capability_def
        get_available_models_def validate_and_normalize_request_def enforce_model_access_def can_use_model_def
        sample_metered_def put_db_def sample_app_def p sample_request_def sample_prepared_def)
  then have prep: "prepare_completion (\<lambda>_. [CapChatCompletions, CapStreaming]) sample_models_of ?app (sample_request True) (p, k, cl)
      0 50 50 (new_limiter 60) = (Inr sample_prepared, new_limiter 60)"
    by (simp add: prepare_completion_def pre)
  have "header ''authorization'' (sample_chat ?hs) = Some b" by (simp add: header_def sample_http_def)
  then have e: "\<exists>st'. chat_endpoint sample_framework sample_world JNull (sample_chat ?hs) (Some i) sample_metered =
      (Answer (stream_response i), st') \<and> BackendCalled \<in> set (hs_actions st')" for i
  proof -
    obtain x tr db where c: "create_chat_completion (\<lambda>_. [CapChatCompletions, CapStreaming]) sample_models_of ?app (sample_request True)
        (p, k, cl) 0 50 50 ((Serving.sample_env None)\<lparr> en_request_id := i \<rparr>) (new_completion (fw_lax sample_framework))
        (\<lambda>_ _. Inl CancelledError) (\<lambda>_ _. ([sample_chunk], None)) (Some (1, GeneratorExit)) (new_limiter 60) =
        (StreamResult x tr db, new_limiter 60)" "BackendCalled \<in> set tr"
      by (rule streamed_call [OF prep, where en = "(Serving.sample_env None)\<lparr> en_request_id := i \<rparr>"
          and mk = "new_completion (fw_lax sample_framework)" and answers = "\<lambda>_ _. Inl CancelledError"
          and streams = "\<lambda>_ _. ([sample_chunk], None)" and interrupt = "Some (1, GeneratorExit)"])
        (simp_all add: sample_prepared_def sample_metered_def put_db_def sample_app_def Serving.sample_env_def internal_request_def
          sample_request_def)
    have "db_of sample_metered = Some sample_store" "hs_limiter (put_db (Some s1) sample_metered) = new_limiter 60"
      by (simp_all add: sample_metered_def sample_state_def db_of_def put_db_def)
    with a c \<open>header _ _ = _\<close> show ?thesis
      by (simp add: chat_endpoint_def sample_world_def sample_framework_def request_env_of_def Let_def)
  qed
  define i where "i = (case sanitize (map_of ?hs ''x-request-id'') of Some v \<Rightarrow> v | None \<Rightarrow> ''0000'')"
  obtain st' where st': "chat_endpoint sample_framework sample_world JNull (sample_chat ?hs) (Some i) sample_metered =
      (Answer (stream_response i), st')" "BackendCalled \<in> set (hs_actions st')"
    using e by blast
  have "map_of ?hs ''content-length'' = None" by simp
  from sample_chat_run [OF this, of _ sample_metered] st' show thesis
    unfolding i_def [symmetric] Let_def application_def
    by (intro that) (simp_all add: exception_handlers_def application_def)
qed


end
