(* ===== verification/Secrecy.thy ===== *)
theory Secrecy
  imports Management
begin

text \<open>
  What the management plane gives away of the stored keys: the hashes of the keys influence no answer.
  \<open>without_hashes\<close> blots them out; every operation on the database commutes with it (\<open>blind\<close> handlers), and
  so does every sequence of management requests through all layers of the application.
\<close>

section \<open>A database without its hashes\<close>

definition blot :: "api_key \<Rightarrow> api_key" where
  "blot k = k\<lparr> k_hash := [] \<rparr>"

definition without_hashes :: "store \<Rightarrow> store" where
  "without_hashes s = s\<lparr> api_keys := map blot (api_keys s) \<rparr>"

lemma blot_sel [simp]:
  "k_id (blot k) = k_id k" "k_client_id (blot k) = k_client_id k" "k_name (blot k) = k_name k"
  "k_prefix (blot k) = k_prefix k" "k_created_at (blot k) = k_created_at k" "k_expires_at (blot k) = k_expires_at k"
  "k_revoked_at (blot k) = k_revoked_at k" "k_last_used_at (blot k) = k_last_used_at k" "blot (blot k) = blot k"
  "blot (k\<lparr> k_revoked_at := v \<rparr>) = (blot k)\<lparr> k_revoked_at := v \<rparr>"
  by (simp_all add: blot_def)

lemma without_hashes_sel [simp]:
  "users (without_hashes s) = users s" "clients (without_hashes s) = clients s"
  "allowed_models (without_hashes s) = allowed_models s" "usage_records (without_hashes s) = usage_records s"
  "api_keys (without_hashes s) = map blot (api_keys s)"
  "without_hashes (s\<lparr> users := us \<rparr>) = without_hashes s\<lparr> users := us \<rparr>"
  "without_hashes (s\<lparr> clients := cs \<rparr>) = without_hashes s\<lparr> clients := cs \<rparr>"
  "without_hashes (s\<lparr> allowed_models := ms \<rparr>) = without_hashes s\<lparr> allowed_models := ms \<rparr>"
  "without_hashes (s\<lparr> api_keys := ks \<rparr>) = without_hashes s\<lparr> api_keys := map blot ks \<rparr>"
  "without_hashes (without_hashes s) = without_hashes s"
  by (simp_all add: without_hashes_def o_def)

lemma queries_blind [simp]:
  "users_named n (without_hashes s) = users_named n s" "users_with_id i (without_hashes s) = users_with_id i s"
  "clients_with_id i (without_hashes s) = clients_with_id i s" "models_of_client i (without_hashes s) = models_of_client i s"
  "keys_with_id i (without_hashes s) = map blot (keys_with_id i s)"
  by (simp_all add: users_named_def users_with_id_def clients_with_id_def models_of_client_def keys_with_id_def
      filter_map o_def)

lemma one_or_none_map: "one_or_none (map f xs) = map_sum id (map_option f) (one_or_none xs)"
  by (cases xs rule: one_or_none.cases) simp_all

section \<open>The service\<close>

lemma get_blind [simp]:
  "get_user i (without_hashes s) = get_user i s" "get_client i (without_hashes s) = get_client i s"
  "get_client_allowed_models i (without_hashes s) = get_client_allowed_models i s"
  "list_users (without_hashes s) = list_users s" "list_clients u (without_hashes s) = list_clients u s"
  "client_out_of (without_hashes s) c = client_out_of s c"
  by (simp_all add: get_user_def get_client_def get_client_allowed_models_def list_users_def list_clients_def
      client_out_of_def)

lemma get_api_key_blind: "get_api_key i (without_hashes s) = map_sum id blot (get_api_key i s)"
  by (simp add: get_api_key_def one_or_none_map split: sum.split option.split)

lemma inserts_blind:
  "insert_user u (without_hashes s) = map_sum id without_hashes (insert_user u s)"
  "insert_client c (without_hashes s) = map_sum id without_hashes (insert_client c s)"
  "insert_allowed_model m (without_hashes s) = map_sum id without_hashes (insert_allowed_model m s)"
  by (simp_all add: insert_user_def insert_client_def insert_allowed_model_def)

lemma insert_key_blind:
  "map_sum id without_hashes (insert_key k (without_hashes s)) = map_sum id without_hashes (insert_key k s)"
  by (simp add: insert_key_def image_image)

lemma fold_res_commutes:
  assumes "\<And>x s. f x (g s) = map_sum id g (f x s)"
  shows "fold_res f xs (g s) = map_sum id g (fold_res f xs s)"
proof (induction xs arbitrary: s)
  case (Cons x xs)
  then show ?case by (simp add: assms split: sum.split)
qed simp

lemma set_allowed_models_blind:
  "set_allowed_models i ms (without_hashes s) = map_sum id without_hashes (set_allowed_models i ms s)"
proof -
  have "delete_allowed_models i (without_hashes s) = without_hashes (delete_allowed_models i s)"
    by (simp add: delete_allowed_models_def)
  moreover have "fold_res (\<lambda>mid. insert_allowed_model \<lparr> m_client_id = i, m_model_id = mid \<rparr>) xs (without_hashes s) =
      map_sum id without_hashes (fold_res (\<lambda>mid. insert_allowed_model \<lparr> m_client_id = i, m_model_id = mid \<rparr>) xs s)" for xs s
    by (rule fold_res_commutes) (rule inserts_blind(3))
  ultimately show ?thesis
    by (simp add: set_allowed_models_def Let_def split: option.split)
qed

lemma create_user_blind:
  "create_user n i now (without_hashes s) = map_sum id (apsnd without_hashes) (create_user n i now s)"
  by (simp add: create_user_def inserts_blind Let_def split: sum.split option.split)

lemma create_client_blind:
  "create_client ui n d al i now (without_hashes s) = map_sum id (apsnd without_hashes) (create_client ui n d al i now s)"
  by (simp add: create_client_def inserts_blind set_allowed_models_blind Let_def split: sum.split)

lemma create_api_key_blind:
  "map_sum id (apsnd without_hashes) (create_api_key h r ci n ex i now (without_hashes s)) =
   map_sum id (apsnd without_hashes) (create_api_key h r ci n ex i now s)"
proof -
  have "map_sum id (apsnd without_hashes) (case insert_key k (without_hashes s) of Inl e \<Rightarrow> Inl e | Inr s' \<Rightarrow> Inr (x, s')) =
      map_sum id (apsnd without_hashes) (case insert_key k s of Inl e \<Rightarrow> Inl e | Inr s' \<Rightarrow> Inr (x, s'))" for k and x :: "api_key \<times> string"
    using insert_key_blind [of k s]
    by (cases "insert_key k (without_hashes s)"; cases "insert_key k s") simp_all
  then show ?thesis
    by (simp add: create_api_key_def Let_def split: sum.split prod.split)
qed

lemma revoke_api_key_blind:
  "revoke_api_key i now (without_hashes s) = map_sum id (map_prod blot without_hashes) (revoke_api_key i now s)"
proof -
  have "update_key j (\<lambda>k. k\<lparr> k_revoked_at := v \<rparr>) (without_hashes s) =
      without_hashes (update_key j (\<lambda>k. k\<lparr> k_revoked_at := v \<rparr>) s)" for j v
    by (simp add: update_key_def o_def if_distrib cong: if_cong)
  then show ?thesis
    by (cases "get_api_key i s") (auto simp: revoke_api_key_def get_api_key_blind)
qed

lemma revoke_alike:
  assumes "without_hashes s = without_hashes t"
  shows "map_sum id (map_prod blot without_hashes) (revoke_api_key i now s) =
    map_sum id (map_prod blot without_hashes) (revoke_api_key i now t)"
  using revoke_api_key_blind [of i now s] revoke_api_key_blind [of i now t] assms by simp

lemma rotate_api_key_blind:
  "map_sum id (\<lambda>((k, tok, old), s). ((k, tok, map_option blot old), without_hashes s))
     (rotate_api_key h r i rv kid now (without_hashes s)) =
   map_sum id (\<lambda>((k, tok, old), s). ((k, tok, map_option blot old), without_hashes s))
     (rotate_api_key h r i rv kid now s)"
proof (cases "get_api_key i s")
  case (Inr old)
  let ?n = "k_name old @ '' (rotated)''"
  let ?c = "create_api_key h r (k_client_id old) ?n None kid now s"
  let ?d = "create_api_key h r (k_client_id old) ?n None kid now (without_hashes s)"
  note same = create_api_key_blind [of h r "k_client_id old" ?n None kid now s]
  show ?thesis
  proof (cases ?c)
    case (Inl e)
    then have "?d = Inl e" using same by (cases ?d) simp_all
    then show ?thesis using Inl Inr by (simp add: rotate_api_key_def get_api_key_blind)
  next
    case c: (Inr x)
    obtain k tok s1 where x: "x = ((k, tok), s1)" by (metis prod.collapse)
    obtain t1 where d: "?d = Inr ((k, tok), t1)" "without_hashes t1 = without_hashes s1"
      using same c x by (cases ?d) auto
    have rv: "map_sum id (map_prod blot without_hashes) (revoke_api_key (k_id old) now t1) =
        map_sum id (map_prod blot without_hashes) (revoke_api_key (k_id old) now s1)"
      by (rule revoke_alike [OF d(2)])
    show ?thesis
      using rv Inr c x d
      by (cases "revoke_api_key (k_id old) now t1"; cases "revoke_api_key (k_id old) now s1")
        (auto simp: rotate_api_key_def get_api_key_blind)
  qed
qed (simp add: rotate_api_key_def get_api_key_blind)

section \<open>The routes\<close>

abbreviation blind_db :: "store option \<Rightarrow> store option" where
  "blind_db \<equiv> map_option without_hashes"

lemma session_blind:
  "(\<And>s. f (without_hashes s) = f s) \<Longrightarrow> with_session (blind_db db) f = with_session db f"
  by (cases db) (simp_all add: with_session_def get_db_session_def)

lemma key_rows_blind: "map api_key_out_of (list_api_keys i (without_hashes s)) = map api_key_out_of (list_api_keys i s)"
proof -
  have out: "api_key_out_of (blot k) = api_key_out_of k" for k by (simp add: api_key_out_of_def)
  have sort: "order_by k_created_at (map blot ks) = map blot (order_by k_created_at ks)" for ks
    unfolding order_by_def by (rule sort_key_map) simp
  show ?thesis by (simp add: list_api_keys_def Let_def sort out filter_map o_def split: option.split)
qed

lemma usage_blind: "summarize k c a b now (without_hashes s) = summarize k c a b now s"
  by (simp add: summarize_def Let_def)

lemma rows_in_blind: "rows_in p (without_hashes s) = rows_in p s"
  by (simp add: rows_in_def split_beta)

lemma observability_blind:
  "obs_summary_of a b now m n (without_hashes s) = obs_summary_of a b now m n s"
  "latency_map a b now (without_hashes s) = latency_map a b now s"
  "recent_requests l a b now (without_hashes s) = recent_requests l a b now s"
  "client_breakdown a b now (without_hashes s) = client_breakdown a b now s"
  "model_breakdown a b now (without_hashes s) = model_breakdown a b now s"
  "backend_breakdown a b now (without_hashes s) = backend_breakdown a b now s"
  by (simp_all add: obs_summary_of_def latency_map_def recent_requests_def client_breakdown_def model_breakdown_def
      backend_breakdown_def breakdown_def rows_in_blind)

lemma readings_blind:
  "list_users_route (blind_db db) = list_users_route db"
  "list_clients_route u (blind_db db) = list_clients_route u db"
  "list_api_keys_route c (blind_db db) = list_api_keys_route c db"
  "get_client_policy i (blind_db db) = get_client_policy i db"
  "get_usage_summary sv c k now (blind_db db) = get_usage_summary sv c k now db"
  "get_client_usage sv i now (blind_db db) = get_client_usage sv i now db"
  "get_api_key_usage sv i now (blind_db db) = get_api_key_usage sv i now db"
  "observed wired (blind_db db) f = (case get_observability_service wired of
      Inl e \<Rightarrow> Inl e | Inr _ \<Rightarrow> with_session (blind_db db) (\<lambda>s. Inr (f s)))"
  unfolding list_users_route_def list_clients_route_def list_api_keys_route_def get_client_policy_def
    get_usage_summary_def get_client_usage_def get_api_key_usage_def observed_def
  by ((intro session_blind)?; simp add: session_blind key_rows_blind usage_blind one_or_none_map split: sum.split option.split)+

lemma observed_blind:
  "(\<And>s. f (without_hashes s) = f s) \<Longrightarrow> observed wired (blind_db db) f = observed wired db f"
  by (simp add: observed_def session_blind split: sum.split)

lemma observability_routes_blind:
  "observability_summary wired counts now (blind_db db) = observability_summary wired counts now db"
  "observability_latency wired now (blind_db db) = observability_latency wired now db"
  "observability_recent wired n now (blind_db db) = observability_recent wired n now db"
  "observability_clients wired now (blind_db db) = observability_clients wired now db"
  "observability_models wired now (blind_db db) = observability_models wired now db"
  "observability_backends wired now (blind_db db) = observability_backends wired now db"
  "prometheus_metrics wired adm now (blind_db db) = prometheus_metrics wired adm now db"
proof -
  show s: "observability_summary wired counts now (blind_db db) = observability_summary wired counts now db"
    for counts by (simp add: observability_summary_def observed_blind observability_blind split: prod.split)
  show l: "observability_latency wired now (blind_db db) = observability_latency wired now db"
    by (simp add: observability_latency_def observed_blind observability_blind)
  show "prometheus_metrics wired adm now (blind_db db) = prometheus_metrics wired adm now db"
    unfolding prometheus_metrics_def s l ..
qed (simp_all add: observability_recent_def observability_clients_def observability_models_def
      observability_backends_def observed_blind observability_blind)

lemma pages_blind:
  "admin_dashboard wired adm probe now (blind_db db) = admin_dashboard wired adm probe now db"
  "get_overview wired adm name url clock probe' router now (blind_db db) =
     get_overview wired adm name url clock probe' router now db"
proof -
  show "admin_dashboard wired adm probe now (blind_db db) = admin_dashboard wired adm probe now db"
    unfolding admin_dashboard_def
    by (cases "get_observability_service wired"; simp only: sum.case)
      (rule session_blind, simp only: observability_blind)
  show "get_overview wired adm name url clock probe' router now (blind_db db) =
     get_overview wired adm name url clock probe' router now db"
    unfolding get_overview_def
    by (cases "get_observability_service wired"; simp only: sum.case;
        cases "overview_backends name url clock probe' router"; simp only: sum.case)
      (rule session_blind, simp only: observability_blind)
qed

lemma writings_blind_Some:
  "map_sum id (apsnd without_hashes) (create_user_route n i now (Some (without_hashes s))) =
     map_sum id (apsnd without_hashes) (create_user_route n i now (Some s))"
  "map_sum id (apsnd without_hashes) (create_client_route b i now (Some (without_hashes s))) =
     map_sum id (apsnd without_hashes) (create_client_route b i now (Some s))"
  "map_sum id (apsnd without_hashes) (create_api_key_route h r kb i now (Some (without_hashes s))) =
     map_sum id (apsnd without_hashes) (create_api_key_route h r kb i now (Some s))"
  "map_sum id (apsnd without_hashes) (revoke_api_key_route i now (Some (without_hashes s))) =
     map_sum id (apsnd without_hashes) (revoke_api_key_route i now (Some s))"
  "map_sum id (apsnd without_hashes) (rotate_api_key_route h r i rv kid now (Some (without_hashes s))) =
     map_sum id (apsnd without_hashes) (rotate_api_key_route h r i rv kid now (Some s))"
  "map_sum id (apsnd without_hashes) (update_client_policy i pb stamp (Some (without_hashes s))) =
     map_sum id (apsnd without_hashes) (update_client_policy i pb stamp (Some s))"
proof -
  have session: "with_session (Some s) f = f s" for s and f :: "store \<Rightarrow> exn + 'z"
    by (simp add: with_session_def get_db_session_def)
  show "map_sum id (apsnd without_hashes) (create_user_route n i now (Some (without_hashes s))) =
     map_sum id (apsnd without_hashes) (create_user_route n i now (Some s))"
    by (cases "create_user n i now s") (auto simp: create_user_route_def session create_user_blind)
  show "map_sum id (apsnd without_hashes) (create_client_route b i now (Some (without_hashes s))) =
     map_sum id (apsnd without_hashes) (create_client_route b i now (Some s))"
    by (cases "create_client (cl_user_id b) (cl_name b) (cl_description b) (cl_allowed_models b) i now s")
      (auto simp: create_client_route_def session create_client_blind)
  show "map_sum id (apsnd without_hashes) (create_api_key_route h r kb i now (Some (without_hashes s))) =
     map_sum id (apsnd without_hashes) (create_api_key_route h r kb i now (Some s))"
    using create_api_key_blind [of h r "kc_client_id kb" "kc_name kb" "kc_expires_at kb" i now s]
    by (cases "create_api_key h r (kc_client_id kb) (kc_name kb) (kc_expires_at kb) i now s";
        cases "create_api_key h r (kc_client_id kb) (kc_name kb) (kc_expires_at kb) i now (without_hashes s)")
      (auto simp: create_api_key_route_def session)
  have out: "api_key_out_of (blot k) = api_key_out_of k" for k by (simp add: api_key_out_of_def)
  show "map_sum id (apsnd without_hashes) (revoke_api_key_route i now (Some (without_hashes s))) =
     map_sum id (apsnd without_hashes) (revoke_api_key_route i now (Some s))"
    by (cases "revoke_api_key i now s") (auto simp: revoke_api_key_route_def session revoke_api_key_blind out)
  have old: "map_option k_id o1 = map_option k_id o2" if "map_option blot o1 = map_option blot o2" for o1 o2
    using arg_cong [OF that, of "map_option k_id"] by (simp add: option.map_comp o_def)
  show "map_sum id (apsnd without_hashes) (rotate_api_key_route h r i rv kid now (Some (without_hashes s))) =
     map_sum id (apsnd without_hashes) (rotate_api_key_route h r i rv kid now (Some s))"
    using rotate_api_key_blind [of h r i rv kid now s]
    by (cases "rotate_api_key h r i rv kid now s"; cases "rotate_api_key h r i rv kid now (without_hashes s)")
      (auto simp: rotate_api_key_route_def session dest!: old)
  have "update_client i f (without_hashes s) = without_hashes (update_client i f s)" for f
    by (simp add: update_client_def)
  then show "map_sum id (apsnd without_hashes) (update_client_policy i pb stamp (Some (without_hashes s))) =
     map_sum id (apsnd without_hashes) (update_client_policy i pb stamp (Some s))"
    by (simp add: update_client_policy_def session Let_def split: sum.split option.split)
qed

lemma writings_blind:
  assumes "\<And>s. map_sum id (apsnd without_hashes) (f (Some (without_hashes s))) = map_sum id (apsnd without_hashes) (f (Some s))"
  shows "map_sum id (apsnd without_hashes) (f (blind_db db)) = map_sum id (apsnd without_hashes) (f db)"
  using assms by (cases db) simp_all

section \<open>Handlers and layers\<close>

definition blinded :: "'b http_state \<Rightarrow> 'b http_state" where
  "blinded st = put_db (blind_db (db_of st)) st"

definition blind :: "'b handler \<Rightarrow> bool" where
  \<comment> \<open>neither the answer nor the rest of the new state depends on the hashes\<close>
  "blind f \<longleftrightarrow> (\<forall>st. apsnd blinded (f (blinded st)) = apsnd blinded (f st))"

lemma blinded_sel [simp]:
  "db_of (blinded st) = blind_db (db_of st)" "router_of (blinded st) = router_of st"
  "app_usage (hs_app (blinded st)) = app_usage (hs_app st)" "app_backend (hs_app (blinded st)) = app_backend (hs_app st)"
  "put_router ro (blinded st) = blinded (put_router ro st)" "blinded (put_db db st) = put_db (blind_db db) st"
  "blinded (blinded st) = blinded st" "put_db db (blinded st) = put_db db st"
  by (simp_all add: blinded_def put_db_def db_of_def router_of_def put_router_def option.map_comp o_def)

lemma blindD: "blind f \<Longrightarrow> apsnd blinded (f (blinded st)) = apsnd blinded (f st)"
  by (simp add: blind_def)

lemma blind_const: "blind (Pair res)"
  by (simp add: blind_def)

lemma blind_reading: "(\<And>db. f (blind_db db) = f db) \<Longrightarrow> blind (reading render f)"
  by (simp add: blind_def reading_def split: sum.split)

lemma blind_writing:
  assumes "\<And>s. map_sum id (apsnd without_hashes) (f (Some (without_hashes s))) = map_sum id (apsnd without_hashes) (f (Some s))"
  shows "blind (writing code render f)"
  unfolding blind_def
proof (rule allI)
  fix st
  show "apsnd blinded (writing code render f (blinded st)) = apsnd blinded (writing code render f st)"
    using writings_blind [OF assms, of "db_of st"]
    by (cases "f (blind_db (db_of st))"; cases "f (db_of st)") (auto simp: writing_def)
qed

lemma blind_input: "(\<And>x. blind (h x)) \<Longrightarrow> blind (with_input i h)"
  by (simp add: blind_def with_input_def split: sum.split)

lemma blind_probing: "apsnd blinded (probing res ro (blinded st)) = apsnd blinded (probing res ro st)"
  by (simp add: probing_def split: sum.split)

lemmas blind_intros = blind_const blind_input blind_reading blind_writing

lemma account_blind: "blind (account_handler sc w op e ps body req)"
  unfolding account_handler_def
  by (cases e; simp; intro blind_intros; simp add: readings_blind writings_blind_Some)

lemma usage_handler_blind: "blind (usage_handler sc w e ps req)"
  unfolding blind_def usage_handler_def Let_def
  by (cases e) (simp_all add: reading_def readings_blind split: sum.split)

lemma observability_handler_blind: "blind (observability_handler sc w op e req)"
  unfolding observability_handler_def Let_def
  by (cases e; simp; intro blind_intros; simp add: observability_routes_blind)

lemma runtime_blind: "blind (runtime_handler sc se w op e body)"
  unfolding blind_def runtime_handler_def Let_def
  by (cases e) (simp_all add: reading_def with_input_def blind_probing pages_blind default_probe_def split: sum.split)

lemma health_blind: "blind (health_handler se op e rid)"
  unfolding blind_def health_handler_def Let_def
  by (cases e) (simp_all add: default_probe_def option.map_comp o_def split: sum.split prod.split)

lemma management_blind: "blind (management_handler sc se w op e ps body req rid)"
  by (simp add: management_handler_def account_blind usage_handler_blind observability_handler_blind runtime_blind health_blind)

definition management_request :: "'b http_state framework \<Rightarrow> http_request \<Rightarrow> bool" where
  "management_request fw req \<longleftrightarrow>
     (\<exists>r ps. fw_resolve fw app_routes req = Some (r, ps) \<and> rt_guard r \<in> {RequireAdmin, NoGuard})"

lemma management_request_method:
  assumes "framework_ok fw" "management_request fw req"
  shows "hq_method req \<noteq> ''OPTIONS''"
proof -
  obtain r ps where res: "fw_resolve fw app_routes req = Some (r, ps)"
    using assms(2) by (auto simp: management_request_def)
  then have r: "r \<in> set app_routes" "rt_method r = hq_method req"
    using assms(1) by (auto simp: framework_ok_def)
  have "list_all (\<lambda>r. rt_method r \<noteq> ''OPTIONS'') app_routes" by (simp add: route_defs)
  with r show ?thesis by (auto simp: list_all_iff)
qed

lemma route_blind:
  assumes "management_request fw req"
  shows "apsnd blinded (route_request fw se w (management_handler sc se w op) req rid (blinded st)) =
    apsnd blinded (route_request fw se w (management_handler sc se w op) req rid st)"
proof -
  obtain r ps where r: "fw_resolve fw app_routes req = Some (r, ps)" "rt_guard r \<in> {RequireAdmin, NoGuard}"
    using assms by (auto simp: management_request_def)
  have "apsnd blinded (run_route fw se w (management_handler sc se w op) r ps body req rid (blinded st)) =
      apsnd blinded (run_route fw se w (management_handler sc se w op) r ps body req rid st)" for body
    using r(2) by (auto simp: run_route_def blindD [OF management_blind] split: sum.split endpoint.split)
  then have "map_prod f blinded (run_route fw se w (management_handler sc se w op) r ps body req rid (blinded st)) =
      map_prod f blinded (run_route fw se w (management_handler sc se w op) r ps body req rid st)" for f :: "endpoint_result \<Rightarrow> exn + response" and body
    by (metis apfst_def apsnd_def comp_id id_comp map_prod.comp map_prod.compositionality o_apply)
  then show ?thesis
    by (simp add: route_request_def r(1) apsnd_def apfst_def map_prod.compositionality split: sum.split)
qed

section \<open>What the plane gives away\<close>

definition content :: "exn + response \<Rightarrow> exn + int \<times> json" where
  "content = map_sum id (\<lambda>r. (rsp_status r, rsp_payload r))"

lemma content_headers [simp]:
  "content (map_sum id (\<lambda>r. r\<lparr> rsp_headers := f (rsp_headers r) \<rparr>) x) = content x"
  "content (map_sum id (\<lambda>r. r\<lparr> rsp_headers := rsp_headers r @ hs \<rparr>) x) = content x"
  by (cases x; simp add: content_def)+

lemma application_content:
  assumes "framework_ok fw" "hq_method req \<noteq> ''OPTIONS''"
  obtains rid big where "\<And>st. map_prod content blinded (application fw sc se w op req bound st) =
    (if oversize se req then (big, blinded st)
     else map_prod content blinded (route_request fw se w (management_handler sc se w op) req (Some rid) st))"
proof -
  let ?route = "route_request fw se w (management_handler sc se w op)"
  let ?rid = "case sanitize (header ''x-request-id'' req) of Some v \<Rightarrow> v | None \<Rightarrow> wo_fresh_id w"
  define refused where "refused = fst (request_size_middleware (se_max_request_body_bytes se)
    (\<lambda>_ _ st. (Inl GeneratorExit, st)) req (Some ?rid) ())"
  have "map_prod content blinded (application fw sc se w op req bound st) =
    (if oversize se req then (content refused, blinded st) else map_prod content blinded (?route req (Some ?rid) st))" for st
  proof -
    obtain res st' where run: "application fw sc se w op req bound st = (res, st')" by (metis surj_pair)
    obtain rid x where x: "request_size_middleware (se_max_request_body_bytes se)
        (behind_cors fw se w (management_handler sc se w op)) req (Some rid) st = (x, st')"
      "res = map_sum id (\<lambda>r. r\<lparr> rsp_headers := dict_set ''x-request-id'' rid (rsp_headers r) \<rparr>) x" "rid = ?rid"
      using run unfolding application_def create_app_layers [OF assms(1)] by (rule id_layer)
    have c: "content res = content x" by (simp add: x(2))
    show ?thesis
    proof (cases "oversize se req")
      case True
      then show ?thesis using x(1,3) c unfolding run by (auto simp: size_layer refused_def)
    next
      case False
      then have "behind_cors fw se w (management_handler sc se w op) req (Some rid) st = (x, st')"
        using x(1) by (simp add: size_layer)
      moreover obtain hs where "behind_cors fw se w (management_handler sc se w op) req (Some rid) st =
          apfst (map_sum id (\<lambda>r. r\<lparr> rsp_headers := rsp_headers r @ hs \<rparr>)) (?route req (Some rid) st)"
        by (rule behind_cors_cases [OF assms(1), of req se w "management_handler sc se w op" "Some rid" st])
          (use assms(2) in simp)
      ultimately show ?thesis
        using False c x(3) by (cases "?route req (Some rid) st") (simp add: run)
    qed
  qed
  then show thesis by (rule that)
qed

fun served ::
  "'b http_state framework \<Rightarrow> schemas \<Rightarrow> settings
     \<Rightarrow> ('b world \<times> 'b operations \<times> http_request \<times> string option) list \<Rightarrow> 'b http_state
     \<Rightarrow> (exn + response) list \<times> 'b http_state" where
  \<comment> \<open>the responses to requests that come one after the other\<close>
  "served fw sc se [] st = ([], st)"
| "served fw sc se ((w, op, req, bound) # xs) st =
     (case application fw sc se w op req bound st of
        (res, st') \<Rightarrow> (case served fw sc se xs st' of (rs, st'') \<Rightarrow> (res # rs, st'')))"

lemma application_blind:
  assumes "framework_ok fw" "management_request fw req" "blinded st = blinded st'"
  shows "map_prod content blinded (application fw sc se w op req bound st) =
    map_prod content blinded (application fw sc se w op req bound st')"
proof -
  let ?route = "route_request fw se w (management_handler sc se w op)"
  obtain rid big where app: "\<And>st. map_prod content blinded (application fw sc se w op req bound st) =
      (if oversize se req then (big, blinded st) else map_prod content blinded (?route req (Some rid) st))"
    by (rule application_content [OF assms(1) management_request_method [OF assms(1,2)]]) blast
  have "apsnd blinded (?route req (Some rid) st) = apsnd blinded (?route req (Some rid) st')"
    using route_blind [OF assms(2), of se w sc op "Some rid" st] route_blind [OF assms(2), of se w sc op "Some rid" st']
    by (simp add: assms(3))
  then have "map_prod content blinded (?route req (Some rid) st) = map_prod content blinded (?route req (Some rid) st')"
    by (cases "?route req (Some rid) st"; cases "?route req (Some rid) st'") simp
  then show ?thesis by (simp add: app assms(3))
qed

text \<open>C6: The hashes of keys are confidential: two applications whose states differ in nothing but the hashes
  of their stored keys give the same answers to every sequence of requests to the management plane and
  to the open routes, whatever the requests read, create, revoke or rotate.\<close>

theorem hashes_hidden:
  assumes "framework_ok fw" "\<forall>(w, op, req, bound)\<in>set reqs. management_request fw req" "blinded st = blinded st'"
  shows "map content (fst (served fw sc se reqs st)) = map content (fst (served fw sc se reqs st'))"
  using assms(2,3)
proof (induction reqs arbitrary: st st')
  case (Cons x reqs)
  obtain w op req bound where x: "x = (w, op, req, bound)" by (metis prod.collapse)
  obtain res st1 res' st1' where run: "application fw sc se w op req bound st = (res, st1)"
    "application fw sc se w op req bound st' = (res', st1')" by (metis surj_pair)
  have "content res = content res'" "blinded st1 = blinded st1'"
    using application_blind [OF assms(1) _ Cons.prems(2), of req sc se w op bound] Cons.prems(1)
    by (simp_all add: x run)
  moreover have "map content (fst (served fw sc se reqs st1)) = map content (fst (served fw sc se reqs st1'))"
    by (rule Cons.IH) (use Cons.prems(1) \<open>blinded st1 = blinded st1'\<close> in auto)
  ultimately show ?case by (simp add: x run split_beta)
qed simp

section \<open>Instances\<close>

theorem hashes_hidden_witness:
  "let reqs = [(sample_world, sample_operations, sample_http ''GET'' ''/admin/api-keys'' [(''x-admin-secret'', ''s'')], None)];
       other = sample_store\<lparr> api_keys := map (\<lambda>k. k\<lparr> k_hash := ''y'' \<rparr>) (api_keys sample_store) \<rparr>
   in other \<noteq> sample_store \<and>
     map content (fst (served sample_admin_framework sample_schemas sample_settings reqs (sample_state other))) =
     map content (fst (served sample_admin_framework sample_schemas sample_settings reqs (sample_state sample_store)))"
proof -
  let ?get = "sample_http ''GET'' ''/admin/api-keys'' [(''x-admin-secret'', ''s'')]"
  let ?reqs = "[(sample_world, sample_operations, ?get, None)]"
  let ?other = "sample_store\<lparr> api_keys := map (\<lambda>k. k\<lparr> k_hash := ''y'' \<rparr>) (api_keys sample_store) \<rparr>"
  have "fw_resolve sample_admin_framework app_routes ?get = Some (\<lparr> rt_endpoint = ListApiKeys, rt_method = ''GET'',
      rt_path = ''/admin/api-keys'', rt_guard = RequireAdmin \<rparr>, [''k1''])"
    by (simp add: sample_admin_framework_def sample_http_def route_defs)
  then have m: "\<forall>(w :: unit world, op :: unit operations, req, bound :: string option)\<in>set ?reqs.
      management_request sample_admin_framework req"
    by (simp add: management_request_def)
  have b: "blinded (sample_state ?other) = blinded (sample_state sample_store)"
    by (simp add: blinded_def put_db_def db_of_def sample_state_def blot_def sample_store_def)
  have "?other \<noteq> sample_store" by (simp add: sample_store_def empty_store_def)
  with hashes_hidden [OF sample_admin_framework_ok m b, of sample_schemas sample_settings] show ?thesis
    by (simp add: Let_def)
qed

end
