(* ===== verification/StoredValues.thy ===== *)
theory StoredValues
  imports Management
begin

text \<open>
  What the schemas of the management plane guarantee of the stored rows, whatever requests the application
  serves: the names of users and clients fit their columns and no limit is negative.  The names of keys are
  not among it, since a rotation makes a name of its own.
\<close>

section \<open>The guarantee\<close>

definition limit_ok :: "int option \<Rightarrow> bool" where
  "limit_ok v \<longleftrightarrow> (case v of None \<Rightarrow> True | Some n \<Rightarrow> 0 \<le> n)"

definition client_values_ok :: "client \<Rightarrow> bool" where
  "client_values_ok c \<longleftrightarrow> valid_name (c_name c) \<and> limit_ok (c_rpm c) \<and> limit_ok (c_rpd c) \<and> limit_ok (c_tpd c)"

definition values_ok :: "store \<Rightarrow> bool" where
  "values_ok s \<longleftrightarrow> (\<forall>u\<in>set (users s). valid_name (u_name u)) \<and> (\<forall>c\<in>set (clients s). client_values_ok c)"

definition rows :: "store option \<Rightarrow> (user list \<times> client list) option" where
  "rows db = map_option (\<lambda>s. (users s, clients s)) db"

definition db_values_ok :: "store option \<Rightarrow> bool" where
  "db_values_ok db \<longleftrightarrow> (\<forall>s. db = Some s \<longrightarrow> values_ok s)"

lemma same_rows_ok: "rows db' = rows db \<Longrightarrow> db_values_ok db \<Longrightarrow> db_values_ok db'"
  by (cases db; cases db') (simp_all add: rows_def db_values_ok_def values_ok_def)

section \<open>The management plane\<close>

lemma stripped_name: "valid_name n \<Longrightarrow> py_strip n \<noteq> [] \<Longrightarrow> valid_name (py_strip n)"
proof -
  have "length (dropWhile p xs) \<le> length xs" for p and xs :: string by (rule length_dropWhile_le)
  then have "length (py_strip n) \<le> length n" by (simp add: py_defs) (metis length_rev order_trans)
  then show "valid_name n \<Longrightarrow> py_strip n \<noteq> [] \<Longrightarrow> valid_name (py_strip n)"
    by (cases "py_strip n") (auto simp: valid_name_def)
qed

lemma allowed_models_rows:
  assumes "set_allowed_models i al s = Inr s'"
  shows "users s' = users s \<and> clients s' = clients s"
proof -
  have "users t = users s \<and> clients t = clients s"
    if "fold_res (\<lambda>mid. insert_allowed_model \<lparr> m_client_id = i, m_model_id = mid \<rparr>) ms (delete_allowed_models i s) = Inr t" for ms t
    by (rule fold_res_invariant [OF that])
      (auto simp: delete_allowed_models_def insert_allowed_model_def split: if_splits)
  then show ?thesis
    using assms by (auto simp: set_allowed_models_def Let_def delete_allowed_models_def split: option.splits if_splits)
qed

lemma create_user_values:
  assumes "create_user n i now s = Inr (u, s')" "valid_name n" "values_ok s"
  shows "values_ok s'"
  using assms stripped_name [of n]
  by (auto simp: create_user_Inr insert_user_def values_ok_def split: if_splits)

lemma create_client_values:
  assumes "create_client ui n d al i now s = Inr (c, s')" "valid_name n" "values_ok s"
  shows "values_ok s'"
proof -
  obtain u t where n: "py_strip n \<noteq> []" and c: "c_name c = py_strip n" "c_rpm c = None" "c_rpd c = None" "c_tpd c = None"
    and t: "insert_client c s = Inr t" "set_allowed_models i al t = Inr s'"
    using assms(1) unfolding create_client_Inr by fastforce
  have "client_values_ok c" using stripped_name [OF assms(2) n] by (simp add: client_values_ok_def limit_ok_def c)
  then have "values_ok t" using t(1) assms(3) by (auto simp: insert_client_def values_ok_def split: if_splits)
  then show ?thesis using allowed_models_rows [OF t(2)] by (simp add: values_ok_def)
qed

lemma create_api_key_rows:
  "create_api_key h r ci n ex i now s = Inr (kt, s') \<Longrightarrow> users s' = users s \<and> clients s' = clients s"
  by (cases kt) (auto simp: create_api_key_Inr insert_key_def split: if_splits)

lemma revoke_api_key_rows: "revoke_api_key i now s = Inr (k, s') \<Longrightarrow> users s' = users s \<and> clients s' = clients s"
  by (auto simp: revoke_api_key_Inr update_key_def split: if_splits)

lemma rotate_api_key_rows:
  "rotate_api_key h r i rv kid now s = Inr (x, s') \<Longrightarrow> users s' = users s \<and> clients s' = clients s"
  by (cases x) (auto simp: rotate_api_key_Inr dest!: create_api_key_rows revoke_api_key_rows split: if_splits)

lemma policy_values:
  assumes "update_client_policy i b stamp (Some s) = Inr (out, s')" "valid_policy_update b" "values_ok s"
  shows "values_ok s'"
proof -
  let ?f = "\<lambda>c. apply_policy_update b c\<lparr> c_updated_at := stamp (c_updated_at c) \<rparr>"
  have s': "s' = update_client i ?f s" using update_client_policy_Inr [OF assms(1)] by metis
  have "client_values_ok (?f c)" if "client_values_ok c" for c
    using that assms(2)
    by (auto simp: client_values_ok_def limit_ok_def valid_policy_update_def split: option.splits)
  then show ?thesis using assms(3) by (auto simp: s' update_client_def values_ok_def)
qed

abbreviation keeps_values :: "store \<Rightarrow> store \<Rightarrow> bool" where
  "keeps_values s s' \<equiv> values_ok s \<longrightarrow> values_ok s'"

lemma with_session_Inr: "with_session db f = Inr x \<longleftrightarrow> (\<exists>s. db = Some s \<and> f s = Inr x)"
  by (cases db) (simp_all add: with_session_def get_db_session_def)

lemma same_values: "users s' = users s \<and> clients s' = clients s \<Longrightarrow> keeps_values s s'"
  by (simp add: values_ok_def)

text \<open>A write of the management plane is one of the service's, on the session of the request.\<close>

lemma written:
  assumes "with_session db (\<lambda>s. case g s of Inl e \<Rightarrow> Inl e | Inr y \<Rightarrow> q s y) = Inr (x, s')"
    "\<And>s y. g s = Inr y \<Longrightarrow> q s y = Inr (x, s') \<Longrightarrow> keeps_values s s'"
  shows "\<exists>s. db = Some s \<and> keeps_values s s'"
proof -
  obtain s where s: "db = Some s" "(case g s of Inl e \<Rightarrow> Inl e | Inr y \<Rightarrow> q s y) = Inr (x, s')"
    using assms(1) unfolding with_session_Inr by blast
  obtain y where y: "g s = Inr y" using s(2) by (cases "g s") auto
  then have "q s y = Inr (x, s')" using s(2) by simp
  with y show ?thesis using s(1) assms(2) by blast
qed

lemma create_user_keeps:
  assumes "create_user_route n i now db = Inr (uo, s')" "valid_name n"
  shows "\<exists>s. db = Some s \<and> keeps_values s s'"
  using assms(1) unfolding create_user_route_def
  by (rule written) (use create_user_values assms(2) in \<open>auto split: prod.splits\<close>)

lemma create_client_keeps:
  assumes "create_client_route b i now db = Inr (co, s')" "valid_client_create b"
  shows "\<exists>s. db = Some s \<and> keeps_values s s'"
  using assms(1) unfolding create_client_route_def
  by (rule written) (use create_client_values assms(2) in \<open>auto simp: valid_client_create_def split: prod.splits\<close>)

lemma create_key_keeps: "create_api_key_route h r b i now db = Inr (ko, s') \<Longrightarrow> \<exists>s. db = Some s \<and> keeps_values s s'"
  unfolding create_api_key_route_def
  by (erule written) (use same_values [OF create_api_key_rows] in \<open>auto split: prod.splits\<close>)

lemma revoke_keeps: "revoke_api_key_route i now db = Inr (ko, s') \<Longrightarrow> \<exists>s. db = Some s \<and> keeps_values s s'"
  unfolding revoke_api_key_route_def
  by (erule written) (use same_values [OF revoke_api_key_rows] in \<open>auto split: prod.splits\<close>)

lemma rotate_keeps: "rotate_api_key_route h r kid rv i now db = Inr (ko, s') \<Longrightarrow> \<exists>s. db = Some s \<and> keeps_values s s'"
  unfolding rotate_api_key_route_def
  by (erule written) (use same_values [OF rotate_api_key_rows] in \<open>auto split: prod.splits\<close>)

lemma policy_keeps:
  assumes "update_client_policy i b stamp db = Inr (po, s')" "valid_policy_update b"
  shows "\<exists>s. db = Some s \<and> keeps_values s s'"
proof -
  obtain s where "db = Some s" using assms(1) by (cases db) (simp_all add: update_client_policy_def with_session_def get_db_session_def)
  then show ?thesis using policy_values assms by blast
qed

lemma account_keeps_values:
  assumes "schemas_ok sc"
  shows "touched_by keeps_values st (snd (account_handler sc w op e ps body req st))"
  unfolding account_handler_def
  by (cases e; simp; intro touched_by_intros)
    (use assms in \<open>auto simp: schemas_ok_def intro: create_user_keeps create_client_keeps create_key_keeps revoke_keeps
      rotate_keeps policy_keeps\<close>)

lemma managed_keeps_values:
  assumes "managed sc se w op req st st'" "schemas_ok sc"
  shows "touched_by keeps_values st st'"
  using assms unfolding managed_def
  by (auto simp: management_handler_def health_touches usage_touches observability_touches runtime_touches account_keeps_values)

section \<open>The data plane\<close>

lemma touched_rows: "rows (Some (touched ok now i s)) = rows (Some s)"
  by (simp add: rows_def touched_def update_key_def)

lemma orm_rows: "authenticate_with_orm h ok now hdr db = (r, db') \<Longrightarrow> rows db' = rows db"
  by (drule authenticate_with_orm_store) (auto simp: touched_rows)

lemma request_rows:
  assumes "authenticate_request h ok now hdr db = (r, db')"
  shows "rows db' = rows db"
proof (cases db)
  case None
  then show ?thesis using assms by (simp add: authenticate_request_def get_db_session_def)
next
  case (Some s)
  show ?thesis using authenticate_store [OF assms [unfolded Some]] by (auto simp: Some touched_rows)
qed

lemma usage_rows: "rows (snd (finish_usage a i k cl args)) = rows (app_db a)"
proof -
  have "users s' = users s \<and> clients s' = clients s" if "record_usage i (Some k) (Some cl) args s = Inr (r, s')" for s r s'
    using record_usage_Inr [OF that] by (auto simp: insert_usage_def split: if_splits)
  then show ?thesis
    by (auto simp: finish_usage_def store_usage_def get_db_session_for_usage_def rows_def split: option.splits sum.splits)
qed

lemma chat_rows:
  assumes "chat_endpoint fw w body req rid st = (res, st')"
  shows "rows (db_of st') = rows (db_of st)"
proof -
  obtain x db where auth: "rows db = rows (db_of st)"
    and st': "db_of st' = db \<or> (\<exists>i k cl args. db_of st' = snd (finish_usage (hs_app (put_db db st)) i k cl args))"
    using chat_endpoint_store [OF assms] orm_rows by metis
  have "rows (snd (finish_usage (hs_app (put_db db st)) i k cl args)) = rows db" for i k cl args
    by (simp add: usage_rows) (simp add: put_db_def)
  then show ?thesis using auth st' by auto
qed

section \<open>The application\<close>

lemma application_keeps_values:
  assumes "framework_ok fw" "schemas_ok sc" "application fw sc se w op req bound st = (res, st')"
  shows "db_values_ok (db_of st) \<longrightarrow> db_values_ok (db_of st')"
proof (cases rule: application_cases [OF assms(1,3)])
  case 1
  from managed_keeps_values [OF this assms(2)] show ?thesis
    by (auto simp: touched_by_def db_values_ok_def put_router_def put_db_def db_of_def)
next
  case (2 o' db)
  then show ?thesis using same_rows_ok [OF request_rows] by (simp add: put_db_def db_of_def)
next
  case (3 rid body o')
  then show ?thesis using same_rows_ok [OF chat_rows] by blast
qed

text \<open>C25: The stored rows keep the types that the schemas declare: whatever requests the application serves, one
  after the other and whatever each of them meets, users and clients have names of 1 to 255 characters
  and no client's limit is negative, given that pydantic accepts no body against its schema; so no limit
  ever turns into one that admits nothing by its sign, and no name is cut by its column.\<close>

theorem stored_values_valid:
  assumes "framework_ok fw" "schemas_ok sc" "db_values_ok (db_of st)" "app_run fw sc se h st st'"
  shows "db_values_ok (db_of st')"
  using assms(4,3)
  by (induction rule: app_run.induct) (use application_keeps_values [OF assms(1,2)] in blast)+

lemma sample_values: "db_values_ok (db_of (sample_state sample_store))"
  by (simp add: db_values_ok_def db_of_def sample_state_def values_ok_def sample_store_def empty_store_def
      client_values_ok_def limit_ok_def valid_name_def)

theorem stored_values_valid_witness:
  "\<exists>rsp st'. application sample_admin_framework sample_schemas sample_settings sample_world sample_operations
      (sample_http ''POST'' ''/admin/api-keys/{api_key_id}/revoke'' [(''x-admin-secret'', ''s'')]) None (sample_state sample_store) = (rsp, st') \<and>
     db_values_ok (db_of st')"
proof -
  let ?app = "application sample_admin_framework sample_schemas sample_settings sample_world sample_operations"
  obtain rsp st' where run: "?app (sample_http ''POST'' ''/admin/api-keys/{api_key_id}/revoke'' [(''x-admin-secret'', ''s'')]) None
      (sample_state sample_store) = (rsp, st')" by (metis surj_pair)
  have "app_run sample_admin_framework sample_schemas sample_settings (wo_hash sample_world) (sample_state sample_store) st'"
    by (rule run_more [OF run_none refl run])
  from stored_values_valid [OF sample_admin_framework_ok sample_schemas_ok sample_values this] run show ?thesis by blast
qed

text \<open>The names of keys are not among them: a rotation writes a name that no schema has seen.\<close>

lemma rotation_outgrows_name:
  assumes "rotate_api_key h r kid rv i now s = Inr ((k, t, old), s')" "get_api_key kid s = Inr k0"
    "255 < length (py_strip (k_name k0 @ '' (rotated)''))"
  shows "\<not> valid_name (k_name k)"
proof -
  obtain s1 where "create_api_key h r (k_client_id k0) (k_name k0 @ '' (rotated)'') None i now s = Inr ((k, t), s1)"
    using assms(1,2) by (auto simp: rotate_api_key_Inr)
  then show ?thesis using assms(3) by (auto simp: create_api_key_Inr valid_name_def)
qed

end
