(* ===== verification/Spec2Isabelle.thy ===== *)
theory Spec2Isabelle
  imports Admission_Liveness RateLimit ApiKeys AdminService Auth Usage RoutingConfig ModelRegistry
    Backends Router Sse LlamaCpp Wire Chat Serving Edge Observability AdminApi AdminStatus Config
    Health Database Cli Lifecycle Dashboard System Responses Gateway Migrations
    AdminJson Management Metering Secrecy StoredValues
begin

text \<open>
  A verification development for Syn, an authenticating gateway in front of local inference servers.

  \<^bold>\<open>The program.\<close>  A client sends an OpenAI-style chat completion with an API key.  The edge gives
  the request an id and bounds its body (\<open>core/request_id.py\<close>, \<open>core/request_size.py\<close>), authentication
  finds the key's row (\<open>core/auth.py\<close>, \<open>core/api_keys.py\<close>), the usage service checks the rate limit and
  the daily quotas (\<open>services/usage.py\<close>, \<open>core/policy.py\<close>, \<open>core/rate_limit.py\<close>), routing turns the
  model's name into a backend (\<open>routing/\<close>), the admission controller gives the request one of a few
  slots, with a bounded queue (\<open>core/admission.py\<close>), the backend answers at once or as a stream of
  events (\<open>backends/llama_cpp.py\<close>, \<open>core/sse.py\<close>), and the handler writes a usage record whatever
  happened (\<open>api/chat.py\<close>).  Beside this data plane there are a management plane (\<open>api/admin.py\<close>,
  \<open>services/admin.py\<close>, \<open>services/observability.py\<close>), the health endpoints (\<open>api/health.py\<close>), a CLI
  (\<open>cli.py\<close>) and the lifecycle (\<open>main.py\<close>).

  \<^bold>\<open>The theories\<close>, in the order of their imports; all paths are under \<open>src/app\<close>.
    \<^item> \<open>Prelude\<close>: Python's strings, dictionaries, numbers and JSON as far as the sources use them, folds
      over results (\<open>fold_res\<close>, \<open>map_res\<close>) and the collections \<open>py_defs\<close> and \<open>res_simps\<close>.
    \<^item> \<open>Errors\<close>: the exception classes of \<open>core/errors.py\<close>; every function that may raise returns
      \<open>exn + 'a\<close>.
    \<^item> \<open>Admission\<close>, \<open>Admission_Safety\<close>, \<open>Admission_Liveness\<close>: the controller.  Its coroutine is cut at each
      await into atomic operations; \<open>adm_step\<close> interleaves them, over an explicit asyncio semaphore.
    \<^item> \<open>RateLimit\<close>, \<open>Store\<close>, \<open>ApiKeys\<close>, \<open>AdminService\<close>, \<open>Auth\<close>, \<open>Usage\<close>: fixed windows, the tables with
      their constraints, keys, the admin service as functions and as the relation \<open>svc_step\<close>,
      authentication, policies and accounting.
    \<^item> \<open>RoutingConfig\<close>, \<open>ModelRegistry\<close>, \<open>Backends\<close>, \<open>Router\<close>: the configuration file's parser, the table
      of models and aliases, the registry with its health cache, and routing.
    \<^item> \<open>Sse\<close>, \<open>LlamaCpp\<close>, \<open>Wire\<close>, \<open>Chat\<close>, \<open>Serving\<close>: the parser of event streams from bytes on, the
      backend, the wire format of answers, both handlers with every outcome, and a handler's run on the
      shared controller.
    \<^item> \<open>Edge\<close>, \<open>Config\<close>, \<open>Database\<close>, \<open>Lifecycle\<close>: middleware, exception handlers and the admin gate, the
      settings with their validators, the engine's owner, startup and shutdown with a trace of what is
      opened and closed.
    \<^item> \<open>Observability\<close>, \<open>AdminApi\<close>, \<open>AdminStatus\<close>, \<open>Dashboard\<close>, \<open>Health\<close>, \<open>Cli\<close>: aggregation, the
      management routes, the probing routes, the dashboard's page, the health endpoints, the commands.
    \<^item> \<open>Responses\<close>: the response schemas of \<open>api/chat_schemas.py\<close> and the JSON they write.
    \<^item> \<open>System\<close>: the running gateway.  Every request in flight is a \<open>flight\<close> with the phase its handler is
      in; \<open>sys_step\<close> interleaves the sections between the awaits of all handlers, over the shared
      database, limiter and admission controller, with the management plane (\<open>admin_step\<close>) and the
      probes of backends, whose results the registry keeps (\<open>recached\<close>).
    \<^item> \<open>Gateway\<close>: what \<open>create_app\<close> of \<open>main.py\<close> builds, as a function from a request to a response: the
      middlewares in the order they are added, the table of routes with the dependency of each, the
      exception handlers and the endpoints of the data plane.
    \<^item> \<open>AdminJson\<close>, \<open>Management\<close>: the JSON of every response schema of the management and health routes, and
      the handlers of these routes as the argument of \<open>create_app\<close>, with what their probes leave in the
      registry's cache; \<open>application\<close> is the whole program as a function from a request to its response
      and the new state, and \<open>app_run\<close> serves requests one after the other.
    \<^item> \<open>Metering\<close>, \<open>Secrecy\<close>, \<open>StoredValues\<close>: backend calls and usage records of the
      application, what it gives away of the hashes of keys, and what the schemas guarantee of the stored
      rows.
    \<^item> \<open>Migrations\<close>: \<open>alembic/versions\<close> as statements over an explicit schema with SQLite's refusals, the
      rows of the store as instances of the head's tables, the tables made without a migration, and
      the URL's way through \<open>env.py\<close>.

  \<^bold>\<open>How the model reads the code.\<close>  State is a record that an operation returns updated: the admission
  controller, the limiter, the database, the backend registry.  A database's operation is one
  transaction.  What the code asks of libraries is an argument: the outcome of an HTTP request or a
  probe, the clock's reading, a fresh id, the bytes of the random source, the hash function, the file's
  text, the decoder of JSON.  Floats are rationals and finite, text is of characters below 256 (of code
  points in \<open>Sse\<close>), dictionaries are association lists in order of insertion.

  \<^bold>\<open>Interfaces.\<close>  Where one part relies on another the contract is a locale, interpreted on the model
  in the theory that provides it: the store of keys for authentication, the tables of models and
  backends for routing, and the pool of slots (\<open>slot_pool\<close>) for serving, with the admission controller
  as its interpretation.  FastAPI and Starlette are not in the repository: \<open>create_app\<close> takes them as the
  record \<open>framework\<close>, and \<open>framework_ok\<close> states what is documented of them, that the middleware added
  last is the outermost, that the CORS middleware only answers preflights and adds headers, that a
  request is resolved to a route of its method and path, and that a validated body satisfies its schema.
  The exception classes are ordered by inheritance, as an instance of \<open>order\<close>.

  \<^bold>\<open>What is shown.\<close>
    \<^item> Admission: at most \<open>max_active\<close> requests hold a slot and at most \<open>max_queue\<close> wait, in every
      reachable interleaving; no slot is lost; grants are first in, first out; without cancellations the
      queue always has someone to move it.
    \<^item> Data plane: no request reaches a backend without passing access, rate limit and quotas; every
      completion, streamed or not, gives its slot back and leaves one record whose outcome is the one of
      a table over what happened; what a client parses out of the stream is what the backend sent.
    \<^item> The whole gateway: from its start on, in every interleaving of all requests with the management
      plane, at most \<open>max_active\<close> requests are being served; once a key is revoked no new request of it
      is accepted; whatever is in flight can be brought to its end.  What \<open>create_app\<close> answers carries one
      request id; no work is done for a completion without a valid key, and no management route answers
      without the admin secret.
    \<^item> The application over HTTP: every request of every route is a run of \<open>sys_step\<close>, so what holds of all
      runs holds of it; a key issued over HTTP authenticates, and once a revocation was answered with
      success no completion of that key does anything, whatever the requests between; each request that calls a
      backend leaves one record, for the key it carries; the answers of the
      management plane do not depend on the hashes of keys; stored names and limits stay those that the
      schemas admit.
    \<^item> The wire: a completion that is not streamed reaches the client as the backend sent it.
    \<^item> The schema: migrations can be taken back, and the insertions of \<open>Store\<close> are exactly those that the
      schema of the whole chain admits.
    \<^item> Keys: authentication is sound, a new key works, a revoked one stays out whatever happens next;
      tokens have the documented form; the two dependencies agree.
    \<^item> Limits: the limiter equals a counter per window; the daily quota is an invariant; usage and
      observability agree with the rows they summarise.
    \<^item> Routing: a parsed configuration is well formed, a decision is one of an enabled model to its
      registered backend, and every listed model routes.
    \<^item> Management: the routes refine the admin service behind the gate; listings survive failing probes
      and show neither credentials nor paths; health is the aggregate of the probes; a gateway that
      starts from validated settings starts in a state that satisfies the invariants above.
    \<^item> Defects found on the way are lemmas beside the properties, such as a queue entry that survives its
      cancelled request, an event stream with CRLF or a cut character, or the clients of configured
      backends that shutdown leaves open.

  \<^bold>\<open>Bounds and loops.\<close>  Loops over data are structural or have a measure (\<open>decode\<close>, \<open>drain\<close>, \<open>mro\<close>); the
  parser's inner \<open>while\<close> is also given as \<open>while_option\<close> and proved to end.  No fuel is used, but for
  the printed digits of a fraction (\<open>show_frac\<close>), which are cut off as a decimal of that length.  The event
  loop itself does not end and is a reachability relation.  Bytes are \<open>8 word\<close>; Python's integers are
  unbounded and so \<open>int\<close>.

  \<^bold>\<open>Not modelled.\<close>  The classes of \<open>app/models\<close> are not in the repository, so the tables come from the
  migrations under \<open>alembic\<close>, and what \<open>create_all\<close> makes of those classes is a parameter.  Left out are
  the text of most log lines, the script of the static admin page, argparse and pydantic's reading of
  input, the OpenAPI document, the migration engine itself, and the scripts under \<open>scripts\<close>, which start
  servers and print checks.  What pydantic reads out of a body or a query is the record \<open>schemas\<close>, of
  which \<open>schemas_ok\<close> says that no body is accepted against the constraints of its schema.  Of a request
  that is cancelled while it probes, the cache keeps nothing in the model.  A second process on the same database is not modelled,
  nor is the failure of a commit other than by a constraint, except where the code handles it (the usage
  record and \<open>last_used_at\<close>).
\<close>

end
